(* ===== verification/Prelude.thy ===== *)
theory Prelude
  imports Main "HOL-Library.Word" "HOL-Library.AList" "HOL-Library.Monad_Syntax"
begin

text \<open>
  Shared vocabulary of the development: names for the machine types of the Rust sources,
  the fact collections the component theories add to, and the generic lemmas on lists,
  association lists and words that several components use.

  \<^item> Unsigned machine integers are words of their width; an \<open>i64\<close> timestamp is an \<open>int\<close>.
  \<^item> A Rust \<open>String\<close>, \<open>str\<close> or byte slice is a \<open>string\<close>: a HOL \<open>char\<close> is one
    byte, so a \<open>string\<close> is the UTF-8 byte sequence Rust stores, and \<open>length\<close> is \<open>len()\<close>.
  \<^item> A \<open>HashMap\<close> whose values the code iterates over is an association list with distinct
    keys (the list order stands for the unspecified iteration order).
  \<^item> A \<open>Result\<close> is a sum, \<open>Inl\<close> the error; an \<open>Option\<close> is an \<open>option\<close>.
\<close>

type_synonym u8 = "8 word"
type_synonym u16 = "16 word"
type_synonym u32 = "32 word"
type_synonym u64 = "64 word"

type_synonym ('k, 'v) hashmap = "('k \<times> 'v) list"

named_theorems seam_defs \<open>definitions that component proofs unfold\<close>
named_theorems seam_inv \<open>facts that an operation keeps an invariant\<close>

section \<open>Lists\<close>

lemma takeWhile_append_stop:
  "\<forall>x \<in> set xs. P x \<Longrightarrow> (ys = [] \<or> \<not> P (hd ys)) \<Longrightarrow> takeWhile P (xs @ ys) = xs"
  by (induction xs) (auto simp: takeWhile_eq_Nil_iff)

lemma dropWhile_append_stop:
  "\<forall>x \<in> set xs. P x \<Longrightarrow> (ys = [] \<or> \<not> P (hd ys)) \<Longrightarrow> dropWhile P (xs @ ys) = ys"
  by (induction xs) (auto simp: dropWhile_eq_self_iff)

lemma length_filter_mono:
  "(\<And>x. x \<in> set xs \<Longrightarrow> P x \<Longrightarrow> Q x) \<Longrightarrow> length (filter P xs) \<le> length (filter Q xs)"
  by (induction xs) (auto simp: le_Suc_eq)

lemma filter_filter_absorb:
  "(\<And>x. x \<in> set xs \<Longrightarrow> P x \<Longrightarrow> Q x) \<Longrightarrow> filter P (filter Q xs) = filter P xs"
  by (induction xs) auto

lemma drop_append_all: "length xs \<le> n \<Longrightarrow> drop n (xs @ ys) = drop (n - length xs) ys"
  by simp

section \<open>Association lists\<close>

lemma map_of_update_same [simp]: "map_of (AList.update k v m) k = Some v"
  by (simp add: update_conv')

lemma map_of_update_other [simp]: "k \<noteq> k' \<Longrightarrow> map_of (AList.update k v m) k' = map_of m k'"
  by (simp add: update_conv')

lemma map_of_delete_same [simp]: "map_of (AList.delete k m) k = None"
  by (simp add: delete_conv')

lemma map_of_delete_other [simp]: "k \<noteq> k' \<Longrightarrow> map_of (AList.delete k m) k' = map_of m k'"
  by (simp add: delete_conv')

lemma length_delete_present:
  "distinct (map fst m) \<Longrightarrow> map_of m k \<noteq> None \<Longrightarrow> Suc (length (AList.delete k m)) = length m"
proof (induction m)
  case Nil
  then show ?case by simp
next
  case (Cons p m)
  show ?case
  proof (cases "fst p = k")
    case True
    with Cons.prems(1) have "k \<notin> fst ` set m" by auto
    then have "AList.delete k m = m" by (simp add: delete_id)
    with True show ?thesis by (cases p) simp
  next
    case False
    with Cons show ?thesis by (cases p) auto
  qed
qed

lemma update_absent: "map_of m k = None \<Longrightarrow> AList.update k v m = m @ [(k, v)]"
  by (induction m) (auto split: if_splits)

lemma length_update_le: "length (AList.update k v m) \<le> Suc (length m)"
  by (induction m) auto

lemma set_delete_sub: "set (AList.delete k m) \<subseteq> set m"
  by (auto simp: AList.delete_eq)

lemma filter_delete_le: "length (filter P (AList.delete k m)) \<le> length (filter P m)"
  by (induction m) (auto simp: AList.delete_eq)

lemma filter_keys_not:
  assumes "distinct (map fst m)"
  shows "filter (\<lambda>p. fst p \<notin> fst ` set (filter P m)) m = filter (\<lambda>p. \<not> P p) m"
proof (rule filter_cong [OF refl])
  fix p
  assume p: "p \<in> set m"
  have "q = p" if "q \<in> set m" "fst q = fst p" for q
    using assms p that by (metis distinct_map inj_onD)
  then show "fst p \<notin> fst ` set (filter P m) \<longleftrightarrow> \<not> P p" using p by auto
qed

lemma delete_update_absent:
  "map_of m k = None \<Longrightarrow> AList.delete k (AList.update k v m) = m"
  by (simp add: update_absent AList.delete_eq) (metis (mono_tags, lifting) AList.delete_eq delete_id map_of_eq_None_iff)

section \<open>Words\<close>

lemma unat_less_2p: "unat (w :: 'a::len word) < 2 ^ LENGTH('a)"
  using unsigned_less [of w] by simp

lemma unat_of_nat_small: "n < 2 ^ LENGTH('a) \<Longrightarrow> unat (word_of_nat n :: 'a::len word) = n"
  by (simp add: unat_of_nat take_bit_nat_eq_self)

lemma unat_ucast_mod: "unat (ucast (w :: 'a::len word) :: 'b::len word) = unat w mod 2 ^ LENGTH('b)"
  by (simp add: unsigned_ucast_eq unsigned_take_bit_eq take_bit_eq_mod)

lemma ucast_u32_u64_u32 [simp]: "ucast (ucast (w :: u32) :: u64) = w"
  by (rule bit_word_eqI) (auto simp: bit_unsigned_iff dest: bit_imp_le_length)

section \<open>Invariants of transition systems\<close>

text \<open>The rule every invariant of a step relation is proved by.\<close>

locale invariant =
  fixes step :: "'s \<Rightarrow> 's \<Rightarrow> bool" and inv :: "'s \<Rightarrow> bool"
  assumes kept: "step s t \<Longrightarrow> inv s \<Longrightarrow> inv t"
begin

lemma reachable: "step\<^sup>*\<^sup>* s t \<Longrightarrow> inv s \<Longrightarrow> inv t"
  by (induction rule: rtranclp_induct) (auto intro: kept)

end

text \<open>
  A system that implements a specification: under the invariant, every step is a step of the
  specification between the abstract states.
\<close>

locale simulation = invariant +
  fixes spec_step :: "'a \<Rightarrow> 'a \<Rightarrow> bool" and abs :: "'s \<Rightarrow> 'a"
  assumes simulates: "step s t \<Longrightarrow> inv s \<Longrightarrow> spec_step (abs s) (abs t)"
begin

lemma refines: "step\<^sup>*\<^sup>* s t \<Longrightarrow> inv s \<Longrightarrow> spec_step\<^sup>*\<^sup>* (abs s) (abs t)"
proof (induction rule: rtranclp_induct)
  case base
  then show ?case by simp
next
  case (step t u)
  then show ?case using simulates reachable by (meson rtranclp.rtrancl_into_rtrancl)
qed

end

end
