(* ===== verification/Net_Addr.thy ===== *)
theory Net_Addr
  imports Rust_Std
begin

unbundle bit_operations_syntax

text \<open>
  \<open>std::net\<close> as the relay uses it: addresses, their text form and the parsers behind
  \<open>str::parse\<close>. An IPv4 address is its \<open>u32\<close> (the value of \<open>u32::from\<close>), an IPv6 address
  its 128 bits. The parsers follow \<open>core::net::parser\<close>: a reader takes the rest of the input
  and returns a value with what is left; a successful parse leaves nothing.

  The main fact is the round trip \<open>parse_ipaddr_show_ipv4\<close>: the text the relay makes of an
  IPv4 peer address is always read back as that address.
\<close>

datatype ipaddr = V4 u32 | V6 "128 word"

record sockaddr =
  sa_ip :: ipaddr
  sa_port :: u16

section \<open>Octets and groups\<close>

definition octet :: "u32 \<Rightarrow> nat \<Rightarrow> nat" where
  "octet w i = unat (drop_bit (8 * i) w AND 255)"

definition of_octets :: "nat \<Rightarrow> nat \<Rightarrow> nat \<Rightarrow> nat \<Rightarrow> u32" where
  "of_octets a b c d = word_of_nat (((a * 256 + b) * 256 + c) * 256 + d)"

definition group16 :: "128 word \<Rightarrow> nat \<Rightarrow> nat" where
  "group16 w i = unat (drop_bit (16 * (7 - i)) w AND 0xFFFF)"

definition of_groups :: "nat list \<Rightarrow> 128 word" where
  "of_groups gs = word_of_nat (foldl (\<lambda>n g. n * 65536 + g) 0 gs)"

text \<open>
  \<open>Ipv6Addr::to_ipv4\<close>: the last 32 bits when the first 80 are zero and the next 16 are all
  zero (an IPv4-compatible address) or all one (an IPv4-mapped one).
\<close>

definition to_ipv4 :: "128 word \<Rightarrow> u32 option" where
  "to_ipv4 w =
     (if drop_bit 32 w = 0 \<or> drop_bit 32 w = 0xFFFF then Some (ucast w) else None)"

section \<open>Text form\<close>

definition show_ipv4 :: "u32 \<Rightarrow> string" where
  "show_ipv4 w = show_nat (octet w 3) @ ''.'' @ show_nat (octet w 2) @ ''.''
     @ show_nat (octet w 1) @ ''.'' @ show_nat (octet w 0)"

text \<open>
  \<open>Display for Ipv6Addr\<close>: an IPv4-mapped address is \<open>::ffff:a.b.c.d\<close>; otherwise the first
  longest run of two or more zero groups is written \<open>::\<close>.
\<close>

fun zero_runs :: "nat \<Rightarrow> nat list \<Rightarrow> nat \<Rightarrow> nat \<Rightarrow> nat \<times> nat \<Rightarrow> nat \<times> nat" where
  "zero_runs i [] cur_start cur_len best = best"
| "zero_runs i (g # gs) cur_start cur_len best =
     (if g = 0
      then let st = (if cur_len = 0 then i else cur_start); ln = cur_len + 1
           in zero_runs (i + 1) gs st ln (if snd best < ln then (st, ln) else best)
      else zero_runs (i + 1) gs 0 0 best)"

fun join_groups :: "nat list \<Rightarrow> string" where
  "join_groups [] = []"
| "join_groups [g] = show_hex g"
| "join_groups (g # h # gs) = show_hex g @ '':'' @ join_groups (h # gs)"

definition show_ipv6 :: "128 word \<Rightarrow> string" where
  "show_ipv6 w =
     (if drop_bit 32 w = 0xFFFF then ''::ffff:'' @ show_ipv4 (ucast w)
      else let gs = map (group16 w) [0..<8]; (st, ln) = zero_runs 0 gs 0 0 (0, 0)
           in if ln > 1 then join_groups (take st gs) @ ''::'' @ join_groups (drop (st + ln) gs)
              else join_groups gs)"

fun show_ip :: "ipaddr \<Rightarrow> string" where
  "show_ip (V4 w) = show_ipv4 w"
| "show_ip (V6 w) = show_ipv6 w"

fun show_sockaddr :: "sockaddr \<Rightarrow> string" where
  "show_sockaddr sa =
     (case sa_ip sa of
        V4 w \<Rightarrow> show_ipv4 w @ '':'' @ show_nat (unat (sa_port sa))
      | V6 w \<Rightarrow> ''['' @ show_ipv6 w @ '']:'' @ show_nat (unat (sa_port sa)))"

section \<open>Parsers\<close>

type_synonym 'a reader = "string \<Rightarrow> ('a \<times> string) option"

definition read_given_char :: "char \<Rightarrow> string \<Rightarrow> string option" where
  "read_given_char c s =
     (case s of [] \<Rightarrow> None | x # xs \<Rightarrow> if x = c then Some xs else None)"

definition is_hex_digit :: "char \<Rightarrow> bool" where
  "is_hex_digit c \<longleftrightarrow> is_digit c \<or> (97 \<le> chr_code c \<and> chr_code c \<le> 102)
     \<or> (65 \<le> chr_code c \<and> chr_code c \<le> 70)"

definition hex_val :: "char \<Rightarrow> nat" where
  "hex_val c = (if is_digit c then chr_code c - 48
                else if 97 \<le> chr_code c then chr_code c - 87 else chr_code c - 55)"

text \<open>
  \<open>read_number(10, Some(3), false)\<close> into a \<open>u8\<close>: one to three digits, no leading zero
  unless it is the only digit, at most 255.
\<close>

definition read_octet :: "nat reader" where
  "read_octet s =
     (let ds = takeWhile is_digit s
      in if ds = [] \<or> 3 < length ds \<or> (hd ds = CHR ''0'' \<and> 1 < length ds) \<or> 255 < digits_val ds
         then None else Some (digits_val ds, drop (length ds) s))"

definition read_hex_group :: "nat reader" where
  "read_hex_group s =
     (let ds = takeWhile is_hex_digit s
      in if ds = [] \<or> 4 < length ds then None
         else Some (foldl (\<lambda>n c. 16 * n + hex_val c) 0 ds, drop (length ds) s))"

definition read_ipv4 :: "u32 reader" where
  "read_ipv4 s =
     do { (a, s) \<leftarrow> read_octet s; s \<leftarrow> read_given_char CHR ''.'' s;
          (b, s) \<leftarrow> read_octet s; s \<leftarrow> read_given_char CHR ''.'' s;
          (c, s) \<leftarrow> read_octet s; s \<leftarrow> read_given_char CHR ''.'' s;
          (d, s) \<leftarrow> read_octet s;
          Some (of_octets a b c d, s) }"

definition read_sep :: "nat \<Rightarrow> string \<Rightarrow> string option" where
  "read_sep i s = (if i > 0 then read_given_char CHR '':'' s else Some s)"

text \<open>
  \<open>read_groups\<close>: up to \<open>k\<close> more groups, the \<open>i\<close>-th so far; an embedded IPv4 address
  takes two groups and ends the reading.
\<close>

fun read_groups :: "nat \<Rightarrow> nat \<Rightarrow> string \<Rightarrow> nat list \<times> bool \<times> string" where
  "read_groups 0 i s = ([], False, s)"
| "read_groups (Suc k) i s =
     (case (if 1 \<le> k then read_sep i s \<bind> read_ipv4 else None) of
        Some (w, r) \<Rightarrow>
          ([octet w 3 * 256 + octet w 2, octet w 1 * 256 + octet w 0], True, r)
      | None \<Rightarrow>
          (case read_sep i s \<bind> read_hex_group of
             None \<Rightarrow> ([], False, s)
           | Some (g, r) \<Rightarrow> (case read_groups k (Suc i) r of (gs, b, r') \<Rightarrow> (g # gs, b, r'))))"

definition read_ipv6 :: "(128 word) reader" where
  "read_ipv6 s =
     (case read_groups 8 0 s of (head, head_ipv4, r) \<Rightarrow>
        if length head = 8 then Some (of_groups head, r)
        else if head_ipv4 then None
        else do { r \<leftarrow> read_given_char CHR '':'' r; r \<leftarrow> read_given_char CHR '':'' r;
                  (case read_groups (8 - (length head + 1)) 0 r of (tail, _, r) \<Rightarrow>
                     Some (of_groups (head @ replicate (8 - length head - length tail) 0 @ tail),
                           r)) })"

definition parse_ipv4 :: "string \<Rightarrow> u32 option" where
  "parse_ipv4 s =
     (if 15 < length s then None
      else case read_ipv4 s of Some (w, []) \<Rightarrow> Some w | _ \<Rightarrow> None)"

definition parse_ipaddr :: "string \<Rightarrow> ipaddr option" where
  "parse_ipaddr s =
     (case read_ipv4 s of
        Some (w, r) \<Rightarrow> if r = [] then Some (V4 w) else None
      | None \<Rightarrow> (case read_ipv6 s of Some (w, []) \<Rightarrow> Some (V6 w) | _ \<Rightarrow> None))"

section \<open>Socket addresses\<close>

text \<open>\<open>SocketAddr::from_str\<close>. A port is a decimal number of any length below 65536.\<close>

definition read_port :: "u16 reader" where
  "read_port s =
     (let ds = takeWhile is_digit s; n = digits_val ds
      in if ds = [] \<or> n \<ge> 65536 then None else Some (word_of_nat n, dropWhile is_digit s))"

definition parse_sockaddr_v4 :: "string \<Rightarrow> sockaddr option" where
  "parse_sockaddr_v4 s =
     do { (w, s1) \<leftarrow> read_ipv4 s;
          s2 \<leftarrow> read_given_char CHR '':'' s1;
          (p, s3) \<leftarrow> read_port s2;
          if s3 = [] then Some \<lparr>sa_ip = V4 w, sa_port = p\<rparr> else None }"

definition parse_sockaddr_v6 :: "string \<Rightarrow> sockaddr option" where
  "parse_sockaddr_v6 s =
     do { s1 \<leftarrow> read_given_char CHR ''['' s;
          (w, s2) \<leftarrow> read_ipv6 s1;
          s3 \<leftarrow> read_given_char CHR '']'' s2;
          s4 \<leftarrow> read_given_char CHR '':'' s3;
          (p, s5) \<leftarrow> read_port s4;
          if s5 = [] then Some \<lparr>sa_ip = V6 w, sa_port = p\<rparr> else None }"

text \<open>A scope id (\<open>%n\<close> after an IPv6 address) is not modelled: such a text does not parse here.\<close>

definition parse_sockaddr :: "string \<Rightarrow> sockaddr option" where
  "parse_sockaddr s = (case parse_sockaddr_v4 s of Some a \<Rightarrow> Some a | None \<Rightarrow> parse_sockaddr_v6 s)"

section \<open>Round trip\<close>

lemma octet_div_mod: "octet w i = unat w div 256 ^ i mod 256"
proof -
  have "drop_bit (8 * i) w AND 255 = take_bit 8 (drop_bit (8 * i) w)"
    by (simp add: take_bit_eq_mask mask_numeral)
  then have "octet w i = take_bit 8 (drop_bit (8 * i) (unat w))"
    using unat_less_2p [of w]
    by (simp add: octet_def unsigned_take_bit_eq unsigned_drop_bit_eq take_bit_nat_eq_self)
  then show ?thesis
    by (simp add: take_bit_eq_mod drop_bit_eq_div power_mult)
qed

lemma octet_less [simp]: "octet w i < 256"
  by (simp add: octet_div_mod)

lemma horner_digits:
  fixes n :: nat assumes "n < 256 * 256 * 256 * 256"
  shows "((n div 256 ^ 3 mod 256 * 256 + n div 256 ^ 2 mod 256) * 256
            + n div 256 mod 256) * 256 + n mod 256 = n"
proof -
  have d2: "n div 256 ^ 2 = n div 256 div 256" and d3: "n div 256 ^ 3 = n div 256 div 256 div 256"
    by (simp_all add: div_mult2_eq [symmetric])
  have "n div 256 div 256 div 256 < 256"
    using assms by (simp add: less_mult_imp_div_less ac_simps)
  then have "n div 256 ^ 3 mod 256 = n div 256 div 256 div 256" by (simp add: d3)
  then show ?thesis unfolding d2 by (metis div_mult_mod_eq)
qed

lemma of_octets_octet: "of_octets (octet w 3) (octet w 2) (octet w 1) (octet w 0) = w"
proof -
  have "unat w < 256 * 256 * 256 * 256"
    using unat_less_2p [of w] by simp
  then have "((octet w 3 * 256 + octet w 2) * 256 + octet w 1) * 256 + octet w 0 = unat w"
    by (simp only: octet_div_mod power_0 power_one_right div_by_1 horner_digits)
  then show ?thesis by (simp only: of_octets_def) simp
qed

lemma read_octet_show:
  assumes "n < 256" and "r = [] \<or> \<not> is_digit (hd r)"
  shows "read_octet (show_nat n @ r) = Some (n, r)"
proof -
  have all: "\<forall>x \<in> set (show_nat n). is_digit x"
    using show_nat_digits [of n] by (simp add: list_all_iff)
  have tw: "takeWhile is_digit (show_nat n @ r) = show_nat n"
    by (rule takeWhile_append_stop [OF all assms(2)])
  have len: "length (show_nat n) \<le> 3"
    using assms(1) length_show_nat_le [of n 3] by simp
  have "1 < length (show_nat n) \<Longrightarrow> hd (show_nat n) \<noteq> CHR ''0''"
    using show_nat_no_lead_zero [of n] by (cases "n < 10") (auto simp: show_nat.simps [of n])
  with assms(1) len show ?thesis
    by (auto simp: read_octet_def Let_def tw)
qed

lemma dot_not_digit [simp]: "\<not> is_digit CHR ''.''"
  by (simp add: is_digit_def chr_code_def)

lemma read_ipv4_show:
  assumes "r = [] \<or> \<not> is_digit (hd r)"
  shows "read_ipv4 (show_ipv4 w @ r) = Some (w, r)"
  using assms
  by (simp add: read_ipv4_def show_ipv4_def read_octet_show read_given_char_def
      of_octets_octet [simplified])

lemma parse_ipaddr_show_ipv4: "parse_ipaddr (show_ipv4 w) = Some (V4 w)"
  using read_ipv4_show [of "[]" w] by (simp add: parse_ipaddr_def)

lemma length_show_ipv4: "length (show_ipv4 w) \<le> 15"
proof -
  have "length (show_nat (octet w i)) \<le> 3" for i
    by (rule length_show_nat_le [OF less_trans [OF octet_less]]) simp_all
  from this [of 0] this [of 1] this [of 2] this [of 3] show ?thesis
    by (simp add: show_ipv4_def)
qed

lemma parse_ipv4_show: "parse_ipv4 (show_ipv4 w) = Some w"
  using read_ipv4_show [of "[]" w] length_show_ipv4 [of w] by (simp add: parse_ipv4_def)

lemma to_ipv4_mapped: "to_ipv4 (0xFFFF00000000 OR ucast (w :: u32)) = Some w"
proof -
  have "drop_bit 32 (0xFFFF00000000 OR ucast w :: 128 word) = 0xFFFF OR drop_bit 32 (ucast w)"
    by simp
  moreover have "drop_bit 32 (ucast w :: 128 word) = 0"
    by (rule bit_word_eqI) (auto simp: bit_simps dest: bit_imp_le_length)
  moreover have "ucast (0xFFFF00000000 OR ucast w :: 128 word) = w"
  proof (rule bit_word_eqI)
    fix n assume n: "n < LENGTH(32)"
    have "\<not> bit (push_bit 32 0xFFFF :: 128 word) n" using n by (simp only: bit_push_bit_iff) simp
    then have "\<not> bit (0xFFFF00000000 :: 128 word) n" by simp
    with n show "bit (ucast (0xFFFF00000000 OR ucast w :: 128 word) :: u32) n = bit w n"
      by (simp add: bit_simps)
  qed
  ultimately show ?thesis by (simp add: to_ipv4_def)
qed

end
