(* ===== verification/Denylist.thy ===== *)
theory Denylist
  imports Net_Addr
begin

unbundle bit_operations_syntax

text \<open>
  The IP CIDR deny list (\<open>denylist.rs\<close>) and the CIDR allow list of the admin port
  (\<open>parse_cidr\<close> and \<open>ip_in_cidr\<close> of \<open>main.rs\<close>).

  A file system read is the parameter \<open>read_to_string :: string \<Rightarrow> string option\<close>
  (\<open>None\<close> is an I/O error). The \<open>Arc\<close> and the lock around the entries are the record itself:
  every reader sees the entries of the last completed write.

  The lemmas lead from the text of a file to the decision on an address: a line
  \<open>a.b.c.d/n\<close> denies exactly the addresses that agree with \<open>a.b.c.d\<close> on the first \<open>n\<close> bits.
\<close>

section \<open>denylist.rs\<close>

record IpDenyList =
  entries :: "(u32 \<times> u32) list"
  dl_path :: "string option"

definition disabled :: IpDenyList where
  "disabled = \<lparr>entries = [], dl_path = None\<rparr>"

definition prefix_mask :: "u32 \<Rightarrow> u32" where
  "prefix_mask prefix_len =
     (if prefix_len = 0 then 0 else push_bit (32 - unat prefix_len) (NOT 0))"

definition parse_prefix_len :: "string \<Rightarrow> u32 option" where
  "parse_prefix_len s =
     (case parse_u32 s of None \<Rightarrow> None | Some n \<Rightarrow> if n \<le> 32 then Some n else None)"

definition parse_cidr :: "string \<Rightarrow> (u32 \<times> u32) option" where
  "parse_cidr s =
     do { (ip_str, prefix_str) \<leftarrow> split_once CHR ''/'' s;
          prefix_len \<leftarrow> parse_prefix_len prefix_str;
          ip_u32 \<leftarrow> parse_ipv4 (trim ip_str);
          let mask = prefix_mask prefix_len;
          Some (ip_u32 AND mask, mask) }"

definition parse_denylist_line :: "string \<Rightarrow> (u32 \<times> u32) option" where
  "parse_denylist_line l =
     (let line = trim l
      in if line = [] \<or> starts_with line ''#'' then None else parse_cidr line)"

definition parse_denylist_file :: "(string \<Rightarrow> string option) \<Rightarrow> string \<Rightarrow> (u32 \<times> u32) list" where
  "parse_denylist_file read_to_string path =
     (case read_to_string path of
        None \<Rightarrow> []
      | Some text \<Rightarrow> List.map_filter parse_denylist_line (str_lines text))"

definition from_file :: "(string \<Rightarrow> string option) \<Rightarrow> string \<Rightarrow> IpDenyList" where
  "from_file read_to_string path =
     \<lparr>entries = parse_denylist_file read_to_string path, dl_path = Some path\<rparr>"

definition reload :: "(string \<Rightarrow> string option) \<Rightarrow> IpDenyList \<Rightarrow> IpDenyList" where
  "reload read_to_string dl =
     (case dl_path dl of
        None \<Rightarrow> dl
      | Some path \<Rightarrow> dl\<lparr>entries := parse_denylist_file read_to_string path\<rparr>)"

fun to_ipv4_u32 :: "ipaddr \<Rightarrow> u32 option" where
  "to_ipv4_u32 (V4 v4) = Some v4"
| "to_ipv4_u32 (V6 v6) = to_ipv4 v6"

definition is_denied :: "IpDenyList \<Rightarrow> ipaddr \<Rightarrow> bool" where
  "is_denied dl ip =
     (case to_ipv4_u32 ip of
        None \<Rightarrow> False
      | Some ip_u32 \<Rightarrow> list_ex (\<lambda>(net, mask). ip_u32 AND mask = net) (entries dl))"

definition is_enabled :: "IpDenyList \<Rightarrow> bool" where
  "is_enabled dl \<longleftrightarrow> dl_path dl \<noteq> None"

section \<open>The admin allow list of main.rs\<close>

definition main_parse_cidr :: "string \<Rightarrow> (u32 \<times> u32) option" where
  "main_parse_cidr s =
     do { (ip_str, prefix_len_str) \<leftarrow> split_once CHR ''/'' (trim s);
          prefix_len \<leftarrow> parse_prefix_len prefix_len_str;
          ip_u32 \<leftarrow> parse_ipv4 ip_str;
          let mask = prefix_mask prefix_len;
          Some (ip_u32 AND mask, mask) }"

definition ip_in_cidr :: "ipaddr \<Rightarrow> (u32 \<times> u32) list \<Rightarrow> bool" where
  "ip_in_cidr ip cidrs =
     (if cidrs = [] then True
      else case ip of
             V4 v4 \<Rightarrow> list_ex (\<lambda>(net, mask). v4 AND mask = net) cidrs
           | V6 _ \<Rightarrow> False)"

definition admin_cidrs :: "string option \<Rightarrow> (u32 \<times> u32) list" where
  "admin_cidrs admin_allow_cidr =
     List.map_filter main_parse_cidr
       (filter (\<lambda>s. s \<noteq> []) (split_char CHR '','' (case admin_allow_cidr of None \<Rightarrow> [] | Some s \<Rightarrow> s)))"

section \<open>What a mask matches\<close>

text \<open>The specification: two addresses lie in the same block of prefix length \<open>n\<close>.\<close>

definition same_block :: "nat \<Rightarrow> u32 \<Rightarrow> u32 \<Rightarrow> bool" where
  "same_block n a b \<longleftrightarrow> drop_bit (32 - n) a = drop_bit (32 - n) b"

lemma bit_prefix_mask:
  "unat p \<le> 32 \<Longrightarrow> bit (prefix_mask p) i \<longleftrightarrow> 32 - unat p \<le> i \<and> i < 32"
  by (auto simp: prefix_mask_def bit_simps unat_eq_zero)

lemma mask_same_block:
  assumes "unat p \<le> 32"
  shows "(a AND prefix_mask p = w AND prefix_mask p) \<longleftrightarrow> same_block (unat p) a w"
proof
  assume h: "a AND prefix_mask p = w AND prefix_mask p"
  show "same_block (unat p) a w"
    unfolding same_block_def
  proof (rule bit_word_eqI)
    fix i assume "i < LENGTH(32)"
    have "bit (a AND prefix_mask p) (32 - unat p + i) = bit (w AND prefix_mask p) (32 - unat p + i)"
      by (simp only: h)
    then show "bit (drop_bit (32 - unat p) a) i = bit (drop_bit (32 - unat p) w) i"
      using assms bit_imp_le_length [of a "32 - unat p + i"] bit_imp_le_length [of w "32 - unat p + i"]
      by (auto simp: bit_simps bit_prefix_mask)
  qed
next
  assume h: "same_block (unat p) a w"
  show "a AND prefix_mask p = w AND prefix_mask p"
  proof (rule bit_word_eqI)
    fix i assume "i < LENGTH(32)"
    have "32 - unat p \<le> i \<Longrightarrow>
        bit (drop_bit (32 - unat p) a) (i - (32 - unat p)) = bit (drop_bit (32 - unat p) w) (i - (32 - unat p))"
      using h by (simp add: same_block_def)
    then show "bit (a AND prefix_mask p) i = bit (w AND prefix_mask p) i"
      using assms by (auto simp: bit_simps bit_prefix_mask)
  qed
qed

lemma unat_drop_bit: "unat (drop_bit k (a :: u32)) = unat a div 2 ^ k"
proof -
  have "unat (drop_bit k a) = drop_bit k (unat a)"
    using unat_less_2p [of a] by (simp add: unsigned_drop_bit_eq take_bit_nat_eq_self)
  then show ?thesis by (simp only: drop_bit_eq_div)
qed

lemma same_block_range:
  "same_block n a b \<longleftrightarrow> unat a div 2 ^ (32 - n) = unat b div 2 ^ (32 - n)"
  by (simp only: same_block_def word_unat_eq_iff unat_drop_bit)

section \<open>From the text of a line to its block\<close>

definition show_cidr :: "u32 \<times> nat \<Rightarrow> string" where
  "show_cidr c = show_ipv4 (fst c) @ ''/'' @ show_nat (snd c)"

lemma digit_not_ws: "is_digit c \<Longrightarrow> \<not> is_whitespace c"
  by (auto simp: is_digit_def is_whitespace_def)

lemma trim_id: "s \<noteq> [] \<Longrightarrow> \<not> is_whitespace (hd s) \<Longrightarrow> \<not> is_whitespace (last s) \<Longrightarrow> trim s = s"
proof -
  assume h: "s \<noteq> []" "\<not> is_whitespace (hd s)" "\<not> is_whitespace (last s)"
  then have "dropWhile is_whitespace s = s" by (cases s) auto
  moreover have "dropWhile is_whitespace (rev s) = rev s" using h by (cases s rule: rev_cases) auto
  ultimately show ?thesis by (simp add: trim_def trim_start_def trim_end_def)
qed

lemma show_nat_chars: "c \<in> set (show_nat n) \<Longrightarrow> is_digit c"
  using show_nat_digits [of n] by (simp add: list_all_iff)

lemma show_ipv4_chars: "c \<in> set (show_ipv4 w) \<Longrightarrow> is_digit c \<or> c = CHR ''.''"
  by (auto simp: show_ipv4_def dest: show_nat_chars)

lemma show_ipv4_ends:
  "show_ipv4 w \<noteq> []" "is_digit (hd (show_ipv4 w))" "is_digit (last (show_ipv4 w))"
  using show_nat_hd_digit [of "octet w 3"] show_nat_digits [of "octet w 0"]
  by (auto simp: show_ipv4_def list_all_iff last_append)

lemma trim_show_ipv4 [simp]: "trim (show_ipv4 w) = show_ipv4 w"
  using show_ipv4_ends [of w] by (intro trim_id) (auto dest: digit_not_ws)

lemma slash_not_in_ipv4 [simp]: "CHR ''/'' \<notin> set (show_ipv4 w)"
  by (auto dest!: show_ipv4_chars simp: is_digit_def chr_code_def)

lemma show_cidr_ends:
  "show_cidr c \<noteq> []" "is_digit (hd (show_cidr c))" "is_digit (last (show_cidr c))"
  using show_ipv4_ends [of "fst c"] show_nat_digits [of "snd c"]
  by (auto simp: show_cidr_def list_all_iff)

lemma trim_show_cidr [simp]: "trim (show_cidr c) = show_cidr c"
  using show_cidr_ends [of c] by (intro trim_id) (auto dest: digit_not_ws)

lemma show_cidr_chars: "x \<in> set (show_cidr c) \<Longrightarrow> is_digit x \<or> x = CHR ''.'' \<or> x = CHR ''/''"
  by (auto simp: show_cidr_def dest: show_nat_chars show_ipv4_chars)

lemma show_cidr_no_eol: "LF \<notin> set (show_cidr c)" "CR \<notin> set (show_cidr c)"
  by (auto dest!: show_cidr_chars simp: is_digit_def chr_code_def)

lemma parse_prefix_len_show: "n \<le> 32 \<Longrightarrow> parse_prefix_len (show_nat n) = Some (word_of_nat n)"
proof -
  assume n: "n \<le> 32"
  then have "unat (word_of_nat n :: u32) = n" by (simp add: unat_of_nat_small)
  with n show ?thesis
    by (simp add: parse_prefix_len_def parse_u32_def parse_uint_show_nat word_le_nat_alt)
qed

lemma parse_cidr_show:
  assumes "snd c \<le> 32"
  shows "parse_cidr (show_cidr c)
    = Some (fst c AND prefix_mask (word_of_nat (snd c)), prefix_mask (word_of_nat (snd c)))"
  using assms
  by (simp add: parse_cidr_def show_cidr_def split_once_append parse_prefix_len_show
      parse_ipv4_show Let_def)

lemma main_parse_cidr_show:
  assumes "snd c \<le> 32"
  shows "main_parse_cidr (show_cidr c) = parse_cidr (show_cidr c)"
proof -
  have "split_once CHR ''/'' (trim (show_cidr c)) = Some (show_ipv4 (fst c), show_nat (snd c))"
    by (simp only: trim_show_cidr) (simp add: show_cidr_def split_once_append)
  with assms show ?thesis
    by (simp add: main_parse_cidr_def parse_cidr_show parse_prefix_len_show
      parse_ipv4_show Let_def)
qed

lemma parse_denylist_line_show:
  assumes "snd c \<le> 32"
  shows "parse_denylist_line (show_cidr c) = parse_cidr (show_cidr c)"
proof -
  have "hd (show_cidr c) \<noteq> CHR ''#''"
    using show_cidr_ends(2) [of c] by (auto simp: is_digit_def chr_code_def)
  then have "\<not> starts_with (show_cidr c) ''#''"
    using show_cidr_ends(1) [of c] by (cases "show_cidr c") (auto simp: starts_with_def)
  then show ?thesis
    using show_cidr_ends(1) [of c] by (simp add: parse_denylist_line_def Let_def)
qed

text \<open>Every entry the parsers produce is the base of a block, with the mask of a prefix.\<close>

lemma parse_cidr_wf:
  assumes "parse_cidr s = Some (net, m)"
  shows "\<exists>n \<le> 32. \<exists>w. m = prefix_mask n \<and> net = w AND m"
  using assms
  by (auto simp: parse_cidr_def parse_prefix_len_def Let_def
      split: option.splits prod.splits if_splits bind_splits)

section \<open>Files\<close>

definition file_of_lines :: "string list \<Rightarrow> string" where
  "file_of_lines ls = concat (map (\<lambda>l. l @ [LF]) ls)"

lemma split_char_file:
  "\<forall>l \<in> set ls. LF \<notin> set l \<Longrightarrow> split_char LF (file_of_lines ls) = ls @ [[]]"
  by (induction ls) (auto simp: file_of_lines_def split_char_append)

lemma str_lines_file:
  assumes "\<forall>l \<in> set ls. LF \<notin> set l \<and> CR \<notin> set l"
  shows "str_lines (file_of_lines ls) = ls"
proof -
  have "map strip_cr ls = ls"
    using assms by (intro map_idI) (metis last_in_set strip_cr_def)
  with assms show ?thesis by (simp add: str_lines_def split_char_file Let_def)
qed

lemma map_filter_Some_map:
  "(\<And>x. x \<in> set xs \<Longrightarrow> f (g x) = Some (h x)) \<Longrightarrow> List.map_filter f (map g xs) = map h xs"
  by (induction xs) (auto simp: List.map_filter_def)

lemma entries_of_cidr_file:
  assumes "\<forall>c \<in> set cs. snd c \<le> 32"
    and "read path = Some (file_of_lines (map show_cidr cs))"
  shows "parse_denylist_file read path
    = map (\<lambda>c. (fst c AND prefix_mask (word_of_nat (snd c)), prefix_mask (word_of_nat (snd c)))) cs"
proof -
  have "str_lines (file_of_lines (map show_cidr cs)) = map show_cidr cs"
    by (rule str_lines_file) (auto simp: show_cidr_no_eol)
  moreover have "List.map_filter parse_denylist_line (map show_cidr cs)
    = map (\<lambda>c. (fst c AND prefix_mask (word_of_nat (snd c)), prefix_mask (word_of_nat (snd c)))) cs"
    using assms(1) by (intro map_filter_Some_map) (simp add: parse_denylist_line_show parse_cidr_show)
  ultimately show ?thesis by (simp add: parse_denylist_file_def assms(2))
qed

lemma denied_entry:
  assumes "snd c \<le> 32"
  shows "(a AND prefix_mask (word_of_nat (snd c)) = fst c AND prefix_mask (word_of_nat (snd c)))
    \<longleftrightarrow> same_block (snd c) a (fst c)"
proof -
  have "unat (word_of_nat (snd c) :: u32) = snd c"
    using assms by (simp add: unat_of_nat_small)
  then show ?thesis using mask_same_block [of "word_of_nat (snd c)" a "fst c"] assms by simp
qed

section \<open>Properties\<close>

text \<open>
  Claim C20. From the text of the file to the decision: when the deny list file holds one CIDR
  per line, an IPv4 address is denied exactly if it agrees with one of the listed addresses on
  the first \<open>n\<close> bits, \<open>n\<close> the prefix length of that line.
\<close>

theorem denylist_decides_blocks:
  assumes "\<forall>c \<in> set cs. snd c \<le> 32"
    and "read path = Some (file_of_lines (map show_cidr cs))"
  shows "is_denied (from_file read path) (V4 a) \<longleftrightarrow> (\<exists>c \<in> set cs. same_block (snd c) a (fst c))"
proof -
  have "is_denied (from_file read path) (V4 a) \<longleftrightarrow>
      (\<exists>c \<in> set cs. a AND prefix_mask (word_of_nat (snd c)) = fst c AND prefix_mask (word_of_nat (snd c)))"
    by (auto simp: is_denied_def from_file_def entries_of_cidr_file [of cs read path, OF assms] list_ex_iff)
  also have "\<dots> \<longleftrightarrow> (\<exists>c \<in> set cs. same_block (snd c) a (fst c))"
    using assms(1) by (intro bex_cong refl denied_entry) simp
  finally show ?thesis .
qed

theorem denylist_decides_blocks_witness:
  "is_denied (from_file (\<lambda>_. Some (''10.0.0.0/8'' @ [LF])) ''deny'') (V4 0x0AFFFFFF)
   \<and> \<not> is_denied (from_file (\<lambda>_. Some (''10.0.0.0/8'' @ [LF])) ''deny'') (V4 0x0B000001)"
proof -
  have f: "''10.0.0.0/8'' @ [LF] = file_of_lines (map show_cidr [(0x0A000000, 8)])"
    by code_simp
  show ?thesis
    unfolding f
    using denylist_decides_blocks [of "[(0x0A000000, 8)]"
        "\<lambda>_. Some (file_of_lines (map show_cidr [(0x0A000000, 8)]))" "''deny''"]
    by (simp add: same_block_range)
qed

text \<open>
  An IPv4 client cannot evade the deny list by its IPv4-mapped IPv6 form: the decision
  on \<open>::ffff:a.b.c.d\<close> is the decision on \<open>a.b.c.d\<close>, for every list.
\<close>

theorem mapped_ipv6_same_decision:
  "is_denied dl (V6 (0xFFFF00000000 OR ucast a)) = is_denied dl (V4 a)"
  by (simp add: is_denied_def to_ipv4_mapped)

text \<open>
  A reload whose file cannot be read empties the deny list: afterwards no address at all
  is denied (the comment above \<open>reload\<close> says that the existing list is kept).
\<close>

theorem reload_error_denies_nobody:
  assumes "dl_path dl = Some path" and "read path = None"
  shows "entries (reload read dl) = [] \<and> is_enabled (reload read dl)
    \<and> \<not> is_denied (reload read dl) a"
  using assms
  by (auto simp: reload_def parse_denylist_file_def is_denied_def is_enabled_def split: option.splits)

theorem reload_error_denies_nobody_witness:
  "is_denied \<lparr>entries = [(0x0A000000, 0xFF000000)], dl_path = Some ''deny''\<rparr> (V4 0x0A000001)
   \<and> \<not> is_denied (reload (\<lambda>_. None) \<lparr>entries = [(0x0A000000, 0xFF000000)], dl_path = Some ''deny''\<rparr>)
       (V4 0x0A000001)"
  using reload_error_denies_nobody
    [of "\<lparr>entries = [(0x0A000000, 0xFF000000)], dl_path = Some ''deny''\<rparr>" "''deny''" "\<lambda>_. None" "V4 0x0A000001"]
  by (simp add: is_denied_def)

end
