(* ===== verification/Access.thy ===== *)
theory Access
  imports Denylist
begin

unbundle bit_operations_syntax

text \<open>
  Who may register what: the token check (\<open>AuthPolicy\<close>), the subdomain rules
  (\<open>validate_subdomain\<close>, \<open>ReservedSubdomains\<close>, \<open>SubdomainPrefix\<close>, \<open>SubdomainBlocklist\<close>) of
  \<open>tunnel.rs\<close>, the Bearer check of the admin API (\<open>check_admin_auth\<close> of \<open>admin.rs\<close>) and the
  SIGHUP reload of \<open>main.rs\<close>.

  A \<open>HashSet\<close> of strings is a list in the order of its iteration. The constant-time comparison
  of the \<open>subtle\<close> crate is the parameter \<open>ct_eq\<close>; what the crate documents of it is
  \<open>ct_eq_law\<close>. A file read is the parameter \<open>read_to_string\<close>, as in the deny list.
\<close>

section \<open>Line-based files\<close>

text \<open>The lines that count: trimmed, neither empty nor a comment.\<close>

definition payload_lines :: "string \<Rightarrow> string list" where
  "payload_lines text =
     filter (\<lambda>l. l \<noteq> [] \<and> \<not> starts_with l ''#'') (map trim (str_lines text))"

section \<open>AuthPolicy\<close>

datatype AuthError = Required | Invalid

datatype LoadError = ReadFailed string | NoTokens string | OpenPolicy

record AuthPolicy =
  allowed :: "string list option"

definition AuthPolicy_open :: AuthPolicy where
  "AuthPolicy_open = \<lparr>allowed = None\<rparr>"

definition load_token_set ::
  "(string \<Rightarrow> string option) \<Rightarrow> string \<Rightarrow> LoadError + string list" where
  "load_token_set read_to_string path =
     (case read_to_string path of
        None \<Rightarrow> Inl (ReadFailed path)
      | Some text \<Rightarrow>
          let toks = remdups (payload_lines text)
          in if toks = [] then Inl (NoTokens path) else Inr toks)"

definition AuthPolicy_from_file ::
  "(string \<Rightarrow> string option) \<Rightarrow> string \<Rightarrow> LoadError + AuthPolicy" where
  "AuthPolicy_from_file read_to_string path =
     (case load_token_set read_to_string path of
        Inl e \<Rightarrow> Inl e
      | Inr toks \<Rightarrow> Inr \<lparr>allowed = Some toks\<rparr>)"

definition reload_from_file ::
  "(string \<Rightarrow> string option) \<Rightarrow> string \<Rightarrow> AuthPolicy \<Rightarrow> (LoadError + unit) \<times> AuthPolicy" where
  "reload_from_file read_to_string path pol =
     (case allowed pol of
        None \<Rightarrow> (Inl OpenPolicy, pol)
      | Some _ \<Rightarrow>
          (case load_token_set read_to_string path of
             Inl e \<Rightarrow> (Inl e, pol)
           | Inr new_set \<Rightarrow> (Inr (), pol\<lparr>allowed := Some new_set\<rparr>)))"

text \<open>One round of the loop: compare the common prefix, mask by the equality of the lengths.\<close>

definition token_round :: "(string \<Rightarrow> string \<Rightarrow> u8) \<Rightarrow> string \<Rightarrow> string \<Rightarrow> u8 \<Rightarrow> u8" where
  "token_round ct_eq t candidate hit =
     (let tlen = length t;
          len_match = (if length candidate = tlen then 1 else 0 :: u8);
          cmp_len = min (length candidate) tlen;
          eq = ct_eq (take cmp_len candidate) (take cmp_len t)
      in hit OR (eq AND len_match))"

definition AuthPolicy_check ::
  "(string \<Rightarrow> string \<Rightarrow> u8) \<Rightarrow> AuthPolicy \<Rightarrow> string option \<Rightarrow> AuthError + unit" where
  "AuthPolicy_check ct_eq pol token =
     (case allowed pol of
        None \<Rightarrow> Inr ()
      | Some toks \<Rightarrow>
          (case token of
             None \<Rightarrow> Inl Required
           | Some t \<Rightarrow>
               (let hit = fold (token_round ct_eq t) toks 0
                in if hit = 1 then Inr () else Inl Invalid)))"

definition ct_eq_law :: "(string \<Rightarrow> string \<Rightarrow> u8) \<Rightarrow> bool" where
  "ct_eq_law ct_eq \<longleftrightarrow> (\<forall>a b. ct_eq a b = (if a = b then 1 else 0))"

section \<open>Subdomain rules\<close>

definition validate_subdomain :: "string \<Rightarrow> string + unit" where
  "validate_subdomain s =
     (if s = [] \<or> length s > 63
      then Inl (''subdomain must be 1'' @ [CHR 0xE2, CHR 0x80, CHR 0x93] @ ''63 characters'')
      else if \<not> list_all (\<lambda>c. is_ascii_alphanumeric c \<or> c = CHR ''-'') s
      then Inl ''subdomain may only contain [a-z0-9-]''
      else if starts_with s ''-'' \<or> ends_with s ''-''
      then Inl (''subdomain must not start or end with '' @ [CHR 0x27, CHR ''-'', CHR 0x27])
      else Inr ())"

record SubdomainPrefix =
  prefix :: "string option"

definition SubdomainPrefix_check :: "SubdomainPrefix \<Rightarrow> string \<Rightarrow> string + unit" where
  "SubdomainPrefix_check sp sub =
     (case prefix sp of
        None \<Rightarrow> Inr ()
      | Some p \<Rightarrow>
          if \<not> starts_with (to_lowercase sub) p
          then Inl (''subdomain must start with '' @ [CHR 0x27] @ p @ [CHR 0x27]
                    @ '' (prefix enforced by this relay)'')
          else Inr ())"

record ReservedSubdomains =
  names :: "string list"

definition ReservedSubdomains_new :: "string list \<Rightarrow> ReservedSubdomains" where
  "ReservedSubdomains_new l = \<lparr>names = remdups l\<rparr>"

definition is_reserved :: "ReservedSubdomains \<Rightarrow> string \<Rightarrow> bool" where
  "is_reserved r sub \<longleftrightarrow> to_lowercase sub \<in> set (names r)"

section \<open>SubdomainBlocklist\<close>

record SubdomainBlocklist =
  bl_entries :: "string list"
  bl_path :: "string option"

definition blocklist_disabled :: SubdomainBlocklist where
  "blocklist_disabled = \<lparr>bl_entries = [], bl_path = None\<rparr>"

text \<open>The loop that both loaders share: every line is trimmed and lower-cased, then filtered.\<close>

definition blocklist_lines :: "string \<Rightarrow> string list" where
  "blocklist_lines text =
     remdups (filter (\<lambda>l. l \<noteq> [] \<and> \<not> starts_with l ''#'')
       (map (to_lowercase \<circ> trim) (str_lines text)))"

definition blocklist_from_file ::
  "(string \<Rightarrow> string option) \<Rightarrow> string \<Rightarrow> SubdomainBlocklist" where
  "blocklist_from_file read_to_string path =
     \<lparr>bl_entries = (case read_to_string path of
                      Some text \<Rightarrow> blocklist_lines text
                    | None \<Rightarrow> []),
      bl_path = Some path\<rparr>"

definition blocklist_reload ::
  "(string \<Rightarrow> string option) \<Rightarrow> SubdomainBlocklist \<Rightarrow> SubdomainBlocklist" where
  "blocklist_reload read_to_string bl =
     (case bl_path bl of
        None \<Rightarrow> bl
      | Some path \<Rightarrow>
          (case read_to_string path of
             Some text \<Rightarrow> bl\<lparr>bl_entries := blocklist_lines text\<rparr>
           | None \<Rightarrow> bl))"

definition is_blocked :: "SubdomainBlocklist \<Rightarrow> string \<Rightarrow> bool" where
  "is_blocked bl sub \<longleftrightarrow> to_lowercase sub \<in> set (bl_entries bl)"

definition blocklist_is_enabled :: "SubdomainBlocklist \<Rightarrow> bool" where
  "blocklist_is_enabled bl \<longleftrightarrow> bl_path bl \<noteq> None"

section \<open>Random subdomains\<close>

definition CHARS :: string where
  "CHARS = ''abcdefghijklmnopqrstuvwxyz0123456789''"

text \<open>
  The \<open>k\<close>-th draw of \<open>rng.gen_range(0..CHARS.len())\<close> is \<open>gen k\<close>; the crate documents that a
  draw is below the bound (\<open>gen_range_law\<close>).
\<close>

definition random_subdomain_with_length :: "(nat \<Rightarrow> nat) \<Rightarrow> nat \<Rightarrow> string" where
  "random_subdomain_with_length gen len = map (\<lambda>k. CHARS ! gen k) [0..<len]"

definition gen_range_law :: "(nat \<Rightarrow> nat) \<Rightarrow> bool" where
  "gen_range_law gen \<longleftrightarrow> (\<forall>k. gen k < length CHARS)"

section \<open>The Bearer check of the admin API\<close>

datatype AdminReply = Unauthorized string string

text \<open>\<open>HeaderValue::to_str\<close>: only visible ASCII, SPACE and TAB.\<close>

definition printable :: "string \<Rightarrow> bool" where
  "printable v \<longleftrightarrow> list_all (\<lambda>c. (32 \<le> chr_code c \<and> chr_code c < 127) \<or> chr_code c = 9) v"

definition header_to_str :: "string \<Rightarrow> string option" where
  "header_to_str v = (if printable v then Some v else None)"

definition check_admin_auth ::
  "(string \<Rightarrow> string \<Rightarrow> u8) \<Rightarrow> (string \<times> string) list \<Rightarrow> string option \<Rightarrow> AdminReply option" where
  "check_admin_auth ct_eq headers expected =
     (case expected of
        None \<Rightarrow> None
      | Some tok \<Rightarrow>
          let provided = Option.bind (Option.bind (map_of headers ''authorization'') header_to_str)
                (\<lambda>v. strip_prefix v ''Bearer '');
              ok = (case provided of
                      Some t \<Rightarrow> ct_eq t tok = 1
                    | None \<Rightarrow> False)
          in if ok then None
             else Some (Unauthorized ''invalid or missing admin token''
                          ''Authorization: Bearer <token>''))"

section \<open>The SIGHUP handler of main.rs\<close>

record Reloadables =
  r_auth :: AuthPolicy
  r_blocklist :: SubdomainBlocklist
  r_denylist :: IpDenyList

definition sighup ::
  "(string \<Rightarrow> string option) \<Rightarrow> string option \<Rightarrow> Reloadables \<Rightarrow> Reloadables" where
  "sighup read_to_string auth_file st =
     (let auth' = (case auth_file of
                     Some path \<Rightarrow> snd (reload_from_file read_to_string path (r_auth st))
                   | None \<Rightarrow> r_auth st);
          bl' = (if blocklist_is_enabled (r_blocklist st)
                 then blocklist_reload read_to_string (r_blocklist st) else r_blocklist st);
          dl' = (if is_enabled (r_denylist st)
                 then reload read_to_string (r_denylist st) else r_denylist st)
      in st\<lparr>r_auth := auth', r_blocklist := bl', r_denylist := dl'\<rparr>)"

section \<open>Token checks decide membership\<close>

lemma token_round_law:
  "ct_eq_law ct_eq \<Longrightarrow> token_round ct_eq t c hit = hit OR (if c = t then 1 else 0)"
  by (auto simp: token_round_def ct_eq_law_def Let_def)

lemma token_fold_law:
  assumes "ct_eq_law ct_eq" and "hit = 0 \<or> hit = 1"
  shows "fold (token_round ct_eq t) cs hit = (if hit = 1 \<or> t \<in> set cs then 1 else 0)"
  using assms(2)
  by (induction cs arbitrary: hit) (auto simp: token_round_law [OF assms(1)])

text \<open>
  Claim C39. The constant-time token check accepts exactly the tokens of the policy: an open policy
  accepts everybody, a closed one answers \<open>Required\<close> without a token, \<open>Invalid\<close> to a token that
  is not in the set (a prefix or an extension of a stored token included), and accepts a token
  of the set, whatever the order of the iteration.
\<close>

theorem auth_check_membership:
  assumes "ct_eq_law ct_eq"
  shows "AuthPolicy_check ct_eq pol token =
    (case (allowed pol, token) of
       (None, _) \<Rightarrow> Inr ()
     | (Some _, None) \<Rightarrow> Inl Required
     | (Some cs, Some t) \<Rightarrow> if t \<in> set cs then Inr () else Inl Invalid)"
  by (auto simp: AuthPolicy_check_def token_fold_law [OF assms] split: option.splits)

theorem auth_check_membership_witness:
  "AuthPolicy_check (\<lambda>a b. if a = b then 1 else 0) \<lparr>allowed = Some [''tok'', ''secret'']\<rparr>
     (Some ''secret'') = Inr ()
   \<and> AuthPolicy_check (\<lambda>a b. if a = b then 1 else 0) \<lparr>allowed = Some [''tok'', ''secret'']\<rparr>
     (Some ''secre'') = Inl Invalid"
  using auth_check_membership [of "\<lambda>a b. if a = b then 1 else 0" "\<lparr>allowed = Some [''tok'', ''secret'']\<rparr>"]
  by (auto simp: ct_eq_law_def)

lemma admin_auth_iff:
  assumes "ct_eq_law ct_eq"
  shows "check_admin_auth ct_eq headers expected = None \<longleftrightarrow>
    (\<forall>tok. expected = Some tok \<longrightarrow>
       map_of headers ''authorization'' = Some (''Bearer '' @ tok) \<and> printable (''Bearer '' @ tok))"
proof (cases expected)
  case None
  then show ?thesis by (simp add: check_admin_auth_def)
next
  case (Some tok)
  have "check_admin_auth ct_eq headers expected = None \<longleftrightarrow>
      Option.bind (Option.bind (map_of headers ''authorization'') header_to_str)
        (\<lambda>v. strip_prefix v ''Bearer '') = Some tok"
    using assms Some
    by (auto simp: check_admin_auth_def ct_eq_law_def Let_def split: option.splits)
  also have "\<dots> \<longleftrightarrow> (\<exists>v. map_of headers ''authorization'' = Some v \<and> printable v \<and> v = ''Bearer '' @ tok)"
    by (auto simp only: bind_eq_Some_conv strip_prefix_Some header_to_str_def option.inject option.distinct
        split: if_split_asm if_split)
  finally show ?thesis using Some by simp
qed

text \<open>
  A request passes the admin token check exactly when no token is configured, or its
  \<open>Authorization\<close> header is printable and is the word \<open>Bearer\<close>, one space and the configured
  token.
\<close>

theorem admin_auth_decides:
  assumes "ct_eq_law ct_eq"
  shows "check_admin_auth ct_eq headers expected = None \<longleftrightarrow>
    (\<forall>tok. expected = Some tok \<longrightarrow>
       map_of headers ''authorization'' = Some (''Bearer '' @ tok) \<and> printable (''Bearer '' @ tok))"
  using assms by (rule admin_auth_iff)

theorem admin_auth_decides_witness:
  "check_admin_auth (\<lambda>a b. if a = b then 1 else 0) [(''authorization'', ''Bearer t0p'')] (Some ''t0p'')
     = None"
  by (subst admin_auth_decides) (auto simp: ct_eq_law_def printable_def chr_code_def)

section \<open>Subdomain labels\<close>

text \<open>The label rule of RFC 1035 for names, upper case allowed.\<close>

definition label_ok :: "string \<Rightarrow> bool" where
  "label_ok s \<longleftrightarrow> 1 \<le> length s \<and> length s \<le> 63
     \<and> (\<forall>c \<in> set s. is_ascii_alphanumeric c \<or> c = CHR ''-'')
     \<and> is_ascii_alphanumeric (hd s) \<and> is_ascii_alphanumeric (last s)"

lemma dash_not_alnum [simp]: "\<not> is_ascii_alphanumeric (CHR ''-'')"
  by (simp add: is_ascii_alphanumeric_def is_digit_def is_ascii_upper_def is_ascii_lower_def
      chr_code_def)

lemma starts_with_char: "s \<noteq> [] \<Longrightarrow> starts_with s [c] \<longleftrightarrow> hd s = c"
  by (cases s) (auto simp: starts_with_def)

lemma ends_with_char: "s \<noteq> [] \<Longrightarrow> ends_with s [c] \<longleftrightarrow> last s = c"
  by (cases s rule: rev_cases) (auto simp: ends_with_def)

lemma validate_iff_label: "validate_subdomain s = Inr () \<longleftrightarrow> label_ok s"
proof (cases "s = []")
  case True
  then show ?thesis by (simp add: validate_subdomain_def label_ok_def)
next
  case False
  then have "hd s \<in> set s" "last s \<in> set s" by auto
  with False show ?thesis
    by (auto simp: validate_subdomain_def label_ok_def list_all_iff starts_with_char ends_with_char
        Suc_le_eq split: if_splits)
qed

text \<open>
  \<open>validate_subdomain\<close> accepts exactly the DNS labels: 1 to 63 bytes, each an ASCII
  letter, a digit or a hyphen, the first and the last not a hyphen.
\<close>

theorem validate_subdomain_iff: "validate_subdomain s = Inr () \<longleftrightarrow> label_ok s"
  by (rule validate_iff_label)

lemma length_CHARS: "length CHARS = 36"
  by (simp add: CHARS_def)

lemma CHARS_alnum: "c \<in> set CHARS \<Longrightarrow> is_ascii_alphanumeric c"
  by (auto simp: CHARS_def is_ascii_alphanumeric_def is_digit_def is_ascii_lower_def chr_code_def)

text \<open>
  A generated subdomain has the configured length and only letters and digits; it is a
  valid label, so the relay would accept it as a request, exactly when that length is 1 to 63.
\<close>

theorem random_subdomain_valid:
  assumes "gen_range_law gen"
  shows "length (random_subdomain_with_length gen len) = len
    \<and> (validate_subdomain (random_subdomain_with_length gen len) = Inr () \<longleftrightarrow> 1 \<le> len \<and> len \<le> 63)"
proof -
  let ?s = "random_subdomain_with_length gen len"
  have len: "length ?s = len" by (simp add: random_subdomain_with_length_def)
  have "is_ascii_alphanumeric c" if "c \<in> set ?s" for c
    using that assms
    by (auto simp: random_subdomain_with_length_def gen_range_law_def intro!: CHARS_alnum)
  with len have "label_ok ?s \<longleftrightarrow> 1 \<le> len \<and> len \<le> 63"
    by (cases "?s = []") (auto simp: label_ok_def)
  with len show ?thesis by (simp add: validate_iff_label)
qed

theorem random_subdomain_valid_witness:
  "length (random_subdomain_with_length (\<lambda>k. k mod 36) 8) = 8
   \<and> validate_subdomain (random_subdomain_with_length (\<lambda>k. k mod 36) 8) = Inr ()"
  using random_subdomain_valid [of "\<lambda>k. k mod 36" 8] by (simp add: gen_range_law_def length_CHARS)

section \<open>Reloading\<close>

text \<open>
  What a hot reload promises: a successful read replaces the content by what the file says, a
  failed one leaves the running relay as it was.
\<close>

definition last_some :: "'c \<Rightarrow> 'c option list \<Rightarrow> 'c" where
  "last_some c os = (let good = filter (\<lambda>o'. o' \<noteq> None) os in if good = [] then c else the (last good))"

locale reloadable =
  fixes content :: "'s \<Rightarrow> 'c" and update :: "(string \<Rightarrow> string option) \<Rightarrow> 's \<Rightarrow> 's"
    and src_file :: "'s \<Rightarrow> string option" and parse :: "string \<Rightarrow> 'c option"
  assumes no_file: "src_file s = None \<Longrightarrow> update rd s = s"
    and good: "src_file s = Some p \<Longrightarrow> Option.bind (rd p) parse = Some c \<Longrightarrow> content (update rd s) = c"
    and bad: "src_file s = Some p \<Longrightarrow> Option.bind (rd p) parse = None \<Longrightarrow> update rd s = s"
    and file_kept: "src_file (update rd s) = src_file s"
begin

definition source where
  "source rd s = Option.bind (src_file s) (\<lambda>p. Option.bind (rd p) parse)"

lemma content_update:
  "content (update rd s) = (case source rd s of None \<Rightarrow> content s | Some c \<Rightarrow> c)"
proof (cases "src_file s")
  case None
  then show ?thesis by (simp add: source_def no_file)
next
  case (Some p)
  then show ?thesis by (cases "Option.bind (rd p) parse") (auto simp: source_def good bad)
qed

text \<open>After any number of reloads the content is that of the last readable version of the file.\<close>

lemma content_updates:
  "content (fold update rds s) = last_some (content s) (map (\<lambda>rd. source rd s) rds)"
proof (induction rds arbitrary: s)
  case Nil
  then show ?case by (simp add: last_some_def Let_def)
next
  case (Cons rd rds)
  have "source r (update rd s) = source r s" for r by (simp add: source_def file_kept)
  with Cons [of "update rd s"] show ?case
    by (cases "source rd s") (auto simp: content_update last_some_def Let_def)
qed

end

definition blocklist_file :: "string \<Rightarrow> string list option" where
  "blocklist_file text = Some (blocklist_lines text)"

interpretation bl: reloadable bl_entries blocklist_reload bl_path blocklist_file
  by unfold_locales (auto simp: blocklist_reload_def blocklist_file_def split: option.splits bind_splits)

text \<open>The token part of the handler, and what a token file says.\<close>

definition sighup_auth ::
  "string option \<Rightarrow> (string \<Rightarrow> string option) \<Rightarrow> AuthPolicy \<Rightarrow> AuthPolicy" where
  "sighup_auth auth_file read_to_string pol =
     (case auth_file of
        Some path \<Rightarrow> snd (reload_from_file read_to_string path pol)
      | None \<Rightarrow> pol)"

definition token_file :: "string \<Rightarrow> string list option option" where
  "token_file text = (let toks = remdups (payload_lines text) in if toks = [] then None else Some (Some toks))"

definition auth_source :: "string option \<Rightarrow> AuthPolicy \<Rightarrow> string option" where
  "auth_source auth_file pol = (if allowed pol = None then None else auth_file)"

interpretation au: reloadable allowed "sighup_auth auth_file" "auth_source auth_file" token_file
  for auth_file
  by unfold_locales
     (auto simp: sighup_auth_def auth_source_def token_file_def reload_from_file_def
        load_token_set_def Let_def split: option.splits bind_splits if_splits)

lemma sighup_parts:
  "r_auth (sighup rd af st) = sighup_auth af rd (r_auth st)"
  "r_blocklist (sighup rd af st) = blocklist_reload rd (r_blocklist st)"
  by (auto simp: sighup_def Let_def sighup_auth_def blocklist_is_enabled_def blocklist_reload_def)

lemma sighups_parts:
  "r_auth (fold (\<lambda>rd. sighup rd af) rds st) = fold (sighup_auth af) rds (r_auth st)"
  "r_blocklist (fold (\<lambda>rd. sighup rd af) rds st) = fold blocklist_reload rds (r_blocklist st)"
  by (induction rds arbitrary: st) (auto simp: sighup_parts)

text \<open>
  After any sequence of SIGHUPs, each seeing its own state of the disk, the block list
  holds the entries of the last version of its file that could be read, and a token policy
  loaded from a file the tokens of the last version that could be read and had one: a missing,
  unreadable or empty file never changes them, so it never opens the relay.
\<close>

theorem sighup_keeps_last_good:
  assumes "allowed (r_auth st) = Some toks" and "bl_path (r_blocklist st) = Some bp"
  shows "r_auth (fold (\<lambda>rd. sighup rd (Some ap)) rds st) =
      \<lparr>allowed = last_some (Some toks) (map (\<lambda>rd. Option.bind (rd ap) token_file) rds)\<rparr>
    \<and> bl_entries (r_blocklist (fold (\<lambda>rd. sighup rd (Some ap)) rds st)) =
      last_some (bl_entries (r_blocklist st)) (map (\<lambda>rd. map_option blocklist_lines (rd bp)) rds)"
proof -
  have a: "au.source (Some ap) rd (r_auth st) = Option.bind (rd ap) token_file" for rd
    using assms(1) by (simp add: au.source_def auth_source_def)
  have b: "bl.source rd (r_blocklist st) = map_option blocklist_lines (rd bp)" for rd
    using assms(2) by (cases "rd bp") (simp_all add: bl.source_def blocklist_file_def)
  show ?thesis
    using au.content_updates [of "Some ap" rds "r_auth st"] bl.content_updates [of rds "r_blocklist st"] assms
    by (simp add: sighups_parts a b)
qed

theorem sighup_keeps_last_good_witness:
  "allowed (r_auth (fold (\<lambda>rd. sighup rd (Some ''auth''))
     [\<lambda>p. if p = ''auth'' then Some ''tok2'' else Some ''Phish'', \<lambda>p. None]
     \<lparr>r_auth = \<lparr>allowed = Some [''tok1'']\<rparr>,
      r_blocklist = \<lparr>bl_entries = [], bl_path = Some ''block''\<rparr>,
      r_denylist = disabled\<rparr>)) = Some [''tok2'']"
  by (subst sighup_keeps_last_good [THEN conjunct1, of _ "[''tok1'']" "''block''"])
     (simp_all add: last_some_def Let_def token_file_def payload_lines_def str_lines_def trim_def trim_start_def
       trim_end_def is_whitespace_def chr_code_def starts_with_def)

end
