(* ===== verification/Json.thy ===== *)
theory Json
  imports Rust_Std
begin

text \<open>
  JSON values, as \<open>serde_json::Value\<close> has them (a number is an integer: the sources build no other
  number that a guard reads). An object is a list of fields with distinct keys; \<open>json_insert\<close> is
  \<open>Map::insert\<close>. Rendering to text is code of the crate and a parameter where it matters.
\<close>

datatype json = JNull | JBool bool | JInt int | JStr string | JArr "json list"
  | JObj "(string \<times> json) list"

definition json_insert :: "string \<Rightarrow> json \<Rightarrow> (string \<times> json) list \<Rightarrow> (string \<times> json) list" where
  "json_insert k v m = AList.update k v m"

fun json_get :: "json \<Rightarrow> string \<Rightarrow> json option" where
  "json_get (JObj m) k = map_of m k"
| "json_get _ k = None"

fun as_i64 :: "json \<Rightarrow> int option" where
  "as_i64 (JInt n) = (if - (2 ^ 63) \<le> n \<and> n < 2 ^ 63 then Some n else None)"
| "as_i64 _ = None"

lemma json_get_insert_same [simp]: "json_get (JObj (json_insert k v m)) k = Some v"
  by (simp add: json_insert_def)

lemma json_get_insert_other [simp]: "k \<noteq> k' \<Longrightarrow> json_get (JObj (json_insert k v m)) k' = json_get (JObj m) k'"
  by (simp add: json_insert_def)

end
