(* ===== verification/Calendar.thy ===== *)
theory Calendar
  imports Prelude
begin

text \<open>
  The two calendar routines of the relay: \<open>epoch_to_ymd\<close> of \<open>audit.rs\<close> (seconds to a civil date,
  used for the rotation of the audit log) and \<open>days_since_epoch\<close> of \<open>acme.rs\<close> (a civil date to
  days, used for the expiry of certificates). They were written from different formulas; the
  main result is that one inverts the other.

  An \<open>i64\<close> is an \<open>int\<close> (no intermediate value leaves the range of the type for the inputs the
  program has), and Rust's division of an \<open>i64\<close>, which truncates, is \<open>i64_div\<close>. The casts to
  \<open>i32\<close> and \<open>u32\<close> wrap.
\<close>

section \<open>The routines\<close>

definition i64_div :: "int \<Rightarrow> int \<Rightarrow> int" where
  "i64_div a b = sgn a * sgn b * (\<bar>a\<bar> div \<bar>b\<bar>)"

definition as_i32 :: "int \<Rightarrow> int" where
  "as_i32 x = (x + 2 ^ 31) mod 2 ^ 32 - 2 ^ 31"

definition as_u32 :: "int \<Rightarrow> int" where
  "as_u32 x = x mod 2 ^ 32"

definition epoch_to_ymd :: "nat \<Rightarrow> int \<times> int \<times> int" where
  "epoch_to_ymd secs =
     (let days = int (secs div 86400);
          z = days + 719468;
          era = i64_div (if z \<ge> 0 then z else z - 146096) 146097;
          doe = z - era * 146097;
          yoe = i64_div (doe - i64_div doe 1460 + i64_div doe 36524 - i64_div doe 146096) 365;
          y = yoe + era * 400;
          doy = doe - (365 * yoe + i64_div yoe 4 - i64_div yoe 100);
          mp = i64_div (5 * doy + 2) 153;
          d = doy - i64_div (153 * mp + 2) 5 + 1;
          m = (if mp < 10 then mp + 3 else mp - 9);
          y' = (if m \<le> 2 then y + 1 else y)
      in (as_i32 y', as_u32 m, as_u32 d))"

definition days_since_epoch :: "int \<Rightarrow> int \<Rightarrow> int \<Rightarrow> int option" where
  "days_since_epoch year month day =
     (let a = i64_div (14 - month) 12;
          y = year + 4800 - a;
          m = month + 12 * a - 3;
          jdn = day + i64_div (153 * m + 2) 5 + 365 * y + i64_div y 4 - i64_div y 100 + i64_div y 400 - 32045
      in Some (jdn - 2440588))"

section \<open>The year of an era\<close>

lemma i64_div_nonneg [simp]: "0 \<le> a \<Longrightarrow> 0 < b \<Longrightarrow> i64_div a b = a div b"
  by (cases "a = 0") (auto simp: i64_div_def)

text \<open>The first day of year \<open>y\<close> of an era of 400 years, counted from March.\<close>

definition year_start :: "int \<Rightarrow> int" where
  "year_start y = 365 * y + y div 4 - y div 100 + y div 400"

definition yoe_of :: "int \<Rightarrow> int" where
  "yoe_of doe = (doe - doe div 1460 + doe div 36524 - doe div 146096) div 365"

lemma div_succ_le: "0 < b \<Longrightarrow> (x + 1) div b \<le> x div b + (1::int)"
  using zdiv_mono1 [of "x + 1" "x + b" b] div_add_self2 [of b x] by simp

lemma sum_step:
  "(q' :: int) \<le> q + 1 \<Longrightarrow> r \<le> r' \<Longrightarrow> s = 0 \<Longrightarrow> s' = 0 \<Longrightarrow> x - q + r - s \<le> x + 1 - q' + r' - s'"
  by simp

lemma yoe_step: "0 \<le> x \<Longrightarrow> x < 146096 \<Longrightarrow> yoe_of x \<le> yoe_of (x + 1)"
proof -
  assume a: "0 \<le> x" "x < 146096"
  have "(x + 1) div 1460 \<le> x div 1460 + 1" by (rule div_succ_le) simp
  moreover have "x div 36524 \<le> (x + 1) div 36524" by (simp add: zdiv_mono1)
  moreover have "x div 146096 = 0" using a by simp
  moreover have "(x + 1) div 146096 = 0 \<or> x + 1 = 146096" using a by auto
  ultimately show ?thesis
  proof (cases "x + 1 = 146096")
    case True
    then have "x = 146095" by simp
    then show ?thesis by (simp add: yoe_of_def)
  next
    case False
    with a have "(x + 1) div 146096 = 0" by simp
    with \<open>(x + 1) div 1460 \<le> x div 1460 + 1\<close> \<open>x div 36524 \<le> (x + 1) div 36524\<close> \<open>x div 146096 = 0\<close>
    show ?thesis unfolding yoe_of_def by (intro zdiv_mono1 sum_step) (assumption | simp)+
  qed
qed

lemma yoe_mono:
  assumes "0 \<le> x" and "x \<le> y" and "y \<le> 146096"
  shows "yoe_of x \<le> yoe_of y"
  using assms(2,3)
proof (induction y rule: int_ge_induct)
  case base
  then show ?case by simp
next
  case (step i)
  have "yoe_of i \<le> yoe_of (i + 1)" using step assms(1) by (intro yoe_step) auto
  with step show ?case by simp
qed

text \<open>At both ends of each of the 400 years the formula gives that year.\<close>

lemma yoe_ends: "\<forall>k \<in> set [0..399]. yoe_of (year_start k) = k \<and> yoe_of (year_start (k + 1) - 1) = k"
  by code_simp

lemma year_length: "\<forall>k \<in> set [0..399]. year_start (k + 1) \<le> year_start k + 366 \<and> year_start (k + 1) \<le> 146097"
  by code_simp

lemma yoe_between:
  assumes "0 \<le> k" and "k < 400" and "year_start k \<le> x" and "x < year_start (k + 1)"
  shows "yoe_of x = k"
proof -
  have k: "yoe_of (year_start k) = k" "yoe_of (year_start (k + 1) - 1) = k"
    using yoe_ends assms(1,2) by auto
  have b: "0 \<le> year_start k" using assms(1) by (simp add: year_start_def)
  have "year_start (k + 1) \<le> 146097" using year_length assms(1,2) by auto
  then show ?thesis
    using yoe_mono [of "year_start k" x] yoe_mono [of x "year_start (k + 1) - 1"] b k assms by auto
qed

lemma year_exists:
  assumes "0 \<le> x" and "0 \<le> n" and "x < year_start n"
  shows "\<exists>k. 0 \<le> k \<and> k < n \<and> year_start k \<le> x \<and> x < year_start (k + 1)"
  using assms(2,3)
proof (induction n rule: int_ge_induct)
  case base
  then show ?case using assms(1) by (simp add: year_start_def)
next
  case (step i)
  then show ?case by (cases "x < year_start i") auto
qed

lemma doe_year:
  assumes "0 \<le> doe" and "doe < 146097"
  shows "0 \<le> yoe_of doe" and "yoe_of doe < 400"
    and "0 \<le> doe - year_start (yoe_of doe)" and "doe - year_start (yoe_of doe) \<le> 365"
proof -
  have "doe < year_start 400" using assms(2) by (simp add: year_start_def)
  then obtain k where k: "0 \<le> k" "k < 400" "year_start k \<le> doe" "doe < year_start (k + 1)"
    using year_exists [OF assms(1), of 400] by auto
  have y: "yoe_of doe = k" using yoe_between k by blast
  show "0 \<le> yoe_of doe" "yoe_of doe < 400" "0 \<le> doe - year_start (yoe_of doe)" using k y by auto
  have "year_start (k + 1) \<le> year_start k + 366" using year_length k by auto
  then show "doe - year_start (yoe_of doe) \<le> 365" using k y by simp
qed

section \<open>The round trip\<close>

definition month_index :: "int \<Rightarrow> int" where
  "month_index doy = (5 * doy + 2) div 153"

lemma month_day_all:
  "\<forall>doy \<in> set [0..365]. 0 \<le> month_index doy \<and> month_index doy \<le> 11
     \<and> 1 \<le> doy - (153 * month_index doy + 2) div 5 + 1 \<and> doy - (153 * month_index doy + 2) div 5 + 1 \<le> 31"
  by code_simp

lemma month_day:
  assumes "0 \<le> doy" and "doy \<le> 365"
  shows "0 \<le> month_index doy" "month_index doy \<le> 11" "1 \<le> doy - (153 * month_index doy + 2) div 5 + 1"
    "doy - (153 * month_index doy + 2) div 5 + 1 \<le> 31"
  using month_day_all assms by auto

text \<open>The civil date of a day number, without the casts.\<close>

definition civil :: "int \<Rightarrow> int \<times> int \<times> int" where
  "civil z =
     (let era = z div 146097;
          doe = z - era * 146097;
          yoe = yoe_of doe;
          doy = doe - year_start yoe;
          mp = month_index doy;
          m = (if mp < 10 then mp + 3 else mp - 9)
      in (yoe + era * 400 + (if m \<le> 2 then 1 else 0), m, doy - (153 * mp + 2) div 5 + 1))"

lemma doe_range: "0 \<le> (z::int) - z div 146097 * 146097 \<and> z - z div 146097 * 146097 < 146097"
proof -
  have "z - z div 146097 * 146097 = z mod 146097" by (simp add: minus_div_mult_eq_mod)
  then show ?thesis by simp
qed

lemma epoch_to_ymd_civil:
  "epoch_to_ymd secs =
     (case civil (int (secs div 86400) + 719468) of (y, m, d) \<Rightarrow> (as_i32 y, as_u32 m, as_u32 d))"
proof -
  define z where "z = int (secs div 86400) + 719468"
  define era where "era = z div 146097"
  define doe where "doe = z - era * 146097"
  define yoe where "yoe = yoe_of doe"
  define doy where "doy = doe - year_start yoe"
  define mp where "mp = month_index doy"
  have z: "0 \<le> z" by (simp add: z_def)
  have doe: "0 \<le> doe" "doe < 146097" using doe_range [of z] by (simp_all add: doe_def era_def)
  note y = doe_year [OF doe, folded yoe_def, folded doy_def]
  note md = month_day [OF y(3,4), folded mp_def]
  have "doe div 1460 \<le> doe" using doe(1) div_le_dividend [of "nat doe" 1460] by (simp add: nat_div_distrib le_nat_iff zdiv_int)
  moreover have "doe div 146096 \<le> doe div 36524" using doe by (simp add: zdiv_mono2)
  ultimately have g: "0 \<le> doe - doe div 1460 + doe div 36524 - doe div 146096" by linarith
  have q: "yoe div 400 = 0" using y(1,2) by simp
  have e1: "i64_div (if 0 \<le> z then z else z - 146096) 146097 = era" using z by (simp add: era_def)
  have e2: "i64_div (doe - i64_div doe 1460 + i64_div doe 36524 - i64_div doe 146096) 365 = yoe"
    using g doe(1) by (simp add: yoe_def yoe_of_def)
  have e3: "doe - (365 * yoe + i64_div yoe 4 - i64_div yoe 100) = doy"
    using y(1) q by (simp add: doy_def year_start_def)
  have e4: "i64_div (5 * doy + 2) 153 = mp" using y(3) by (simp add: mp_def month_index_def)
  have e5: "i64_div (153 * mp + 2) 5 = (153 * mp + 2) div 5" using md(1) by simp
  show ?thesis
    unfolding epoch_to_ymd_def Let_def z_def [symmetric] e1 doe_def [symmetric] e2 e3 e4 e5
    unfolding civil_def Let_def era_def [symmetric] doe_def [symmetric] yoe_def [symmetric] doy_def [symmetric]
      mp_def [symmetric]
    by simp
qed

lemma days_since_civil:
  assumes "civil z = (y, m, d)" and "0 \<le> z"
  shows "days_since_epoch y m d = Some (z - 719468) \<and> 1 \<le> m \<and> m \<le> 12 \<and> 1 \<le> d \<and> d \<le> 31
    \<and> 0 \<le> y \<and> y \<le> z div 146097 * 400 + 400"
proof -
  define era where "era = z div 146097"
  define doe where "doe = z - era * 146097"
  define yoe where "yoe = yoe_of doe"
  define doy where "doy = doe - year_start yoe"
  define mp where "mp = month_index doy"
  have era: "0 \<le> era" using assms(2) by (simp add: era_def)
  have doe: "0 \<le> doe" "doe < 146097" using doe_range [of z] by (simp_all add: doe_def era_def)
  note y = doe_year [OF doe, folded yoe_def, folded doy_def]
  note md = month_day [OF y(3,4), folded mp_def]
  have m: "m = (if mp < 10 then mp + 3 else mp - 9)" and yy: "y = yoe + era * 400 + (if m \<le> 2 then 1 else 0)"
    and d: "d = doy - (153 * mp + 2) div 5 + 1"
    using assms(1) unfolding civil_def Let_def era_def [symmetric] doe_def [symmetric] yoe_def [symmetric]
      doy_def [symmetric] mp_def [symmetric] by auto
  define Y where "Y = yoe + era * 400 + 4800"
  have a: "i64_div (14 - m) 12 = (if m \<le> 2 then 1 else 0)" using md(1,2) m by auto
  have ym: "y + 4800 - i64_div (14 - m) 12 = Y" "m + 12 * i64_div (14 - m) 12 - 3 = mp"
    unfolding a using yy m md(1,2) by (auto simp: Y_def)
  have Y: "0 \<le> Y" using y(1) era by (simp add: Y_def)
  have "Y div 4 = yoe div 4 + era * 100 + 1200" "Y div 100 = yoe div 100 + era * 4 + 48"
    "Y div 400 = yoe div 400 + era + 12" by (simp_all add: Y_def)
  then have j: "365 * Y + Y div 4 - Y div 100 + Y div 400 = year_start yoe + era * 146097 + 1753164"
    by (simp add: Y_def year_start_def)
  have "days_since_epoch y m d = Some (d + (153 * mp + 2) div 5 + (365 * Y + Y div 4 - Y div 100 + Y div 400)
      - 32045 - 2440588)"
    unfolding days_since_epoch_def Let_def ym using Y md(1) by simp
  also have "\<dots> = Some (z - 719468)"
    unfolding j by (simp add: d doy_def doe_def)
  finally have "days_since_epoch y m d = Some (z - 719468)" .
  moreover have "1 \<le> m \<and> m \<le> 12" using m md(1,2) by auto
  moreover have "1 \<le> d \<and> d \<le> 31" using d md(3,4) by simp
  moreover have "0 \<le> y \<and> y \<le> era * 400 + 400" using yy y(1,2) era by auto
  ultimately show ?thesis by (simp add: era_def)
qed

lemma as_i32_id: "0 \<le> x \<Longrightarrow> x < 2 ^ 31 \<Longrightarrow> as_i32 x = x"
  by (simp add: as_i32_def)

lemma as_u32_id: "0 \<le> x \<Longrightarrow> x < 2 ^ 32 \<Longrightarrow> as_u32 x = x"
  by (simp add: as_u32_def)

lemma ymd_round_trip:
  assumes "secs < 2 ^ 55"
  shows "case epoch_to_ymd secs of (y, m, d) \<Rightarrow>
    days_since_epoch y m d = Some (int (secs div 86400)) \<and> 1 \<le> m \<and> m \<le> 12 \<and> 1 \<le> d \<and> d \<le> 31
    \<and> 0 \<le> y \<and> y < 2 ^ 31"
proof -
  define z where "z = int (secs div 86400) + 719468"
  obtain y m d where c: "civil z = (y, m, d)" by (cases "civil z")
  have "0 \<le> z" by (simp add: z_def)
  note p = days_since_civil [OF c this]
  have "secs div 86400 \<le> 2 ^ 55 div 86400" using assms by (intro div_le_mono) simp
  then have "z \<le> 417000719468" by (simp add: z_def)
  then have "z div 146097 \<le> 417000719468 div 146097" by (intro zdiv_mono1) auto
  then have "y < 2 ^ 31" using p by simp
  with p have "epoch_to_ymd secs = (y, m, d)"
    by (simp add: epoch_to_ymd_civil z_def [symmetric] c as_i32_id as_u32_id)
  with p \<open>y < 2 ^ 31\<close> show ?thesis by (simp add: z_def)
qed

text \<open>
  Claim C32. The two calendar routines agree: the date \<open>epoch_to_ymd\<close> computes for a time (up to
  \<open>2 ^ 55\<close> seconds, where the year still fits its \<open>i32\<close>) has a month from 1 to 12 and a day from
  1 to 31, and \<open>days_since_epoch\<close> maps it back to the number of whole days since the epoch;
  so two times get the same date exactly when they lie in the same UTC day.
\<close>

theorem calendar_round_trip:
  assumes "s < 2 ^ 55" and "t < 2 ^ 55"
  shows "(case epoch_to_ymd s of (y, m, d) \<Rightarrow>
      days_since_epoch y m d = Some (int (s div 86400)) \<and> 1 \<le> m \<and> m \<le> 12 \<and> 1 \<le> d \<and> d \<le> 31)
    \<and> (epoch_to_ymd s = epoch_to_ymd t \<longleftrightarrow> s div 86400 = t div 86400)"
proof
  show "case epoch_to_ymd s of (y, m, d) \<Rightarrow>
      days_since_epoch y m d = Some (int (s div 86400)) \<and> 1 \<le> m \<and> m \<le> 12 \<and> 1 \<le> d \<and> d \<le> 31"
    using ymd_round_trip [OF assms(1)] by auto
  show "epoch_to_ymd s = epoch_to_ymd t \<longleftrightarrow> s div 86400 = t div 86400"
    using ymd_round_trip [OF assms(1)] ymd_round_trip [OF assms(2)]
    by (auto simp: epoch_to_ymd_civil split: prod.splits)
qed

theorem calendar_round_trip_witness:
  "epoch_to_ymd 1709164800 = (2024, 2, 29) \<and> epoch_to_ymd 1709251199 = epoch_to_ymd 1709164800
   \<and> epoch_to_ymd 1709251200 \<noteq> epoch_to_ymd 1709164800"
proof -
  have "epoch_to_ymd 1709164800 = (2024, 2, 29)"
  proof -
    have "civil 739250 = (2024, 2, 29)" by code_simp
    then show ?thesis by (simp add: epoch_to_ymd_civil as_i32_def as_u32_def)
  qed
  then show ?thesis
    using calendar_round_trip [of 1709251199 1709164800] calendar_round_trip [of 1709251200 1709164800] by simp
qed

end
