(* ===== verification/Ring_Buffers.thy ===== *)
theory Ring_Buffers
  imports Prelude
begin

text \<open>
  The bounded in-memory histories of the relay: the access log (\<open>logs.rs\<close>), the statistics
  history (\<open>StatsHistory\<close> of \<open>main.rs\<close>) and the request log of one tunnel (the ring in
  \<open>route_http\<close> of \<open>ingress.rs\<close>). All are a \<open>VecDeque\<close> that drops its oldest element when
  full. The contract they share is the locale \<open>ring_buffer\<close>; the audit ring of \<open>audit.rs\<close>
  interprets it too, in its own theory.
\<close>

section \<open>The contract\<close>

locale ring_buffer =
  fixes items :: "'q \<Rightarrow> 'a list" and push :: "'a \<Rightarrow> 'q \<Rightarrow> 'q" and empty :: 'q and cap :: nat
  assumes cap_pos: "0 < cap"
    and items_empty: "items empty = []"
    and items_push: "items (push x q) =
      (if cap \<le> length (items q) then tl (items q) else items q) @ [x]"
begin

lemma push_bounded: "length (items q) \<le> cap \<Longrightarrow> length (items (push x q)) \<le> cap"
  using cap_pos by (auto simp: items_push)

lemma push_window:
  assumes "length (items q) \<le> cap"
  shows "items (push x q) = drop (Suc (length (items q)) - cap) (items q @ [x])"
proof (cases "length (items q) = cap")
  case True
  then show ?thesis using cap_pos by (simp add: items_push drop_Suc)
next
  case False
  with assms show ?thesis by (simp add: items_push)
qed

lemma push_all_window:
  assumes "length (items q) \<le> cap"
  shows "items (fold push xs q) = drop (length (items q) + length xs - cap) (items q @ xs)"
  using assms
proof (induction xs arbitrary: q)
  case Nil
  then show ?case by simp
next
  case (Cons x xs)
  let ?l = "length (items q)"
  have w: "items (push x q) = drop (Suc ?l - cap) (items q @ [x])"
    by (rule push_window [OF Cons.prems])
  have "items (fold push (x # xs) q)
      = drop (length (items (push x q)) + length xs - cap) (items (push x q) @ xs)"
    using Cons.IH [OF push_bounded [OF Cons.prems]] by simp
  also have "items (push x q) @ xs = drop (Suc ?l - cap) (items q @ x # xs)"
    using cap_pos by (simp add: w)
  also have "length (items (push x q)) = Suc ?l - (Suc ?l - cap)"
    by (simp add: w)
  finally show ?case
    using Cons.prems cap_pos by (cases "?l < cap") (simp_all add: Suc_diff_le)
qed

lemma push_all_empty: "items (fold push xs empty) = drop (length xs - cap) xs"
  using push_all_window [of empty xs] by (simp add: items_empty)

lemma push_all_bounded:
  "length (items q) \<le> cap \<Longrightarrow> length (items (fold push xs q)) \<le> cap"
  by (induction xs arbitrary: q) (auto intro: push_bounded)

lemma push_last: "last (items (push x q)) = x"
  by (simp add: items_push)

end

section \<open>Access log (logs.rs)\<close>

record LogEntry =
  ts :: int
  log_method :: string
  log_path :: string
  log_host :: string
  routed_to :: string
  log_status :: u16

definition MAX_LOGS :: nat where
  "MAX_LOGS = 500"

type_synonym LogBuffer = "LogEntry list"

definition new_buffer :: LogBuffer where
  "new_buffer = []"

definition logs_push :: "LogEntry \<Rightarrow> LogBuffer \<Rightarrow> LogBuffer" where
  "logs_push entry q =
     (let q = (if length q \<ge> MAX_LOGS then tl q else q) in q @ [entry])"

interpretation logs: ring_buffer "\<lambda>q. q" logs_push new_buffer MAX_LOGS
  by unfold_locales (auto simp: MAX_LOGS_def new_buffer_def logs_push_def Let_def)

section \<open>Statistics history (main.rs)\<close>

record StatsSnapshot =
  snap_ts :: int
  active_tunnels :: u64
  total_connections :: u64

record StatsHistory =
  hist_inner :: "StatsSnapshot list"

definition StatsHistory_new :: StatsHistory where
  "StatsHistory_new = \<lparr>hist_inner = []\<rparr>"

definition StatsHistory_push :: "StatsSnapshot \<Rightarrow> StatsHistory \<Rightarrow> StatsHistory" where
  "StatsHistory_push snap h =
     (let buf = (if length (hist_inner h) \<ge> 60 then tl (hist_inner h) else hist_inner h)
      in h\<lparr>hist_inner := buf @ [snap]\<rparr>)"

definition StatsHistory_snapshot :: "StatsHistory \<Rightarrow> StatsSnapshot list" where
  "StatsHistory_snapshot h = hist_inner h"

interpretation stats: ring_buffer hist_inner StatsHistory_push StatsHistory_new 60
  by unfold_locales (auto simp: StatsHistory_new_def StatsHistory_push_def Let_def)

section \<open>Request log of a tunnel (tunnel.rs, ingress.rs)\<close>

record RequestLog =
  rq_timestamp :: u64
  rq_method :: string
  rq_path :: string
  status_code :: u16
  duration_ms :: u64
  rq_client_ip :: string
  rq_bytes :: u64

definition push_request :: "RequestLog \<Rightarrow> RequestLog list \<Rightarrow> RequestLog list" where
  "push_request log ring =
     (let ring = (if length ring \<ge> 100 then tl ring else ring) in ring @ [log])"

interpretation requests: ring_buffer "\<lambda>q. q" push_request "[]" 100
  by unfold_locales (auto simp: push_request_def Let_def)

section \<open>Properties\<close>

text \<open>
  The access log is the window of the last 500 entries: after any sequence of pushes
  onto a fresh buffer it holds the most recent \<open>MAX_LOGS\<close> entries, in order, and nothing else.
\<close>

theorem access_log_window: "fold logs_push es new_buffer = drop (length es - 500) es"
  using logs.push_all_empty [of es] by (simp add: MAX_LOGS_def)

text \<open>
  The statistics history is the window of the last 60 snapshots, oldest first: what
  \<open>snapshot\<close> returns after any sequence of pushes on a new history.
\<close>

theorem stats_history_window:
  "StatsHistory_snapshot (fold StatsHistory_push ss StatsHistory_new) = drop (length ss - 60) ss"
  using stats.push_all_empty [of ss] by (simp add: StatsHistory_snapshot_def)

end
