(* ===== verification/Audit_Log.thy ===== *)
theory Audit_Log
  imports Json Calendar Ring_Buffers
begin

text \<open>
  The audit log, \<open>audit.rs\<close>: the in-memory ring, the handle that emits events, the channel to the
  writer task and the writer with its rotation at midnight UTC.

  The ring's mutex may be held when an event is emitted; the event is then pushed later by a
  task of its own, which is the list \<open>ring_pending\<close>. The file system is a map from paths to
  contents; the outcome of each I/O call of one \<open>write_event\<close> is an argument.
\<close>

section \<open>Ring and handle\<close>

definition RING_CAPACITY :: nat where
  "RING_CAPACITY = 1024"

record AuditRing =
  ring_inner :: "json list"

definition AuditRing_new :: AuditRing where
  "AuditRing_new = \<lparr>ring_inner = []\<rparr>"

definition AuditRing_push :: "json \<Rightarrow> AuditRing \<Rightarrow> AuditRing" where
  "AuditRing_push event r =
     (let buf = (if length (ring_inner r) \<ge> RING_CAPACITY then tl (ring_inner r) else ring_inner r)
      in r\<lparr>ring_inner := buf @ [event]\<rparr>)"

definition event_ts :: "json \<Rightarrow> int" where
  "event_ts ev = (case Option.bind (json_get ev ''ts'') as_i64 of Some t \<Rightarrow> t | None \<Rightarrow> 0)"

definition AuditRing_query :: "int option \<Rightarrow> nat \<Rightarrow> AuditRing \<Rightarrow> json list" where
  "AuditRing_query since_ts limit r =
     take limit (filter (\<lambda>ev. case since_ts of Some since \<Rightarrow> event_ts ev \<ge> since | None \<Rightarrow> True)
       (ring_inner r))"

record AuditLog =
  tx :: "json list option"
  ring :: AuditRing
  ring_pending :: "json list"

definition CHANNEL_CAPACITY :: nat where
  "CHANNEL_CAPACITY = 8192"

definition AuditLog_disabled :: AuditLog where
  "AuditLog_disabled = \<lparr>tx = None, ring = AuditRing_new, ring_pending = []\<rparr>"

definition AuditLog_start :: AuditLog where
  "AuditLog_start = \<lparr>tx = Some [], ring = AuditRing_new, ring_pending = []\<rparr>"

text \<open>\<open>lock_free\<close> says whether \<open>try_lock\<close> got the mutex. A full channel drops the event.\<close>

definition emit :: "bool \<Rightarrow> json \<Rightarrow> AuditLog \<Rightarrow> AuditLog" where
  "emit lock_free event log =
     (let log1 = (if lock_free then log\<lparr>ring := AuditRing_push event (ring log)\<rparr>
                  else log\<lparr>ring_pending := ring_pending log @ [event]\<rparr>)
      in (case tx log1 of
            None \<Rightarrow> log1
          | Some q \<Rightarrow> if length q < CHANNEL_CAPACITY then log1\<lparr>tx := Some (q @ [event])\<rparr> else log1))"

definition AuditLog_is_enabled :: "AuditLog \<Rightarrow> bool" where
  "AuditLog_is_enabled log \<longleftrightarrow> tx log \<noteq> None"

text \<open>The macro \<open>audit_event!\<close>: the fields \<open>ts\<close> and \<open>event\<close>, then those of the caller.\<close>

definition audit_event :: "bool \<Rightarrow> int \<Rightarrow> string \<Rightarrow> (string \<times> json) list \<Rightarrow> AuditLog \<Rightarrow> AuditLog" where
  "audit_event lock_free now name kvs log =
     emit lock_free
       (JObj (fold (\<lambda>(k, v). json_insert k v) kvs
          (json_insert ''event'' (JStr name) (json_insert ''ts'' (JInt now) [])))) log"

section \<open>Writer\<close>

type_synonym date = "int \<times> int \<times> int"
type_synonym files = "string \<rightharpoonup> string"

record WriterState =
  base_path :: string
  file_open :: bool
  open_date :: "date option"

definition WriterState_new :: "string \<Rightarrow> WriterState" where
  "WriterState_new path = \<lparr>base_path = path, file_open = False, open_date = None\<rparr>"

text \<open>
  The outcomes of the I/O calls of one \<open>write_event\<close>: opening, renaming, the bytes of the line
  that were written when its write fails (\<open>None\<close>: it succeeds), and the write of the newline.
\<close>

record io_outcome =
  io_open :: bool
  io_rename :: bool
  io_line :: "nat option"
  io_newline :: bool

definition show_year :: "int \<Rightarrow> string" where
  "show_year y = (if y < 0 then CHR ''-'' # pad_left 3 CHR ''0'' (show_nat (nat (- y)))
                  else pad_left 4 CHR ''0'' (show_nat (nat y)))"

definition rotated_path :: "string \<Rightarrow> date \<Rightarrow> string" where
  "rotated_path base date =
     (case date of (y, m, d) \<Rightarrow>
        base @ ''.'' @ show_year y @ ''-'' @ pad_left 2 CHR ''0'' (show_nat (nat m))
        @ ''-'' @ pad_left 2 CHR ''0'' (show_nat (nat d)))"

definition fs_rename :: "string \<Rightarrow> string \<Rightarrow> files \<Rightarrow> files" where
  "fs_rename src dst fs = (case fs src of None \<Rightarrow> fs | Some c \<Rightarrow> (fs(src := None))(dst \<mapsto> c))"

definition rotate_log :: "io_outcome \<Rightarrow> date \<Rightarrow> WriterState \<times> files \<Rightarrow> WriterState \<times> files" where
  "rotate_log io old_date sf =
     (let (st, fs) = sf;
          st1 = st\<lparr>file_open := False, open_date := None\<rparr>;
          rotated = rotated_path (base_path st) old_date
      in (st1, if io_rename io then fs_rename (base_path st) rotated fs else fs))"

definition fs_append :: "string \<Rightarrow> string \<Rightarrow> files \<Rightarrow> files" where
  "fs_append p s fs = fs(p \<mapsto> (case fs p of Some c \<Rightarrow> c | None \<Rightarrow> []) @ s)"

definition write_event ::
  "(json \<Rightarrow> string option) \<Rightarrow> io_outcome \<Rightarrow> date \<Rightarrow> json \<Rightarrow> WriterState \<times> files \<Rightarrow>
   (string + unit) \<times> WriterState \<times> files" where
  "write_event to_string io today event sf =
     (let sf1 = (case open_date (fst sf) of
                   Some d \<Rightarrow> if d \<noteq> today then rotate_log io d sf else sf
                 | None \<Rightarrow> sf);
          (st, fs) = sf1;
          base = base_path st
      in if \<not> file_open st \<and> \<not> io_open io then (Inl ''open'', st, fs)
         else let (st2, fs2) = (if file_open st then (st, fs)
                    else (st\<lparr>file_open := True, open_date := Some today\<rparr>, fs_append base [] fs));
                  line = (case to_string event of Some s \<Rightarrow> s | None \<Rightarrow> ''{}'')
              in (case io_line io of
                    Some n \<Rightarrow> (Inl ''write'', st2, fs_append base (take n line) fs2)
                  | None \<Rightarrow>
                      let fs3 = fs_append base line fs2
                      in if io_newline io then (Inr (), st2, fs_append base [LF] fs3)
                         else (Inl ''write'', st2, fs3)))"

text \<open>The task: it takes the events off the channel in order; an error is logged and skipped.\<close>

fun writer_task ::
  "(json \<Rightarrow> string option) \<Rightarrow> (io_outcome \<times> nat \<times> json) list \<Rightarrow> WriterState \<times> files \<Rightarrow> WriterState \<times> files" where
  "writer_task to_string [] sf = sf"
| "writer_task to_string ((io, now, ev) # es) sf =
     writer_task to_string es (snd (write_event to_string io (epoch_to_ymd now) ev sf))"

section \<open>The ring\<close>

interpretation audit: ring_buffer ring_inner AuditRing_push AuditRing_new RING_CAPACITY
  by unfold_locales (auto simp: RING_CAPACITY_def AuditRing_new_def AuditRing_push_def Let_def)

lemma emits_ring:
  "ring (fold (\<lambda>e. emit True e) es log) = fold AuditRing_push es (ring log)"
proof (induction es arbitrary: log)
  case Nil
  then show ?case by simp
next
  case (Cons e es)
  have "ring (emit True e log) = AuditRing_push e (ring log)"
    by (auto simp: emit_def Let_def split: option.splits)
  with Cons show ?case by simp
qed

text \<open>
  The audit endpoint answers from the last 1024 events: after any sequence of events emitted
  while nobody holds the lock, a query returns the first \<open>limit\<close> of those among the last 1024
  whose time stamp is not before \<open>since\<close>, oldest first, whether a file is configured or not.
\<close>

theorem audit_query_window:
  "ring log = AuditRing_new \<Longrightarrow>
   AuditRing_query since limit (ring (fold (emit True) es log)) =
     take limit (filter (\<lambda>ev. case since of Some t \<Rightarrow> t \<le> event_ts ev | None \<Rightarrow> True)
       (drop (length es - 1024) es))"
  using audit.push_all_empty [of es] emits_ring [of es log]
  by (simp add: AuditRing_query_def RING_CAPACITY_def)

theorem audit_query_window_witness:
  "AuditRing_query (Some 5) 1 (ring (fold (emit True) [JObj [(''ts'', JInt 3)], JObj [(''ts'', JInt 7)]] AuditLog_disabled))
     = [JObj [(''ts'', JInt 7)]]"
  by (subst audit_query_window) (simp_all add: AuditLog_disabled_def event_ts_def)

section \<open>Rotation loses nothing\<close>

abbreviation io_ok :: io_outcome where
  "io_ok \<equiv> \<lparr>io_open = True, io_rename = True, io_line = None, io_newline = True\<rparr>"

definition event_line :: "(json \<Rightarrow> string option) \<Rightarrow> json \<Rightarrow> string" where
  "event_line to_string ev = (case to_string ev of Some s \<Rightarrow> s | None \<Rightarrow> ''{}'') @ [LF]"

text \<open>The lines of the events of one date, and what a file of that date holds.\<close>

definition lines_on :: "(json \<Rightarrow> string option) \<Rightarrow> date \<Rightarrow> (nat \<times> json) list \<Rightarrow> string" where
  "lines_on to_string d es =
     concat (map (\<lambda>(t, ev). event_line to_string ev) (filter (\<lambda>(t, ev). epoch_to_ymd t = d) es))"

definition dates_of :: "(nat \<times> json) list \<Rightarrow> date set" where
  "dates_of es = (\<lambda>(t, ev). epoch_to_ymd t) ` set es"

lemma digits_val_zeros: "digits_val (replicate n CHR ''0'' @ s) = digits_val s"
proof -
  have "foldl (\<lambda>n c. 10 * n + digit_val c) 0 (replicate n CHR ''0'') = 0"
    by (induction n) (auto simp: digit_val_def chr_code_def)
  then show ?thesis by (simp add: digits_val_def)
qed

lemma pad_show_inj: "pad_left w CHR ''0'' (show_nat a) = pad_left v CHR ''0'' (show_nat b) \<Longrightarrow> a = b"
  by (metis digits_val_show_nat digits_val_zeros pad_left_def)

lemma pad_show_no_dash: "CHR ''-'' \<notin> set (pad_left w CHR ''0'' (show_nat a))"
  using show_nat_digits [of a] by (auto simp: pad_left_def list_all_iff is_digit_def chr_code_def)

lemma append_sep_eq: "a @ (c :: char) # x = b @ c # y \<Longrightarrow> c \<notin> set a \<Longrightarrow> c \<notin> set b \<Longrightarrow> a = b \<and> x = y"
  by (metis option.inject prod.inject split_once_append)

definition date_ok :: "date \<Rightarrow> bool" where
  "date_ok date = (case date of (y, m, d) \<Rightarrow> 0 \<le> y \<and> 0 \<le> m \<and> 0 \<le> d)"

lemma rotated_path_inj:
  assumes "rotated_path base a = rotated_path base b" and "date_ok a" and "date_ok b"
  shows "a = b"
proof -
  obtain y m d y' m' d' where ab: "a = (y, m, d)" "b = (y', m', d')" by (cases a, cases b) auto
  let ?p = "\<lambda>w n. pad_left w CHR ''0'' (show_nat (nat n))"
  have "?p 4 y @ CHR ''-'' # (?p 2 m @ CHR ''-'' # ?p 2 d) = ?p 4 y' @ CHR ''-'' # (?p 2 m' @ CHR ''-'' # ?p 2 d')"
    using assms by (simp add: rotated_path_def ab show_year_def date_ok_def)
  from append_sep_eq [OF this pad_show_no_dash pad_show_no_dash]
  have "?p 4 y = ?p 4 y'" and r: "?p 2 m @ CHR ''-'' # ?p 2 d = ?p 2 m' @ CHR ''-'' # ?p 2 d'" by simp_all
  moreover from append_sep_eq [OF r pad_show_no_dash pad_show_no_dash]
  have "?p 2 m = ?p 2 m'" "?p 2 d = ?p 2 d'" by simp_all
  ultimately have "nat y = nat y' \<and> nat m = nat m' \<and> nat d = nat d'" using pad_show_inj by blast
  then show ?thesis using assms(2,3) by (simp add: ab date_ok_def eq_nat_nat_iff)
qed

lemma rotated_path_neq_base [simp]: "rotated_path base d \<noteq> base" "base \<noteq> rotated_path base d"
  by (cases d, simp add: rotated_path_def)+

lemma epoch_date_ok: "t < 2 ^ 55 \<Longrightarrow> date_ok (epoch_to_ymd t)"
  using ymd_round_trip [of t] by (auto simp: date_ok_def)

lemma same_date_iff:
  "s < 2 ^ 55 \<Longrightarrow> t < 2 ^ 55 \<Longrightarrow> epoch_to_ymd s = epoch_to_ymd t \<longleftrightarrow> s div 86400 = t div 86400"
  using ymd_round_trip [of s] ymd_round_trip [of t] by (auto simp: epoch_to_ymd_civil split: prod.splits)

text \<open>One write without I/O errors.\<close>

lemma write_event_ok:
  "snd (write_event to_string io_ok today ev (st, fs)) =
     (let (st1, fs1) = (case open_date st of
              Some d \<Rightarrow> if d \<noteq> today then (st\<lparr>file_open := False, open_date := None\<rparr>,
                          fs_rename (base_path st) (rotated_path (base_path st) d) fs) else (st, fs)
            | None \<Rightarrow> (st, fs))
      in (if file_open st1 then st1 else st1\<lparr>file_open := True, open_date := Some today\<rparr>,
          fs_append (base_path st) (event_line to_string ev) fs1))"
  by (auto simp: write_event_def rotate_log_def Let_def fs_append_def event_line_def split: option.splits)

text \<open>
  The invariant after the events \<open>es\<close>: the base file holds the lines of the last date, and each
  earlier date has its own file with its lines; the first date's file starts with what the
  base file held before.
\<close>

definition date_content ::
  "(json \<Rightarrow> string option) \<Rightarrow> string option \<Rightarrow> (nat \<times> json) list \<Rightarrow> date \<Rightarrow> string" where
  "date_content to_string old es d =
     (if d = epoch_to_ymd (fst (hd es)) then (case old of Some c \<Rightarrow> c | None \<Rightarrow> []) else [])
     @ lines_on to_string d es"

definition log_inv ::
  "(json \<Rightarrow> string option) \<Rightarrow> string \<Rightarrow> files \<Rightarrow> (nat \<times> json) list \<Rightarrow> WriterState \<times> files \<Rightarrow> bool" where
  "log_inv to_string base fs0 es sf \<longleftrightarrow>
     (let current = epoch_to_ymd (fst (last es)); (st, fs) = sf
      in base_path st = base \<and> file_open st \<and> open_date st = Some current
         \<and> fs base = Some (date_content to_string (fs0 base) es current)
         \<and> (\<forall>d \<in> dates_of es. d \<noteq> current \<longrightarrow>
               fs (rotated_path base d) = Some (date_content to_string (fs0 base) es d))
         \<and> (\<forall>p. p \<noteq> base \<longrightarrow> (\<forall>d \<in> dates_of es. d \<noteq> current \<longrightarrow> p \<noteq> rotated_path base d) \<longrightarrow> fs p = fs0 p))"

lemma lines_on_snoc:
  "lines_on enc d (es @ [(t, ev)]) = lines_on enc d es @ (if epoch_to_ymd t = d then event_line enc ev else [])"
  by (simp add: lines_on_def)

lemma lines_on_absent: "d \<notin> dates_of es \<Longrightarrow> lines_on enc d es = []"
  by (auto simp: lines_on_def dates_of_def image_iff filter_empty_conv)

lemma date_content_snoc:
  "es \<noteq> [] \<Longrightarrow> date_content enc old (es @ [(t, ev)]) d =
     date_content enc old es d @ (if epoch_to_ymd t = d then event_line enc ev else [])"
  by (simp add: date_content_def lines_on_snoc)

lemma date_content_new:
  "es \<noteq> [] \<Longrightarrow> d \<notin> dates_of es \<Longrightarrow> date_content enc old es d = []"
  by (cases es) (auto simp: date_content_def lines_on_absent dates_of_def)

lemma dates_of_snoc: "dates_of (es @ [(t, ev)]) = insert (epoch_to_ymd t) (dates_of es)"
  by (auto simp: dates_of_def)

lemma last_date_in: "es \<noteq> [] \<Longrightarrow> epoch_to_ymd (fst (last es)) \<in> dates_of es"
  by (auto simp: dates_of_def intro!: image_eqI [of _ _ "last es"] split: prod.splits)

lemma log_inv_first:
  "open_date st = None \<Longrightarrow> \<not> file_open st \<Longrightarrow>
   log_inv enc (base_path st) fs [(t, ev)] (snd (write_event enc io_ok (epoch_to_ymd t) ev (st, fs)))"
  by (auto simp: log_inv_def write_event_ok fs_append_def date_content_def lines_on_def dates_of_def Let_def)

lemma log_inv_same_day:
  assumes "log_inv enc base fs0 es (st, fs)" and "es \<noteq> []" and "epoch_to_ymd t = epoch_to_ymd (fst (last es))"
  shows "log_inv enc base fs0 (es @ [(t, ev)]) (snd (write_event enc io_ok (epoch_to_ymd t) ev (st, fs)))"
  using assms last_date_in [OF assms(2)]
  by (auto simp: log_inv_def write_event_ok fs_append_def date_content_snoc dates_of_snoc Let_def insert_absorb)

lemma log_inv_new_day:
  assumes inv: "log_inv enc base fs0 es (st, fs)" and ne: "es \<noteq> []" and new: "epoch_to_ymd t \<notin> dates_of es"
    and ok: "\<forall>d \<in> dates_of es. date_ok d"
  shows "log_inv enc base fs0 (es @ [(t, ev)]) (snd (write_event enc io_ok (epoch_to_ymd t) ev (st, fs)))"
proof -
  let ?c = "epoch_to_ymd (fst (last es))" and ?D = "epoch_to_ymd t"
  have c: "?c \<in> dates_of es" by (rule last_date_in [OF ne])
  then have neq: "?D \<noteq> ?c" using new by auto
  have st: "base_path st = base" "open_date st = Some ?c" "fs base = Some (date_content enc (fs0 base) es ?c)"
    using inv by (auto simp: log_inv_def Let_def)
  have inj: "rotated_path base d = rotated_path base ?c \<longleftrightarrow> d = ?c" if "d \<in> dates_of es" for d
    using rotated_path_inj ok that c by blast
  have w: "snd (write_event enc io_ok ?D ev (st, fs)) =
      (st\<lparr>file_open := True, open_date := Some ?D\<rparr>,
       (fs(base \<mapsto> event_line enc ev))(rotated_path base ?c \<mapsto> date_content enc (fs0 base) es ?c))"
    using st neq by (auto simp: write_event_ok fs_rename_def fs_append_def Let_def fun_eq_iff)
  have old: "fs (rotated_path base d) = Some (date_content enc (fs0 base) es d)"
    if "d \<in> dates_of es" "d \<noteq> ?c" for d
    using inv that by (auto simp: log_inv_def Let_def)
  have rest: "fs p = fs0 p" if "p \<noteq> base" "\<forall>d \<in> dates_of es. p \<noteq> rotated_path base d" for p
    using inv that by (auto simp: log_inv_def Let_def)
  have content: "date_content enc (fs0 base) (es @ [(t, ev)]) d =
      (if d = ?D then event_line enc ev else date_content enc (fs0 base) es d)" for d
    using date_content_snoc [OF ne] date_content_new [OF ne new] by auto
  show ?thesis
    unfolding w log_inv_def Let_def
    using st(1) neq inj old new c
    by (auto simp: content dates_of_snoc intro!: rest)
qed

lemma writer_task_snoc:
  "writer_task enc (xs @ [(io, n, v)]) sf = snd (write_event enc io (epoch_to_ymd n) v (writer_task enc xs sf))"
proof (induction xs arbitrary: sf)
  case Nil
  then show ?case by simp
next
  case (Cons x xs)
  then show ?case by (cases x) simp
qed

lemma new_day_new_date:
  assumes "sorted (map fst (es @ [(t, ev)]))" and "\<forall>x \<in> set (es @ [(t, ev)]). fst x < 2 ^ 55" and "es \<noteq> []"
    and "epoch_to_ymd t \<noteq> epoch_to_ymd (fst (last es))"
  shows "epoch_to_ymd t \<notin> dates_of es"
proof -
  have l: "last es \<in> set es" using assms(3) by simp
  then have day: "fst (last es) div 86400 < t div 86400"
    using assms(1,2,4) same_date_iff [of t "fst (last es)"] div_le_mono [of "fst (last es)" t 86400]
    by (auto simp: sorted_append)
  have "epoch_to_ymd t \<noteq> epoch_to_ymd (fst x)" if x: "x \<in> set es" for x
  proof -
    have "fst x \<le> fst (last es)" using assms(1,3) x by (cases es rule: rev_cases) (auto simp: sorted_append)
    then have "fst x div 86400 < t div 86400" using day div_le_mono [of "fst x" "fst (last es)" 86400] by simp
    then show ?thesis using same_date_iff [of t "fst x"] assms(2) x by auto
  qed
  then show ?thesis by (fastforce simp: dates_of_def)
qed

lemma log_inv_run:
  assumes "open_date st = None" and "\<not> file_open st" and "sorted (map fst es)"
    and "\<forall>(t, ev) \<in> set es. t < 2 ^ 55" and "es \<noteq> []"
  shows "log_inv enc (base_path st) fs es (writer_task enc (map (\<lambda>(t, ev). (io_ok, t, ev)) es) (st, fs))"
  using assms(3-5)
proof (induction es rule: rev_induct)
  case Nil
  then show ?case by simp
next
  case (snoc e es)
  obtain t ev where e: "e = (t, ev)" by (cases e)
  note run = writer_task_snoc
  show ?case
  proof (cases "es = []")
    case True
    then show ?thesis using log_inv_first [OF assms(1,2)] by (simp add: e)
  next
    case False
    obtain st1 fs1 where r: "writer_task enc (map (\<lambda>(t, ev). (io_ok, t, ev)) es) (st, fs) = (st1, fs1)"
      by (cases "writer_task enc (map (\<lambda>(t, ev). (io_ok, t, ev)) es) (st, fs)")
    have inv: "log_inv enc (base_path st) fs es (st1, fs1)"
      using snoc False r by (simp add: sorted_append)
    have ok: "\<forall>d \<in> dates_of es. date_ok d" using snoc.prems(2) epoch_date_ok by (auto simp: dates_of_def)
    show ?thesis
    proof (cases "epoch_to_ymd t = epoch_to_ymd (fst (last es))")
      case True
      then show ?thesis using log_inv_same_day [OF inv False] r by (simp add: run e)
    next
      case dif: False
      have "epoch_to_ymd t \<notin> dates_of es"
        by (rule new_day_new_date [OF _ _ False dif]) (use snoc.prems e in auto)
      then show ?thesis using log_inv_new_day [OF inv False _ ok] r by (simp add: run e)
    qed
  qed
qed

text \<open>
  Claim C19. No event is lost or misfiled by the rotation: when the clock does not step back and no I/O
  call fails, a fresh writer leaves the lines of the last UTC date in the log file and those of
  each earlier date, complete and in order, in the file named after it (the first date's after
  what the log file already held), and touches no other file.
\<close>

theorem rotation_files_every_event:
  assumes "sorted (map fst es)" and "\<forall>(t, ev) \<in> set es. t < 2 ^ 55" and "es \<noteq> []"
    and "writer_task to_string (map (\<lambda>(t, ev). (io_ok, t, ev)) es) (WriterState_new base, fs) = (st', fs')"
  shows "fs' base = Some (date_content to_string (fs base) es (epoch_to_ymd (fst (last es))))
    \<and> (\<forall>(t, ev) \<in> set es. epoch_to_ymd t \<noteq> epoch_to_ymd (fst (last es)) \<longrightarrow>
          fs' (rotated_path base (epoch_to_ymd t)) = Some (date_content to_string (fs base) es (epoch_to_ymd t)))
    \<and> (\<forall>p. p \<noteq> base \<longrightarrow> (\<forall>(t, ev) \<in> set es. p \<noteq> rotated_path base (epoch_to_ymd t)) \<longrightarrow> fs' p = fs p)"
proof -
  have "log_inv to_string base fs es (st', fs')"
    using log_inv_run [of "WriterState_new base" es to_string fs] assms by (simp add: WriterState_new_def)
  then show ?thesis
    by (auto simp: log_inv_def Let_def dates_of_def)
qed

theorem rotation_files_every_event_witness:
  "\<exists>st' fs'. writer_task (\<lambda>_. Some ''e'') (map (\<lambda>(t, ev). (io_ok, t, ev)) [(86399, JNull), (86400, JNull)])
       (WriterState_new ''a'', Map.empty) = (st', fs')
     \<and> fs' ''a'' = Some (''e'' @ [LF]) \<and> fs' ''a.1970-01-01'' = Some (''e'' @ [LF])"
proof -
  let ?es = "[(86399, JNull), (86400, JNull)] :: (nat \<times> json) list"
  obtain st' fs' where r: "writer_task (\<lambda>_. Some ''e'') (map (\<lambda>(t, ev). (io_ok, t, ev)) ?es)
      (WriterState_new ''a'', Map.empty) = (st', fs')"
    by (cases "writer_task (\<lambda>_. Some ''e'') (map (\<lambda>(t, ev). (io_ok, t, ev)) ?es) (WriterState_new ''a'', Map.empty)")
  have c: "civil 719468 = (1970, 1, 1)" "civil 719469 = (1970, 1, 2)" by code_simp+
  have d: "epoch_to_ymd 86399 = (1970, 1, 1)" "epoch_to_ymd 86400 = (1970, 1, 2)"
    by (simp_all add: epoch_to_ymd_civil c as_i32_def as_u32_def)
  have n: "show_nat 1970 = ''1970''" "show_nat (Suc 0) = ''1''"
    by code_simp+
  have p: "rotated_path ''a'' (1970, 1, 1) = ''a.1970-01-01''"
    by (simp add: rotated_path_def show_year_def pad_left_def n)
  have "fs' ''a'' = Some (''e'' @ [LF]) \<and> fs' ''a.1970-01-01'' = Some (''e'' @ [LF])"
    using rotation_files_every_event [OF _ _ _ r] d p
    by (simp add: date_content_def lines_on_def event_line_def)
  then show ?thesis using r by blast
qed

end
