(* ===== verification/Backends.thy ===== *)
theory Backends
  imports Net_Addr "HOL-Library.Multiset"
begin

text \<open>
  The extra TCP backends of a tunnel: \<open>BackendEntry\<close> and \<open>TunnelEntry::select_backend\<close> of
  \<open>tunnel.rs\<close>, and the health checks and list edits of \<open>admin.rs\<close>.

  An \<open>Arc<BackendEntry>\<close> is the element of the list with its id (a fresh UUID), so storing to one
  of its atomics is an update of that element. Arithmetic is that of a release build: sums of
  \<open>u32\<close> wrap, and a remainder by zero panics.
\<close>

section \<open>State and selection\<close>

record BackendEntry =
  be_id :: string
  be_addr :: sockaddr
  be_weight :: u32
  be_healthy :: bool
  be_requests :: u64
  be_errors :: u64

definition BackendEntry_new :: "string \<Rightarrow> sockaddr \<Rightarrow> u32 \<Rightarrow> BackendEntry" where
  "BackendEntry_new uuid addr weight =
     \<lparr>be_id = uuid, be_addr = addr, be_weight = weight, be_healthy = True,
      be_requests = 0, be_errors = 0\<rparr>"

datatype panic = RemainderByZero

abbreviation eff_weight :: "BackendEntry \<Rightarrow> u32" where
  "eff_weight b \<equiv> max (be_weight b) 1"

text \<open>The loop over the healthy backends, with the fall back to the first of them.\<close>

fun pick_slot :: "u32 \<Rightarrow> BackendEntry list \<Rightarrow> BackendEntry option" where
  "pick_slot slot [] = None"
| "pick_slot slot (b # bs) =
     (let w = eff_weight b in if slot < w then Some b else pick_slot (slot - w) bs)"

definition select_backend ::
  "BackendEntry list \<Rightarrow> u64 \<Rightarrow> (panic + BackendEntry option) \<times> u64" where
  "select_backend backends rr_counter =
     (let healthy = filter be_healthy backends
      in if healthy = [] then (Inr None, rr_counter)
         else let total_weight = sum_list (map eff_weight healthy);
                  counter = rr_counter;
                  rr_counter' = rr_counter + 1
              in if total_weight = 0 then (Inl RemainderByZero, rr_counter')
                 else let slot = ucast (counter mod ucast total_weight) :: u32
                      in (case pick_slot slot healthy of
                            Some b \<Rightarrow> (Inr (Some b), rr_counter')
                          | None \<Rightarrow> (Inr (Some (hd healthy)), rr_counter')))"

section \<open>List edits and health checks (admin.rs)\<close>

definition push_backend :: "BackendEntry \<Rightarrow> BackendEntry list \<Rightarrow> BackendEntry list" where
  "push_backend b bs = bs @ [b]"

text \<open>\<open>None\<close> is the 404 of an unknown id.\<close>

definition retain_backends :: "string \<Rightarrow> BackendEntry list \<Rightarrow> BackendEntry list option" where
  "retain_backends i bs =
     (let bs' = filter (\<lambda>b. be_id b \<noteq> i) bs
      in if length bs' = length bs then None else Some bs')"

definition update_backend ::
  "string \<Rightarrow> (BackendEntry \<Rightarrow> BackendEntry) \<Rightarrow> BackendEntry list \<Rightarrow> BackendEntry list" where
  "update_backend i f bs = map (\<lambda>b. if be_id b = i then f b else b) bs"

text \<open>
  One iteration of the task's loop for one backend: \<open>ok\<close> is the outcome of the TCP connection
  attempt, \<open>fail_counts\<close> the task's own map.
\<close>

definition health_one ::
  "bool \<Rightarrow> BackendEntry \<Rightarrow> (string, u32) hashmap \<times> BackendEntry list \<Rightarrow>
   (string, u32) hashmap \<times> BackendEntry list" where
  "health_one ok b st =
     (let (fail_counts, bs) = st
      in if ok
         then (AList.delete (be_id b) fail_counts, update_backend (be_id b) (be_healthy_update (\<lambda>_. True)) bs)
         else let count = (case map_of fail_counts (be_id b) of Some c \<Rightarrow> c | None \<Rightarrow> 0) + 1;
                  fail_counts' = AList.update (be_id b) count fail_counts
              in (fail_counts',
                  if count \<ge> 3 then update_backend (be_id b) (be_healthy_update (\<lambda>_. False)) bs else bs))"

text \<open>One tick: \<open>None\<close> when the list is empty and the task ends.\<close>

definition health_round ::
  "(sockaddr \<Rightarrow> bool) \<Rightarrow> (string, u32) hashmap \<times> BackendEntry list \<Rightarrow>
   ((string, u32) hashmap \<times> BackendEntry list) option" where
  "health_round tcp_health_check st =
     (let list = snd st
      in if list = [] then None
         else Some (fold (\<lambda>b. health_one (tcp_health_check (be_addr b)) b) list st))"

fun health_rounds ::
  "(sockaddr \<Rightarrow> bool) list \<Rightarrow> (string, u32) hashmap \<times> BackendEntry list \<Rightarrow>
   (string, u32) hashmap \<times> BackendEntry list" where
  "health_rounds [] st = st"
| "health_rounds (c # cs) st =
     (case health_round c st of None \<Rightarrow> st | Some st' \<Rightarrow> health_rounds cs st')"

definition force_health_one ::
  "(sockaddr \<Rightarrow> bool) \<Rightarrow> string \<Rightarrow> BackendEntry list \<Rightarrow> (bool \<times> BackendEntry list) option" where
  "force_health_one tcp_health_check i bs =
     (case find (\<lambda>b. be_id b = i) bs of
        None \<Rightarrow> None
      | Some b \<Rightarrow> let healthy = tcp_health_check (be_addr b)
                  in Some (healthy, update_backend i (be_healthy_update (\<lambda>_. healthy)) bs))"

section \<open>Weighted round robin\<close>

definition wt :: "BackendEntry \<Rightarrow> nat" where
  "wt b = max 1 (unat (be_weight b))"

text \<open>The schedule: every healthy backend, repeated by its weight.\<close>

definition schedule :: "BackendEntry list \<Rightarrow> BackendEntry list" where
  "schedule bs = concat (map (\<lambda>b. replicate (wt b) b) (filter be_healthy bs))"

lemma unat_eff_weight: "unat (eff_weight b) = wt b"
  by (auto simp: wt_def max_def word_le_nat_alt)

lemma length_schedule: "length (schedule bs) = sum_list (map wt (filter be_healthy bs))"
  by (simp add: schedule_def length_concat comp_def)

lemma total_weight_nat:
  "sum_list (map eff_weight bs) = (word_of_nat (sum_list (map wt bs)) :: u32)"
  by (induction bs) (simp_all add: unat_eff_weight [symmetric])

lemma pick_slot_nth:
  "unat slot < sum_list (map wt bs) \<Longrightarrow>
   pick_slot slot bs = Some (concat (map (\<lambda>b. replicate (wt b) b) bs) ! unat slot)"
proof (induction bs arbitrary: slot)
  case Nil
  then show ?case by simp
next
  case (Cons b bs)
  show ?case
  proof (cases "slot < eff_weight b")
    case True
    then have "unat slot < wt b" by (simp add: word_less_nat_alt unat_eff_weight)
    with True show ?thesis by (simp add: nth_append)
  next
    case False
    then have le: "wt b \<le> unat slot" by (simp add: word_less_nat_alt unat_eff_weight)
    with False have "unat (slot - eff_weight b) = unat slot - wt b"
      by (simp add: unat_sub_if_size unat_eff_weight word_less_nat_alt not_less word_le_nat_alt)
    moreover from le Cons.prems have "unat slot - wt b < sum_list (map wt bs)" by simp
    ultimately have "pick_slot (slot - eff_weight b) bs =
        Some (concat (map (\<lambda>b. replicate (wt b) b) bs) ! (unat slot - wt b))"
      using Cons.IH [of "slot - eff_weight b"] by simp
    moreover from False have "pick_slot slot (b # bs) = pick_slot (slot - eff_weight b) bs"
      by (simp only: pick_slot.simps Let_def if_False)
    ultimately show ?thesis using le by (simp add: nth_append)
  qed
qed

lemma select_nth:
  assumes "schedule bs \<noteq> []" and "length (schedule bs) < 2 ^ 32"
  shows "select_backend bs c = (Inr (Some (schedule bs ! (unat c mod length (schedule bs)))), c + 1)"
proof -
  let ?h = "filter be_healthy bs" and ?T = "length (schedule bs)"
  have T: "0 < ?T" using assms(1) by simp
  have h: "?h \<noteq> []" using assms(1) by (metis concat.simps(1) list.map(1) schedule_def)
  have tw: "unat (sum_list (map eff_weight ?h)) = ?T"
    using assms(2) by (simp only: total_weight_nat length_schedule [symmetric]) (simp add: unat_of_nat_small)
  then have nz: "sum_list (map eff_weight ?h) \<noteq> 0" using T by auto
  have u64: "unat (ucast (sum_list (map eff_weight ?h)) :: u64) = ?T"
    using tw assms(2) by (simp only: unat_ucast_mod) (simp add: mod_less)
  let ?s = "ucast (c mod ucast (sum_list (map eff_weight ?h))) :: u32"
  have "unat (c mod ucast (sum_list (map eff_weight ?h))) = unat c mod ?T"
    by (simp only: unat_mod u64)
  moreover have "unat c mod ?T < 2 ^ 32" using T assms(2) by (meson less_trans mod_less_divisor)
  ultimately have s: "unat ?s = unat c mod ?T"
    by (simp only: unat_ucast_mod) (simp add: mod_less)
  then have "pick_slot ?s ?h = Some (schedule bs ! (unat c mod ?T))"
    using pick_slot_nth [of ?s ?h] T by (simp add: schedule_def length_schedule [symmetric])
  then show ?thesis using h nz by (simp add: select_backend_def Let_def)
qed

fun selections :: "nat \<Rightarrow> BackendEntry list \<Rightarrow> u64 \<Rightarrow> (panic + BackendEntry option) list" where
  "selections 0 bs c = []"
| "selections (Suc n) bs c = (let (r, c') = select_backend bs c in r # selections n bs c')"

lemma selections_nth:
  assumes "schedule bs \<noteq> []" and "length (schedule bs) < 2 ^ 32" and "unat c + n \<le> 2 ^ 64"
  shows "selections n bs c =
    map (\<lambda>k. Inr (Some (schedule bs ! ((unat c + k) mod length (schedule bs))))) [0..<n]"
  using assms(3)
proof (induction n arbitrary: c)
  case 0
  then show ?case by simp
next
  case (Suc n)
  show ?case
  proof (cases n)
    case 0
    then show ?thesis by (simp add: select_nth [OF assms(1,2)])
  next
    case (Suc m)
    with Suc.prems have "unat (c + 1) = unat c + 1"
      by (subst unat_add_lem [THEN iffD1]) auto
    then show ?thesis
      using Suc.IH [of "c + 1"] Suc.prems
      by (simp add: select_nth [OF assms(1,2)] upt_conv_Cons map_Suc_upt [symmetric] comp_def del: upt_Suc)
  qed
qed

lemma selections_rotate:
  assumes "schedule bs \<noteq> []" and "length (schedule bs) < 2 ^ 32"
    and "unat c + length (schedule bs) \<le> 2 ^ 64"
  shows "selections (length (schedule bs)) bs c = map (Inr \<circ> Some) (rotate (unat c) (schedule bs))"
  unfolding selections_nth [OF assms]
  by (rule nth_equalityI) (auto simp: nth_rotate)

lemma mset_rotate: "mset (rotate n xs) = mset xs"
  by (metis rotate_drop_take mset_append append_take_drop_id union_commute)

lemma filter_concat_replicate:
  "distinct bs \<Longrightarrow> length (filter (\<lambda>x. x = b) (concat (map (\<lambda>b. replicate (wt b) b) bs))) =
     (if b \<in> set bs then wt b else 0)"
  by (induction bs) (auto simp: filter_replicate)

text \<open>
  Claim C18. Weighted round robin is fair: in as many consecutive selections as the weights of the
  healthy backends add up to (below \<open>2 ^ 32\<close>, the counter not wrapping meanwhile), every healthy
  backend is chosen exactly as often as its weight says (a weight of 0 counts as 1), wherever
  the counter starts, an unhealthy one never, and no selection panics or falls through.
\<close>

theorem round_robin_fair:
  assumes "distinct bs" and "\<exists>b \<in> set bs. be_healthy b"
    and "sum_list (map wt (filter be_healthy bs)) = T" and "T < 2 ^ 32" and "unat c + T \<le> 2 ^ 64"
  shows "length (selections T bs c) = T
    \<and> (\<forall>b. length (filter (\<lambda>r. r = Inr (Some b)) (selections T bs c)) =
          (if b \<in> set bs \<and> be_healthy b then wt b else 0))
    \<and> (\<forall>r \<in> set (selections T bs c). \<exists>b \<in> set bs. be_healthy b \<and> r = Inr (Some b))"
proof -
  have T: "length (schedule bs) = T" using assms(3) by (simp add: length_schedule)
  have "0 < T"
    using assms(2,3) by (auto simp: sum_list_eq_0_iff wt_def intro!: gr0I)
  then have ne: "schedule bs \<noteq> []" using T by auto
  have r: "selections T bs c = map (Inr \<circ> Some) (rotate (unat c) (schedule bs))"
    using selections_rotate [OF ne] assms(4,5) T by simp
  have "length (filter (\<lambda>r. r = Inr (Some b)) (selections T bs c)) =
      (if b \<in> set bs \<and> be_healthy b then wt b else 0)" for b
  proof -
    have "length (filter (\<lambda>r. r = Inr (Some b)) (selections T bs c)) =
        length (filter (\<lambda>x. x = b) (rotate (unat c) (schedule bs)))"
      by (simp add: r filter_map comp_def)
    also have "\<dots> = size (filter_mset (\<lambda>x. x = b) (mset (rotate (unat c) (schedule bs))))"
      by (metis mset_filter size_mset)
    also have "\<dots> = length (filter (\<lambda>x. x = b) (schedule bs))"
      by (metis mset_filter size_mset mset_rotate)
    also have "\<dots> = (if b \<in> set bs \<and> be_healthy b then wt b else 0)"
      using assms(1) by (simp add: schedule_def filter_concat_replicate)
    finally show ?thesis .
  qed
  moreover have "\<exists>b \<in> set bs. be_healthy b \<and> r = Inr (Some b)" if "r \<in> set (selections T bs c)" for r
    using that unfolding r by (auto simp: schedule_def)
  ultimately show ?thesis using r T by simp
qed

definition demo_addr :: sockaddr where
  "demo_addr = \<lparr>sa_ip = V4 0x0A000001, sa_port = 8080\<rparr>"

definition demo_backends :: "BackendEntry list" where
  "demo_backends = [BackendEntry_new ''a'' demo_addr 2, BackendEntry_new ''b'' demo_addr 0]"

theorem round_robin_fair_witness:
  "length (filter (\<lambda>r. r = Inr (Some (BackendEntry_new ''a'' demo_addr 2))) (selections 3 demo_backends 7)) = 2"
  using round_robin_fair [of demo_backends 3 7]
  by (simp add: demo_backends_def BackendEntry_new_def wt_def)

text \<open>
  The exception: when the weights of the healthy backends add up to a positive multiple of
  \<open>2 ^ 32\<close>, the sum wraps to zero and the selection panics on the remainder; two backends of
  weight \<open>2 ^ 31\<close> are enough.
\<close>

theorem select_backend_panics:
  "fst (select_backend bs c) = Inl RemainderByZero \<longleftrightarrow>
     (\<exists>b \<in> set bs. be_healthy b) \<and> 2 ^ 32 dvd sum_list (map wt (filter be_healthy bs))"
proof -
  have "sum_list (map eff_weight (filter be_healthy bs)) = 0 \<longleftrightarrow>
      2 ^ 32 dvd sum_list (map wt (filter be_healthy bs))"
    using word_of_nat_eq_0_iff [where 'a = 32] unfolding total_weight_nat by simp
  moreover have "filter be_healthy bs = [] \<longleftrightarrow> \<not> (\<exists>b \<in> set bs. be_healthy b)"
    by (simp add: filter_empty_conv)
  ultimately show ?thesis
    by (auto simp: select_backend_def Let_def split: option.splits)
qed

section \<open>Health checks\<close>

definition count_of :: "(string, u32) hashmap \<Rightarrow> string \<Rightarrow> u32" where
  "count_of fc i = (case map_of fc i of Some c \<Rightarrow> c | None \<Rightarrow> 0)"

text \<open>What one tick does to the counter and to the flag of one backend.\<close>

definition tick_count :: "bool \<Rightarrow> u32 \<Rightarrow> u32" where
  "tick_count ok c = (if ok then 0 else c + 1)"

definition tick_backend :: "bool \<Rightarrow> u32 \<Rightarrow> BackendEntry \<Rightarrow> BackendEntry" where
  "tick_backend ok c b = b\<lparr>be_healthy := (if ok then True else if c + 1 \<ge> 3 then False else be_healthy b)\<rparr>"

lemma tick_backend_sel [simp]:
  "be_id (tick_backend ok c b) = be_id b" "be_addr (tick_backend ok c b) = be_addr b"
  by (simp_all add: tick_backend_def)

lemma health_one_parts:
  "snd (health_one ok y (fc, bs)) =
     map (\<lambda>b. if be_id b = be_id y then tick_backend ok (count_of fc (be_id y)) b else b) bs"
  "count_of (fst (health_one ok y (fc, bs))) i =
     (if i = be_id y then tick_count ok (count_of fc i) else count_of fc i)"
  by (auto simp: health_one_def update_backend_def tick_backend_def tick_count_def count_of_def Let_def
      map_idI [symmetric] split: option.splits)

lemma health_fold:
  assumes "distinct (map be_id ys)"
  shows "snd (fold (\<lambda>y. health_one (chk (be_addr y)) y) ys (fc, bs)) =
      map (\<lambda>b. case find (\<lambda>y. be_id y = be_id b) ys of
                None \<Rightarrow> b | Some y \<Rightarrow> tick_backend (chk (be_addr y)) (count_of fc (be_id b)) b) bs
    \<and> count_of (fst (fold (\<lambda>y. health_one (chk (be_addr y)) y) ys (fc, bs))) i =
      (case find (\<lambda>y. be_id y = i) ys of
         None \<Rightarrow> count_of fc i | Some y \<Rightarrow> tick_count (chk (be_addr y)) (count_of fc i))"
  using assms
proof (induction ys arbitrary: fc bs)
  case Nil
  then show ?case by simp
next
  case (Cons y ys)
  obtain fc1 bs1 where s: "health_one (chk (be_addr y)) y (fc, bs) = (fc1, bs1)"
    by (cases "health_one (chk (be_addr y)) y (fc, bs)")
  have f: "find (\<lambda>z. be_id z = be_id y) ys = None"
    using Cons.prems by (simp add: find_None_iff) (metis image_eqI)
  show ?case
    using Cons.IH [of fc1 bs1] Cons.prems f
      health_one_parts(1) [of "chk (be_addr y)" y fc bs] health_one_parts(2) [of "chk (be_addr y)" y fc bs]
    by (auto simp: s split: option.splits)
qed

lemma health_round_parts:
  assumes "distinct (map be_id bs)" and "bs \<noteq> []"
  obtains fc' where "health_round chk (fc, bs) =
      Some (fc', map (\<lambda>b. tick_backend (chk (be_addr b)) (count_of fc (be_id b)) b) bs)"
    and "\<forall>b \<in> set bs. count_of fc' (be_id b) = tick_count (chk (be_addr b)) (count_of fc (be_id b))"
proof -
  have f: "find (\<lambda>y. be_id y = be_id b) bs = Some b" if "b \<in> set bs" for b
    using assms(1) that by (induction bs) auto
  let ?r = "fold (\<lambda>y. health_one (chk (be_addr y)) y) bs (fc, bs)"
  have "snd ?r = map (\<lambda>b. tick_backend (chk (be_addr b)) (count_of fc (be_id b)) b) bs"
    using health_fold [OF assms(1), of chk fc bs] f by (auto intro!: map_cong)
  moreover have "\<forall>b \<in> set bs. count_of (fst ?r) (be_id b) = tick_count (chk (be_addr b)) (count_of fc (be_id b))"
    using health_fold [OF assms(1), of chk fc bs] f by auto
  ultimately show ?thesis
    using that [of "fst ?r"] assms(2) by (simp add: health_round_def Let_def prod_eq_iff)
qed

lemma health_rounds_snoc:
  "health_rounds (cs @ [c]) st = (case health_round c (health_rounds cs st) of
      None \<Rightarrow> health_rounds cs st | Some st' \<Rightarrow> st')"
  by (induction cs arbitrary: st) (auto simp: health_round_def Let_def split: option.splits)

text \<open>The number of failed connection attempts since the last success.\<close>

definition trailing_failures :: "(sockaddr \<Rightarrow> bool) list \<Rightarrow> sockaddr \<Rightarrow> nat" where
  "trailing_failures cs a = length (takeWhile (\<lambda>c. \<not> c a) (rev cs))"

definition verdict :: "(sockaddr \<Rightarrow> bool) list \<Rightarrow> BackendEntry \<Rightarrow> bool" where
  "verdict cs b =
     (if trailing_failures cs (be_addr b) \<ge> 3 then False
      else if \<exists>c \<in> set cs. c (be_addr b) then True else be_healthy b)"

lemma trailing_le: "trailing_failures cs a \<le> length cs"
  unfolding trailing_failures_def using length_takeWhile_le [of _ "rev cs"] by simp

lemma trailing_snoc: "trailing_failures (cs @ [c]) a = (if c a then 0 else Suc (trailing_failures cs a))"
  by (simp add: trailing_failures_def)

lemma verdict_snoc:
  assumes "length cs < 2 ^ 32 - 1"
  shows "tick_backend (c (be_addr b)) (word_of_nat (trailing_failures cs (be_addr b)))
      (b\<lparr>be_healthy := verdict cs b\<rparr>) = b\<lparr>be_healthy := verdict (cs @ [c]) b\<rparr>"
proof -
  let ?n = "trailing_failures cs (be_addr b)"
  have "?n < 2 ^ 32 - 1" using assms trailing_le [of cs "be_addr b"] by linarith
  then have u: "unat (word_of_nat (Suc ?n) :: u32) = Suc ?n" by (intro unat_of_nat_small) simp
  have "(3 \<le> (word_of_nat (Suc ?n) :: u32)) \<longleftrightarrow> 3 \<le> Suc ?n"
    unfolding word_le_nat_alt u by simp
  then have "(3 \<le> (word_of_nat ?n + 1 :: u32)) \<longleftrightarrow> 3 \<le> Suc ?n"
    by (simp only: of_nat_Suc add.commute)
  then show ?thesis
    by (auto simp: tick_backend_def verdict_def trailing_snoc)
qed

lemma health_rounds_verdict:
  assumes "distinct (map be_id bs)" and "length cs < 2 ^ 32"
  shows "snd (health_rounds cs ([], bs)) = map (\<lambda>b. b\<lparr>be_healthy := verdict cs b\<rparr>) bs
    \<and> (\<forall>b \<in> set bs. count_of (fst (health_rounds cs ([], bs))) (be_id b) =
          word_of_nat (trailing_failures cs (be_addr b)))"
  using assms(2)
proof (induction cs rule: rev_induct)
  case Nil
  then show ?case by (simp add: verdict_def trailing_failures_def count_of_def)
next
  case (snoc c cs)
  let ?bs = "map (\<lambda>b. b\<lparr>be_healthy := verdict cs b\<rparr>) bs"
  obtain fc where st: "health_rounds cs ([], bs) = (fc, ?bs)"
      and fc: "\<forall>b \<in> set bs. count_of fc (be_id b) = word_of_nat (trailing_failures cs (be_addr b))"
    using snoc by (cases "health_rounds cs ([], bs)") auto
  show ?case
  proof (cases "bs = []")
    case True
    then show ?thesis using st by (simp add: health_rounds_snoc health_round_def)
  next
    case False
    have d: "distinct (map be_id ?bs)" using assms(1) by (simp add: comp_def)
    obtain fc' where r: "health_round c (fc, ?bs) =
        Some (fc', map (\<lambda>b. tick_backend (c (be_addr b)) (count_of fc (be_id b)) b) ?bs)"
      and fc': "\<forall>b \<in> set ?bs. count_of fc' (be_id b) = tick_count (c (be_addr b)) (count_of fc (be_id b))"
      using health_round_parts [OF d, of c fc] False by auto
    have "map (\<lambda>b. tick_backend (c (be_addr b)) (count_of fc (be_id b)) b) ?bs =
        map (\<lambda>b. b\<lparr>be_healthy := verdict (cs @ [c]) b\<rparr>) bs"
      using fc verdict_snoc [of cs c] snoc.prems by simp
    moreover have "\<forall>b \<in> set bs. count_of fc' (be_id b) = word_of_nat (trailing_failures (cs @ [c]) (be_addr b))"
      using fc fc' by (simp add: tick_count_def trailing_snoc add.commute)
    ultimately show ?thesis using r by (simp add: health_rounds_snoc st)
  qed
qed

text \<open>
  The health check takes a backend out after three failed attempts in a row and puts it
  back on the first success: after any number of ticks of one task (below \<open>2 ^ 32\<close>), a backend
  is unhealthy exactly when its last three attempts failed, or when it started unhealthy and
  has not answered since; nothing else about the list changes.
\<close>

theorem health_check_three_strikes:
  assumes "distinct (map be_id bs)" and "length cs < 2 ^ 32"
  shows "snd (health_rounds cs ([], bs)) = map (\<lambda>b. b\<lparr>be_healthy := verdict cs b\<rparr>) bs"
  using health_rounds_verdict [OF assms] by blast

theorem health_check_three_strikes_witness:
  "map be_healthy (snd (health_rounds [\<lambda>_. False, \<lambda>_. False] ([], demo_backends))) = [True, True]
   \<and> map be_healthy (snd (health_rounds [\<lambda>_. False, \<lambda>_. False, \<lambda>_. False] ([], demo_backends))) = [False, False]"
  by (subst (1 2) health_check_three_strikes)
     (simp_all add: demo_backends_def BackendEntry_new_def verdict_def trailing_failures_def)

end
