(* ===== verification/Float64.thy ===== *)
theory Float64
  imports Prelude "HOL-Library.Log_Nat"
begin

text \<open>
  The \<open>f64\<close> arithmetic the sources use, as rationals rounded after every operation:
  \<open>f64_round\<close> is round-to-nearest, ties-to-even, with a 53-bit significand. Exponents are not
  bounded: the values of the program lie between a nanosecond over \<open>2 ^ 53\<close> and \<open>2 ^ 96\<close>, so
  neither subnormal numbers nor infinities arise.
\<close>

section \<open>Rounding\<close>

definition exponent :: "rat \<Rightarrow> int" where
  "exponent x =
     (let (p, q) = quotient_of x;
          a = int (floorlog 2 (nat p)) - int (floorlog 2 (nat q))
      in if 2 powi a \<le> x then a else a - 1)"

definition round_half_even :: "rat \<Rightarrow> int" where
  "round_half_even r =
     (let f = \<lfloor>r\<rfloor>; d = r - of_int f
      in if d < 1 / 2 then f else if 1 / 2 < d then f + 1 else if even f then f else f + 1)"

definition f64_round :: "rat \<Rightarrow> rat" where
  "f64_round x =
     (if x = 0 then 0
      else let u = 2 powi (exponent \<bar>x\<bar> - 52)
           in sgn x * of_int (round_half_even (\<bar>x\<bar> / u)) * u)"

section \<open>Its laws\<close>

lemma round_half_even_bounds: "\<lfloor>r\<rfloor> \<le> round_half_even r \<and> round_half_even r \<le> \<lfloor>r\<rfloor> + 1"
  by (auto simp: round_half_even_def Let_def)

lemma round_half_even_int [simp]: "round_half_even (of_int n) = n"
  by (simp add: round_half_even_def)

lemma round_half_even_mono: "r \<le> s \<Longrightarrow> round_half_even r \<le> round_half_even s"
proof (cases "\<lfloor>r\<rfloor> = \<lfloor>s\<rfloor>")
  case True
  moreover assume "r \<le> s"
  ultimately show ?thesis by (auto simp: round_half_even_def Let_def)
next
  case False
  assume "r \<le> s"
  with False have "\<lfloor>r\<rfloor> + 1 \<le> \<lfloor>s\<rfloor>" using floor_mono [of r s] by simp
  then show ?thesis using round_half_even_bounds [of r] round_half_even_bounds [of s] by linarith
qed

lemma powi_less_iff: "(2::rat) powi i < 2 powi j \<longleftrightarrow> i < j"
  by (metis linorder_not_less one_le_numeral power_int_increasing power_int_strict_increasing
      one_less_numeral_iff semiring_norm(76))

lemma floorlog_bounds_int:
  assumes "0 < p"
  shows "(2::rat) powi (int (floorlog 2 (nat p)) - 1) \<le> of_int p"
    and "of_int p < (2::rat) powi int (floorlog 2 (nat p))"
proof -
  let ?n = "floorlog 2 (nat p)"
  have b: "2 ^ (?n - 1) \<le> nat p \<and> nat p < 2 ^ ?n"
    using assms floorlog_bounds [of "nat p" 2] by simp
  have n: "0 < ?n" using b assms by (cases ?n) auto
  have "(2::rat) powi (int ?n - 1) = of_nat (2 ^ (?n - 1))"
    using n by (simp add: power_int_def nat_diff_distrib)
  also have "\<dots> \<le> of_nat (nat p)" using b by (simp only: of_nat_le_iff)
  finally show "(2::rat) powi (int ?n - 1) \<le> of_int p" using assms by simp
  have "rat_of_nat (nat p) < of_nat (2 ^ ?n)" using b by (simp only: of_nat_less_iff)
  then show "of_int p < (2::rat) powi int ?n" using assms by simp
qed

lemma exponent_bounds:
  assumes "0 < x"
  shows "2 powi exponent x \<le> x \<and> x < 2 powi (exponent x + 1)"
proof -
  obtain p q where pq: "quotient_of x = (p, q)" by (cases "quotient_of x")
  have q: "0 < q" using quotient_of_denom_pos [OF pq] .
  have x: "x = of_int p / of_int q" using quotient_of_div [OF pq] .
  with assms q have p: "0 < p" by (simp add: zero_less_divide_iff)
  let ?m = "int (floorlog 2 (nat p))" and ?n = "int (floorlog 2 (nat q))"
  have "x < 2 powi ?m / 2 powi (?n - 1)"
    unfolding x using floorlog_bounds_int [OF p] floorlog_bounds_int [OF q] p q
    by (intro frac_less) auto
  also have "\<dots> = 2 powi (?m - ?n + 1)"
    using power_int_diff [of "2::rat" ?m "?n - 1"] by (simp add: algebra_simps)
  finally have up: "x < 2 powi (?m - ?n + 1)" .
  have "2 powi (?m - ?n - 1) = 2 powi (?m - 1) / (2::rat) powi ?n"
    using power_int_diff [of "2::rat" "?m - 1" ?n] by (simp add: algebra_simps)
  also have "\<dots> \<le> x"
    unfolding x using floorlog_bounds_int [OF p] floorlog_bounds_int [OF q] p q
    by (intro frac_le) auto
  finally have "2 powi (?m - ?n - 1) \<le> x" .
  with up show ?thesis by (auto simp: exponent_def pq Let_def)
qed

lemma exponent_unique:
  assumes "2 powi e \<le> x" and "x < 2 powi (e + 1)"
  shows "exponent x = e"
proof -
  have x: "0 < x" using assms(1) by (rule less_le_trans [rotated]) simp
  have "(2::rat) powi e < 2 powi (exponent x + 1)" "(2::rat) powi exponent x < 2 powi (e + 1)"
    using assms exponent_bounds [OF x] by linarith+
  then show ?thesis by (simp add: powi_less_iff)
qed

lemma exponent_mono: "0 < x \<Longrightarrow> x \<le> y \<Longrightarrow> exponent x \<le> exponent y"
proof -
  assume a: "0 < x" "x \<le> y"
  then have "(2::rat) powi exponent x < 2 powi (exponent y + 1)"
    using exponent_bounds [of x] exponent_bounds [of y] by linarith
  then have "exponent x < exponent y + 1" by (simp only: powi_less_iff)
  then show ?thesis by simp
qed

lemma f64_round_pos:
  "0 < x \<Longrightarrow> f64_round x = of_int (round_half_even (x / 2 powi (exponent x - 52))) * 2 powi (exponent x - 52)"
  by (simp add: f64_round_def Let_def)

lemma f64_round_near:
  assumes "0 < x"
  shows "\<bar>f64_round x - x\<bar> \<le> x / 2 ^ 52"
proof -
  let ?u = "2 powi (exponent x - 52) :: rat"
  have u: "0 < ?u" by simp
  have "?u * 2 ^ 52 = 2 powi exponent x" by (simp add: power_int_diff)
  then have le: "?u \<le> x / 2 ^ 52" using exponent_bounds [OF assms] by (simp add: field_simps)
  have "\<bar>of_int (round_half_even r) - r\<bar> \<le> 1" for r :: rat
    using round_half_even_bounds [of r] by linarith
  from mult_right_mono [OF this [of "x / ?u"], of ?u]
  have "\<bar>of_int (round_half_even (x / ?u)) - x / ?u\<bar> * \<bar>?u\<bar> \<le> ?u" using u by simp
  moreover have "(of_int (round_half_even (x / ?u)) - x / ?u) * ?u = of_int (round_half_even (x / ?u)) * ?u - x"
    using u by (simp add: left_diff_distrib)
  ultimately have "\<bar>of_int (round_half_even (x / ?u)) * ?u - x\<bar> \<le> ?u" by (metis abs_mult)
  then show ?thesis using le by (simp add: f64_round_pos assms)
qed

lemma f64_round_0 [simp]: "f64_round 0 = 0"
  by (simp add: f64_round_def)

lemma powi_scale: "(2::rat) powi e / 2 powi (e - 52) = of_int (2 ^ 52)"
  by (simp add: power_int_diff [symmetric])

lemma f64_round_binade:
  assumes "0 < x"
  shows "2 powi exponent x \<le> f64_round x" and "f64_round x \<le> 2 powi (exponent x + 1)"
proof -
  let ?e = "exponent x" and ?u = "(2::rat) powi (exponent x - 52)"
  have u: "0 < ?u" by simp
  have "of_int (2 ^ 52) \<le> x / ?u"
    using exponent_bounds [OF assms] by (metis divide_right_mono less_eq_rat_def powi_scale u)
  then have "2 ^ 52 \<le> round_half_even (x / ?u)"
    using round_half_even_mono by (metis round_half_even_int)
  then have "rat_of_int (2 ^ 52) * ?u \<le> f64_round x"
    unfolding f64_round_pos [OF assms] using u by (intro mult_right_mono) (simp_all only: of_int_le_iff less_imp_le)
  moreover have "rat_of_int (2 ^ 52) * ?u = 2 powi ?e" using powi_scale [of ?e] u by (simp add: field_simps)
  ultimately show "2 powi ?e \<le> f64_round x" by simp
  have s: "(2::rat) powi (?e + 1) = of_int (2 ^ 53) * ?u"
    using powi_scale [of ?e] u by (simp add: field_simps power_int_add)
  have "x / ?u \<le> of_int (2 ^ 53)"
    using exponent_bounds [OF assms] u by (simp add: s divide_le_eq)
  then have "round_half_even (x / ?u) \<le> 2 ^ 53"
    using round_half_even_mono by (metis round_half_even_int)
  then show "f64_round x \<le> 2 powi (?e + 1)"
    unfolding f64_round_pos [OF assms] s using u
    by (intro mult_right_mono) (simp_all only: of_int_le_iff less_imp_le)
qed

lemma f64_round_nonneg: "0 \<le> x \<Longrightarrow> 0 \<le> f64_round x"
  using f64_round_binade(1) [of x] by (cases "x = 0") (auto intro: order_trans [rotated])

lemma f64_round_mono: "0 \<le> x \<Longrightarrow> x \<le> y \<Longrightarrow> f64_round x \<le> f64_round y"
proof -
  assume a: "0 \<le> x" "x \<le> y"
  consider "x = 0" | "0 < x" "exponent x = exponent y" | "0 < x" "exponent x < exponent y"
    using a exponent_mono [of x y] by fastforce
  then show ?thesis
  proof cases
    case 1
    then show ?thesis using a f64_round_nonneg by simp
  next
    case 2
    then have "round_half_even (x / 2 powi (exponent y - 52)) \<le> round_half_even (y / 2 powi (exponent y - 52))"
      using a by (intro round_half_even_mono divide_right_mono) auto
    then show ?thesis using 2 a by (simp add: f64_round_pos mult_right_mono)
  next
    case 3
    have "f64_round x \<le> 2 powi (exponent x + 1)" by (rule f64_round_binade(2) [OF 3(1)])
    also have "\<dots> \<le> 2 powi exponent y" using 3 by (intro power_int_increasing) auto
    also have "\<dots> \<le> f64_round y" using 3 a by (intro f64_round_binade(1)) auto
    finally show ?thesis .
  qed
qed

text \<open>A number on the grid of its binade is a \<open>f64\<close>, so it is not changed.\<close>

lemma f64_round_grid:
  assumes "0 < x" and "x = of_int k * 2 powi (exponent x - 52)"
  shows "f64_round x = x"
proof -
  have "x / 2 powi (exponent x - 52) = of_int k" by (subst assms(2)) simp
  then show ?thesis using assms by (simp add: f64_round_pos)
qed

lemma f64_round_idem: "0 \<le> x \<Longrightarrow> f64_round (f64_round x) = f64_round x"
proof (cases "x = 0 \<or> f64_round x = 2 powi (exponent x + 1)")
  case True
  have "exponent (2 powi e) = e" for e by (rule exponent_unique) (auto simp only: powi_less_iff order_refl)
  then have "f64_round (2 powi e) = 2 powi e" for e
    by (intro f64_round_grid [where k = "2 ^ 52"]) (auto simp: power_int_diff [symmetric] power_int_diff)
  with True show ?thesis by auto
next
  case False
  moreover assume "0 \<le> x"
  ultimately have x: "0 < x" "f64_round x < 2 powi (exponent x + 1)"
    using f64_round_binade(2) [of x] by auto
  then have e: "exponent (f64_round x) = exponent x"
    using f64_round_binade(1) by (intro exponent_unique) auto
  show ?thesis
  proof (rule f64_round_grid)
    show "0 < f64_round x" using f64_round_binade(1) [OF x(1)] by (rule less_le_trans [rotated]) simp
    show "f64_round x = of_int (round_half_even (x / 2 powi (exponent x - 52)))
        * 2 powi (exponent (f64_round x) - 52)"
      unfolding e by (rule f64_round_pos [OF x(1)])
  qed
qed

lemma f64_round_nat:
  assumes "n < 2 ^ 53"
  shows "f64_round (of_nat n) = of_nat n"
proof (cases "n = 0")
  case True
  then show ?thesis by simp
next
  case False
  let ?x = "rat_of_nat n"
  have x: "0 < ?x" using False by simp
  have "?x < of_nat (2 ^ 53)" using assms by (simp only: of_nat_less_iff)
  also have "\<dots> = 2 powi 53" by (simp add: power_int_numeral)
  finally have "(2::rat) powi exponent ?x < 2 powi 53"
    using exponent_bounds [OF x] by (blast intro: le_less_trans)
  then have e: "exponent ?x \<le> 52" by (simp only: powi_less_iff)
  define m where "m = nat (52 - exponent ?x)"
  have "exponent ?x - 52 = - int m" using e by (simp add: m_def)
  then have u: "2 powi (exponent ?x - 52) = inverse ((2::rat) ^ m)"
    by (simp only: power_int_minus power_int_of_nat)
  show ?thesis
    using x by (rule f64_round_grid [where k = "int n * 2 ^ m"]) (simp add: u)
qed

end
