(* ===== verification/Ddos.thy ===== *)
theory Ddos
  imports Float64
begin

text \<open>
  The per-tunnel token bucket, \<open>DDoSProtection\<close> of \<open>tunnel.rs\<close>. Every atomic is a field of the
  record at its width; the bucket's mutex makes one call of \<open>check\<close> one step. An \<open>Instant\<close> is a
  number of nanoseconds, and the tokens are \<open>f64\<close> values rounded after each operation.
\<close>

section \<open>State and operations\<close>

text \<open>The cast \<open>as f64\<close> of a \<open>u32\<close>.\<close>

definition u32_as_f64 :: "u32 \<Rightarrow> rat" where
  "u32_as_f64 w = f64_round (rat_of_nat (unat w))"

record TokenBucketState =
  tokens :: rat
  last_refill :: nat

record DDoSProtection =
  ddos_enabled :: bool
  rps_atomic :: u64
  burst_atomic :: u64
  blocked_count :: u64
  challenge_mode :: bool
  bucket :: TokenBucketState

definition DDoSProtection_new :: "nat \<Rightarrow> u32 \<Rightarrow> u32 \<Rightarrow> DDoSProtection" where
  "DDoSProtection_new now rps burst =
     \<lparr>ddos_enabled = False, rps_atomic = ucast rps, burst_atomic = ucast burst,
      blocked_count = 0, challenge_mode = True,
      bucket = \<lparr>tokens = u32_as_f64 burst, last_refill = now\<rparr>\<rparr>"

definition get_rps :: "DDoSProtection \<Rightarrow> u32" where
  "get_rps d = ucast (rps_atomic d)"

definition set_rps :: "u32 \<Rightarrow> DDoSProtection \<Rightarrow> DDoSProtection" where
  "set_rps v d = d\<lparr>rps_atomic := ucast v\<rparr>"

definition get_burst :: "DDoSProtection \<Rightarrow> u32" where
  "get_burst d = ucast (burst_atomic d)"

definition set_burst :: "u32 \<Rightarrow> DDoSProtection \<Rightarrow> DDoSProtection" where
  "set_burst v d = d\<lparr>burst_atomic := ucast v\<rparr>"

text \<open>\<open>Duration::as_secs_f64\<close>, and \<open>Instant::duration_since\<close>, which saturates at zero.\<close>

definition as_secs_f64 :: "nat \<Rightarrow> rat" where
  "as_secs_f64 ns =
     f64_round (f64_round (of_nat (ns div 1000000000))
       + f64_round (f64_round (of_nat (ns mod 1000000000)) / 1000000000))"

definition ddos_check :: "nat \<Rightarrow> DDoSProtection \<Rightarrow> bool \<times> DDoSProtection" where
  "ddos_check now d =
     (if \<not> ddos_enabled d then (True, d)
      else let rps = get_rps d in
        if rps = 0 then (True, d)
        else let burst = get_burst d;
                 elapsed = as_secs_f64 (now - last_refill (bucket d));
                 refilled = min (f64_round (tokens (bucket d)
                              + f64_round (elapsed * u32_as_f64 rps)))
                            (u32_as_f64 burst)
             in if refilled \<ge> 1
                then (True, d\<lparr>bucket := \<lparr>tokens = f64_round (refilled - 1), last_refill = now\<rparr>\<rparr>)
                else (False, d\<lparr>bucket := \<lparr>tokens = refilled, last_refill = now\<rparr>,
                              blocked_count := blocked_count d + 1\<rparr>))"

fun run_ddos :: "nat list \<Rightarrow> DDoSProtection \<Rightarrow> bool list \<times> DDoSProtection" where
  "run_ddos [] d = ([], d)"
| "run_ddos (t # ts) d =
     (let (b, d1) = ddos_check t d; (bs, d2) = run_ddos ts d1 in (b # bs, d2))"

section \<open>The refilled bucket\<close>

definition refill :: "nat \<Rightarrow> DDoSProtection \<Rightarrow> rat" where
  "refill now d =
     min (f64_round (tokens (bucket d)
           + f64_round (as_secs_f64 (now - last_refill (bucket d)) * u32_as_f64 (get_rps d))))
         (u32_as_f64 (get_burst d))"

definition bucket_ok :: "DDoSProtection \<Rightarrow> bool" where
  "bucket_ok d \<longleftrightarrow> 0 \<le> tokens (bucket d) \<and> f64_round (tokens (bucket d)) = tokens (bucket d)"

definition active :: "DDoSProtection \<Rightarrow> bool" where
  "active d \<longleftrightarrow> ddos_enabled d \<and> get_rps d \<noteq> 0"

lemma u32_as_f64_exact: "u32_as_f64 w = rat_of_nat (unat w)"
  unfolding u32_as_f64_def
proof (rule f64_round_nat)
  have "unat w < 2 ^ 32" using unat_less_2p [of w] by simp
  also have "(2::nat) ^ 32 \<le> 2 ^ 53" by (rule power_increasing) auto
  finally show "unat w < 2 ^ 53" .
qed

lemma u32_as_f64_nonneg [simp]: "0 \<le> u32_as_f64 w"
  unfolding u32_as_f64_exact by (rule of_nat_0_le_iff)

lemma u32_as_f64_round [simp]: "f64_round (u32_as_f64 w) = u32_as_f64 w"
  unfolding u32_as_f64_def by (intro f64_round_idem of_nat_0_le_iff)

lemma as_secs_f64_nonneg: "0 \<le> as_secs_f64 ns"
  by (auto simp: as_secs_f64_def intro!: f64_round_nonneg add_nonneg_nonneg)

lemma as_secs_f64_0 [simp]: "as_secs_f64 0 = 0"
  by (simp add: as_secs_f64_def)

lemma refill_props:
  assumes "bucket_ok d"
  shows "0 \<le> refill now d" "refill now d \<le> u32_as_f64 (get_burst d)"
    "f64_round (refill now d) = refill now d"
proof -
  have n: "0 \<le> tokens (bucket d) + f64_round (as_secs_f64 (now - last_refill (bucket d)) * u32_as_f64 (get_rps d))"
    using assms by (auto simp: bucket_ok_def intro!: add_nonneg_nonneg f64_round_nonneg mult_nonneg_nonneg
        as_secs_f64_nonneg)
  then show "0 \<le> refill now d" by (simp add: refill_def f64_round_nonneg)
  show "refill now d \<le> u32_as_f64 (get_burst d)" by (simp add: refill_def)
  show "f64_round (refill now d) = refill now d"
    using f64_round_idem [OF n] by (simp add: refill_def min_def)
qed

lemma check_active:
  "active d \<Longrightarrow> ddos_check now d =
     (if refill now d \<ge> 1
      then (True, d\<lparr>bucket := \<lparr>tokens = f64_round (refill now d - 1), last_refill = now\<rparr>\<rparr>)
      else (False, d\<lparr>bucket := \<lparr>tokens = refill now d, last_refill = now\<rparr>,
                    blocked_count := blocked_count d + 1\<rparr>))"
  by (simp add: ddos_check_def active_def refill_def Let_def)

lemma check_inactive: "\<not> active d \<Longrightarrow> ddos_check now d = (True, d)"
  by (auto simp: ddos_check_def active_def)

lemma f64_pred_bounds:
  assumes "1 \<le> x" and "f64_round x = x"
  shows "0 \<le> f64_round (x - 1)" and "f64_round (x - 1) \<le> x"
  using assms f64_round_mono [of "x - 1" x] by (auto intro: f64_round_nonneg)

lemma check_bucket_ok: "bucket_ok d \<Longrightarrow> bucket_ok (snd (ddos_check now d))"
proof (cases "active d")
  case True
  moreover assume "bucket_ok d"
  ultimately show ?thesis
    using refill_props [of d now]
    by (auto simp: check_active bucket_ok_def f64_round_nonneg f64_round_idem)
qed (simp add: check_inactive)

lemma ddos_config_kept:
  "active (snd (ddos_check now d)) = active d" "get_burst (snd (ddos_check now d)) = get_burst d"
  "get_rps (snd (ddos_check now d)) = get_rps d"
  by (auto simp: ddos_check_def active_def get_burst_def get_rps_def Let_def)

text \<open>A fresh bucket, switched on, is well formed.\<close>

lemma fresh_ok:
  "bucket_ok ((DDoSProtection_new now rps burst)\<lparr>ddos_enabled := True\<rparr>)"
  "rps \<noteq> 0 \<Longrightarrow> active ((DDoSProtection_new now rps burst)\<lparr>ddos_enabled := True\<rparr>)"
  by (auto simp: bucket_ok_def active_def DDoSProtection_new_def get_rps_def)

section \<open>Properties\<close>

text \<open>
  The bucket never holds fewer than zero or more than \<open>burst\<close> tokens after a check, in
  rounded \<open>f64\<close> arithmetic, whatever the clock does, and a request is admitted exactly when
  the refilled bucket has a whole token (the clock standing still or stepping back refills
  nothing).
\<close>

theorem bucket_within_burst:
  assumes "bucket_ok d" and "active d"
  shows "let (ok, d') = ddos_check now d in
    bucket_ok d' \<and> tokens (bucket d') \<le> u32_as_f64 (get_burst d) \<and> (ok \<longleftrightarrow> 1 \<le> refill now d)
    \<and> (now \<le> last_refill (bucket d) \<longrightarrow> refill now d = min (tokens (bucket d)) (u32_as_f64 (get_burst d)))"
proof -
  have t: "tokens (bucket (snd (ddos_check now d))) \<le> u32_as_f64 (get_burst d)"
    using assms refill_props [OF assms(1), of now] f64_pred_bounds [of "refill now d"]
    by (auto simp: check_active)
  have ok: "fst (ddos_check now d) \<longleftrightarrow> 1 \<le> refill now d" using assms by (simp add: check_active)
  have z: "refill now d = min (tokens (bucket d)) (u32_as_f64 (get_burst d))"
    if "now \<le> last_refill (bucket d)"
    using that assms(1) by (simp add: refill_def bucket_ok_def)
  show ?thesis
    using check_bucket_ok [OF assms(1), of now] t ok z by (simp add: case_prod_beta Let_def)
qed

theorem bucket_within_burst_witness:
  "tokens (bucket (snd (ddos_check 0 ((DDoSProtection_new 0 1 2)\<lparr>ddos_enabled := True\<rparr>)))) \<le> 2"
proof -
  have "get_burst ((DDoSProtection_new 0 1 2)\<lparr>ddos_enabled := True\<rparr>) = 2"
    by (simp add: get_burst_def DDoSProtection_new_def)
  then show ?thesis
    using bucket_within_burst [of "(DDoSProtection_new 0 1 2)\<lparr>ddos_enabled := True\<rparr>" 0] fresh_ok(1) [of 0 1 2]
      fresh_ok(2) [of 1 0 2] u32_as_f64_exact [of 2]
    by (simp add: case_prod_beta Let_def)
qed

text \<open>
  At one instant the bucket only drains: with at most \<open>n\<close> tokens refilled, at most \<open>n\<close> requests
  pass, because rounding is monotone and exact on integers.
\<close>

lemma refill_after_check:
  "bucket_ok d \<Longrightarrow> active d \<Longrightarrow> refill now (snd (ddos_check now d)) \<le> tokens (bucket (snd (ddos_check now d)))"
  using check_bucket_ok [of d now] by (auto simp: refill_def check_active bucket_ok_def)

lemma same_instant_budget:
  assumes "bucket_ok d" and "active d" and "refill now d \<le> rat_of_nat b" and "b < 2 ^ 32"
  shows "length (filter (\<lambda>ok. ok) (fst (run_ddos (replicate n now) d))) \<le> b"
  using assms
proof (induction n arbitrary: d b)
  case 0
  then show ?case by simp
next
  case (Suc n)
  let ?d = "snd (ddos_check now d)"
  note next_ok = check_bucket_ok [OF Suc.prems(1), of now] refill_after_check [OF Suc.prems(1,2), of now]
  show ?case
  proof (cases "1 \<le> refill now d")
    case True
    then obtain m where m: "b = Suc m" using Suc.prems(3) by (cases b) auto
    have "f64_round (refill now d - 1) \<le> f64_round (rat_of_nat m)"
      using True Suc.prems(3) m by (intro f64_round_mono) auto
    also have "\<dots> = rat_of_nat m" using Suc.prems(4) m by (intro f64_round_nat) simp
    finally have "refill now ?d \<le> rat_of_nat m"
      using True Suc.prems(2) next_ok(2) by (simp add: check_active)
    then have "length (filter (\<lambda>ok. ok) (fst (run_ddos (replicate n now) ?d))) \<le> m"
      using Suc.prems m next_ok(1) by (intro Suc.IH) (auto simp: ddos_config_kept)
    then show ?thesis using Suc.prems(2) True m by (simp add: check_active case_prod_beta Let_def)
  next
    case False
    then have "refill now ?d \<le> rat_of_nat b"
      using Suc.prems next_ok(2) by (simp add: check_active)
    then have "length (filter (\<lambda>ok. ok) (fst (run_ddos (replicate n now) ?d))) \<le> b"
      using Suc.prems next_ok(1) by (intro Suc.IH) (auto simp: ddos_config_kept)
    then show ?thesis using Suc.prems(2) False by (simp add: check_active case_prod_beta Let_def)
  qed
qed

lemma blocked_counts_refusals:
  "blocked_count (snd (run_ddos ts d)) = blocked_count d + of_nat (length (filter Not (fst (run_ddos ts d))))"
proof (induction ts arbitrary: d)
  case Nil
  then show ?case by simp
next
  case (Cons t ts)
  have "blocked_count (snd (ddos_check t d)) =
      (if fst (ddos_check t d) then blocked_count d else blocked_count d + 1)"
    by (auto simp: ddos_check_def Let_def)
  with Cons [of "snd (ddos_check t d)"] show ?case by (simp add: case_prod_beta Let_def)
qed

text \<open>
  Claim C33. A flood at one instant gets at most \<open>burst\<close> requests through, however many it sends and
  however full the bucket was, and every other one is counted in \<open>blocked_count\<close> (modulo
  \<open>2 ^ 64\<close>).
\<close>

theorem flood_admits_at_most_burst:
  assumes "bucket_ok d" and "active d"
  shows "length (filter (\<lambda>ok. ok) (fst (run_ddos (replicate n now) d))) \<le> unat (get_burst d)
    \<and> blocked_count (snd (run_ddos (replicate n now) d)) =
        blocked_count d + of_nat (length (filter Not (fst (run_ddos (replicate n now) d))))"
proof
  show "length (filter (\<lambda>ok. ok) (fst (run_ddos (replicate n now) d))) \<le> unat (get_burst d)"
  proof (rule same_instant_budget [OF assms])
    show "refill now d \<le> rat_of_nat (unat (get_burst d))"
      using refill_props(2) [OF assms(1)] unfolding u32_as_f64_exact .
    show "unat (get_burst d) < 2 ^ 32" using unat_less_2p [of "get_burst d"] by simp
  qed
qed (rule blocked_counts_refusals)

theorem flood_admits_at_most_burst_witness:
  "length (filter (\<lambda>ok. ok) (fst (run_ddos (replicate 1000 5) ((DDoSProtection_new 0 1 2)\<lparr>ddos_enabled := True\<rparr>)))) \<le> 2"
  using flood_admits_at_most_burst [of "(DDoSProtection_new 0 1 2)\<lparr>ddos_enabled := True\<rparr>" 1000 5]
  by (simp add: fresh_ok get_burst_def) (simp add: DDoSProtection_new_def)

end
