(* ===== verification/Metrics.thy ===== *)
theory Metrics
  imports Ddos
begin

text \<open>
  The counters of \<open>metrics.rs\<close>: every \<open>AtomicU64\<close> is a field of width 64, \<open>fetch_add\<close> wraps, and a
  clone of the handle is the same record. Latencies are \<open>f64\<close> values, as in the token bucket.
\<close>

section \<open>Histogram\<close>

record Histogram =
  h_bounds :: "rat list"
  h_buckets :: "u64 list"
  h_count :: u64
  h_sum_us :: u64

definition LATENCY_BOUNDS :: "rat list" where
  "LATENCY_BOUNDS = map f64_round [5/1000, 1/100, 25/1000, 5/100, 1/10, 25/100, 5/10, 1, 25/10]"

definition Histogram_new :: "rat list \<Rightarrow> Histogram" where
  "Histogram_new bounds =
     \<lparr>h_bounds = bounds, h_buckets = replicate (length bounds) 0, h_count = 0, h_sum_us = 0\<rparr>"

text \<open>The cast of a \<open>f64\<close> to \<open>u64\<close>: truncation, saturating at both ends.\<close>

definition f64_as_u64 :: "rat \<Rightarrow> u64" where
  "f64_as_u64 x = (if x \<le> 0 then 0 else if x \<ge> 2 ^ 64 then - 1 else word_of_int \<lfloor>x\<rfloor>)"

definition observe :: "rat \<Rightarrow> Histogram \<Rightarrow> Histogram" where
  "observe secs h =
     h\<lparr>h_count := h_count h + 1,
       h_sum_us := h_sum_us h + f64_as_u64 (f64_round (secs * 1000000)),
       h_buckets := map2 (\<lambda>bound b. if secs \<le> bound then b + 1 else b) (h_bounds h) (h_buckets h)\<rparr>"

section \<open>Metrics\<close>

record Metrics =
  m_bytes_in :: u64
  m_bytes_out :: u64
  m_connections_total :: u64
  m_handshake_ms_total :: u64
  m_handshake_count :: u64
  m_auth_failures_total :: u64
  m_rate_limit_hits_total :: u64
  m_tunnel_cap_rejections_total :: u64
  m_subdomain_invalid_total :: u64
  m_tunnel_per_ip_rejections_total :: u64
  m_request_duration :: Histogram
  m_ws_connections_active :: u64
  m_geoip_blocked_total :: u64

definition new_metrics :: Metrics where
  "new_metrics =
     \<lparr>m_bytes_in = 0, m_bytes_out = 0, m_connections_total = 0, m_handshake_ms_total = 0,
      m_handshake_count = 0, m_auth_failures_total = 0, m_rate_limit_hits_total = 0,
      m_tunnel_cap_rejections_total = 0, m_subdomain_invalid_total = 0,
      m_tunnel_per_ip_rejections_total = 0, m_request_duration = Histogram_new LATENCY_BOUNDS,
      m_ws_connections_active = 0, m_geoip_blocked_total = 0\<rparr>"

definition inc_bytes_in :: "u64 \<Rightarrow> Metrics \<Rightarrow> Metrics" where
  "inc_bytes_in n m = m\<lparr>m_bytes_in := m_bytes_in m + n\<rparr>"

definition inc_bytes_out :: "u64 \<Rightarrow> Metrics \<Rightarrow> Metrics" where
  "inc_bytes_out n m = m\<lparr>m_bytes_out := m_bytes_out m + n\<rparr>"

definition inc_connections :: "Metrics \<Rightarrow> Metrics" where
  "inc_connections m = m\<lparr>m_connections_total := m_connections_total m + 1\<rparr>"

definition record_handshake_ms :: "u64 \<Rightarrow> Metrics \<Rightarrow> Metrics" where
  "record_handshake_ms ms m =
     m\<lparr>m_handshake_ms_total := m_handshake_ms_total m + ms, m_handshake_count := m_handshake_count m + 1\<rparr>"

definition u64_as_f64 :: "u64 \<Rightarrow> rat" where
  "u64_as_f64 w = f64_round (rat_of_nat (unat w))"

definition handshake_avg_ms :: "Metrics \<Rightarrow> rat" where
  "handshake_avg_ms m =
     (let count = m_handshake_count m
      in if count = 0 then 0
         else f64_round (u64_as_f64 (m_handshake_ms_total m) / u64_as_f64 count))"

definition inc_auth_failures :: "Metrics \<Rightarrow> Metrics" where
  "inc_auth_failures m = m\<lparr>m_auth_failures_total := m_auth_failures_total m + 1\<rparr>"

definition inc_rate_limit_hits :: "Metrics \<Rightarrow> Metrics" where
  "inc_rate_limit_hits m = m\<lparr>m_rate_limit_hits_total := m_rate_limit_hits_total m + 1\<rparr>"

definition inc_tunnel_cap_rejections :: "Metrics \<Rightarrow> Metrics" where
  "inc_tunnel_cap_rejections m = m\<lparr>m_tunnel_cap_rejections_total := m_tunnel_cap_rejections_total m + 1\<rparr>"

definition inc_subdomain_invalid :: "Metrics \<Rightarrow> Metrics" where
  "inc_subdomain_invalid m = m\<lparr>m_subdomain_invalid_total := m_subdomain_invalid_total m + 1\<rparr>"

definition inc_tunnel_per_ip_rejections :: "Metrics \<Rightarrow> Metrics" where
  "inc_tunnel_per_ip_rejections m = m\<lparr>m_tunnel_per_ip_rejections_total := m_tunnel_per_ip_rejections_total m + 1\<rparr>"

definition inc_ws_connections :: "Metrics \<Rightarrow> Metrics" where
  "inc_ws_connections m = m\<lparr>m_ws_connections_active := m_ws_connections_active m + 1\<rparr>"

definition dec_ws_connections :: "Metrics \<Rightarrow> Metrics" where
  "dec_ws_connections m = m\<lparr>m_ws_connections_active := m_ws_connections_active m - 1\<rparr>"

definition inc_geoip_blocked :: "Metrics \<Rightarrow> Metrics" where
  "inc_geoip_blocked m = m\<lparr>m_geoip_blocked_total := m_geoip_blocked_total m + 1\<rparr>"

definition record_request_duration :: "nat \<Rightarrow> Metrics \<Rightarrow> Metrics" where
  "record_request_duration duration m =
     m\<lparr>m_request_duration := observe (as_secs_f64 duration) (m_request_duration m)\<rparr>"

section \<open>What a histogram shows\<close>

lemma map2_map: "map2 f xs (map g xs) = map (\<lambda>x. f x (g x)) xs"
  by (induction xs) auto

lemma observe_all:
  "fold observe obs (Histogram_new bounds) =
     \<lparr>h_bounds = bounds,
      h_buckets = map (\<lambda>b. word_of_nat (length (filter (\<lambda>x. x \<le> b) obs))) bounds,
      h_count = word_of_nat (length obs),
      h_sum_us = sum_list (map (\<lambda>x. f64_as_u64 (f64_round (x * 1000000))) obs)\<rparr>"
proof (induction obs rule: rev_induct)
  case Nil
  then show ?case by (simp add: Histogram_new_def map_replicate_const)
next
  case (snoc x obs)
  show ?case
    unfolding fold_append fold.simps comp_def snoc.IH
    by (simp add: observe_def map2_map add.commute)
qed

text \<open>
  The exposed histogram is a Prometheus histogram: after any observations (fewer than
  \<open>2 ^ 64\<close>), bucket \<open>i\<close> holds the number of observations at most its bound, so the buckets
  increase with their bounds up to the total count, which is the \<open>+Inf\<close> bucket.
\<close>

theorem histogram_cumulative:
  assumes "length obs < 2 ^ 64" and "sorted bounds"
  shows "let h = fold observe obs (Histogram_new bounds)
    in unat (h_count h) = length obs
       \<and> map unat (h_buckets h) = map (\<lambda>b. length (filter (\<lambda>x. x \<le> b) obs)) bounds
       \<and> sorted (map unat (h_buckets h)) \<and> (\<forall>n \<in> set (map unat (h_buckets h)). n \<le> unat (h_count h))"
proof -
  have u: "unat (word_of_nat (length (filter P obs)) :: u64) = length (filter P obs)" for P
    using assms(1) by (intro unat_of_nat_small) (simp add: le_less_trans [OF length_filter_le])
  have m: "map unat (map (\<lambda>b. word_of_nat (length (filter (\<lambda>x. x \<le> b) obs)) :: u64) bounds) =
      map (\<lambda>b. length (filter (\<lambda>x. x \<le> b) obs)) bounds"
    by (simp add: u)
  have "sorted (map (\<lambda>b. length (filter (\<lambda>x. x \<le> b) obs)) bounds)"
    using assms(2) by (induction bounds) (auto intro!: length_filter_mono)
  then show ?thesis
    unfolding Let_def observe_all
    using m assms(1) unat_of_nat_small [where 'a = 64, of "length obs"] by (simp add: u comp_def)
qed

theorem histogram_cumulative_witness:
  "map unat (h_buckets (fold observe [3/1000, 1/100, 1/2, 5] (Histogram_new [5/1000, 1/100, 1/2, 1]))) = [1, 2, 3, 3]"
  using histogram_cumulative [of "[3/1000, 1/100, 1/2, 5]" "[5/1000, 1/100, 1/2, 1]"] by (simp add: Let_def)

end
