(* ===== verification/Rate_Limiter.thy ===== *)
theory Rate_Limiter
  imports Prelude
begin

text \<open>
  The sliding-window rate limiter of \<open>tunnel.rs\<close>. An \<open>Instant\<close> and a \<open>Duration\<close> are
  nanoseconds; \<open>duration_since\<close> stops at zero, as subtraction on \<open>nat\<close> does. One call holds the
  mutex from the reading of the clock to the end, so the calls on a limiter are a sequence with
  non-decreasing times.

  The specification keeps the whole history of admitted connections and admits a new one if
  fewer than \<open>max\<close> of them lie in the window; the code keeps one pruned queue per address and
  compares a \<open>u32\<close> cast of its length. The simulation \<open>limiter_sim\<close> relates the two, and the
  window bound is then proved of the specification.
\<close>

section \<open>The code\<close>

record RateLimiter =
  rl_inner :: "string \<rightharpoonup> nat list"
  rl_max :: u32
  rl_window :: nat

definition RateLimiter_new :: "u32 \<Rightarrow> nat \<Rightarrow> RateLimiter" where
  "RateLimiter_new mx window = \<lparr>rl_inner = Map.empty, rl_max = mx, rl_window = window\<rparr>"

definition check_and_record :: "nat \<Rightarrow> string \<Rightarrow> RateLimiter \<Rightarrow> bool \<times> RateLimiter" where
  "check_and_record now ip rl =
     (if rl_max rl = 0 then (True, rl)
      else
        let queue = (case rl_inner rl ip of None \<Rightarrow> [] | Some q \<Rightarrow> q);
            queue = filter (\<lambda>t. now - t < rl_window rl) queue
        in if (word_of_nat (length queue) :: u32) \<ge> rl_max rl
           then (False, rl\<lparr>rl_inner := (rl_inner rl)(ip \<mapsto> queue)\<rparr>)
           else (True, rl\<lparr>rl_inner := (rl_inner rl)(ip \<mapsto> queue @ [now])\<rparr>))"

text \<open>A sequence of calls, with the decision of each.\<close>

fun run_limiter :: "(nat \<times> string) list \<Rightarrow> RateLimiter \<Rightarrow> bool list" where
  "run_limiter [] rl = []"
| "run_limiter ((now, ip) # calls) rl =
     (case check_and_record now ip rl of (ok, rl') \<Rightarrow> ok # run_limiter calls rl')"

section \<open>The specification\<close>

definition spec_allows :: "nat \<Rightarrow> nat \<Rightarrow> (nat \<times> string) list \<Rightarrow> nat \<Rightarrow> string \<Rightarrow> bool" where
  "spec_allows mx window admitted now ip \<longleftrightarrow>
     mx = 0 \<or> length (filter (\<lambda>(t, i). i = ip \<and> now - t < window) admitted) < mx"

fun run_spec :: "nat \<Rightarrow> nat \<Rightarrow> (nat \<times> string) list \<Rightarrow> (nat \<times> string) list \<Rightarrow> bool list" where
  "run_spec mx window admitted [] = []"
| "run_spec mx window admitted ((now, ip) # calls) =
     (if spec_allows mx window admitted now ip
      then True # run_spec mx window (admitted @ [(now, ip)]) calls
      else False # run_spec mx window admitted calls)"

text \<open>The admitted connections of a run: the calls with a positive decision.\<close>

definition admitted_by :: "bool list \<Rightarrow> (nat \<times> string) list \<Rightarrow> (nat \<times> string) list" where
  "admitted_by oks calls = map snd (filter fst (zip oks calls))"

section \<open>Simulation\<close>

definition queue_of :: "RateLimiter \<Rightarrow> string \<Rightarrow> nat list" where
  "queue_of rl ip = (case rl_inner rl ip of None \<Rightarrow> [] | Some q \<Rightarrow> q)"

definition limiter_sim :: "nat \<Rightarrow> (nat \<times> string) list \<Rightarrow> RateLimiter \<Rightarrow> bool" where
  "limiter_sim now admitted rl \<longleftrightarrow>
     (\<forall>ip n. now \<le> n \<longrightarrow>
        filter (\<lambda>t. n - t < rl_window rl) (queue_of rl ip)
          = map fst (filter (\<lambda>(t, i). i = ip \<and> n - t < rl_window rl) admitted))
     \<and> (\<forall>ip. length (queue_of rl ip) \<le> unat (rl_max rl))"

lemma limiter_simD:
  "limiter_sim now admitted rl \<Longrightarrow> now \<le> n \<Longrightarrow>
     filter (\<lambda>t. n - t < rl_window rl) (queue_of rl ip)
       = map fst (filter (\<lambda>(t, i). i = ip \<and> n - t < rl_window rl) admitted)"
  by (simp add: limiter_sim_def)

lemma limiter_sim_new: "limiter_sim now [] (RateLimiter_new mx window)"
  by (simp add: limiter_sim_def RateLimiter_new_def queue_of_def)

lemma prune_absorb:
  "(now :: nat) \<le> n \<Longrightarrow>
     filter (\<lambda>t. now - t < w \<and> n - t < w) q = filter (\<lambda>t. n - t < w) q"
  by (rule filter_cong) auto

lemma u32_length_compare:
  "length q \<le> unat (m :: u32) \<Longrightarrow> (word_of_nat (length q) :: u32) \<ge> m \<longleftrightarrow> unat m \<le> length q"
  using unat_less_2p [of m] by (simp add: word_le_nat_alt unat_of_nat_small)

lemma check_decides:
  assumes "limiter_sim now0 admitted rl" and "now0 \<le> now"
  shows "fst (check_and_record now ip rl)
    = spec_allows (unat (rl_max rl)) (rl_window rl) admitted now ip"
proof (cases "rl_max rl = 0")
  case True
  then show ?thesis by (simp add: check_and_record_def spec_allows_def)
next
  case False
  let ?q = "filter (\<lambda>t. now - t < rl_window rl) (queue_of rl ip)"
  have "length ?q \<le> unat (rl_max rl)"
    using assms(1) by (auto simp: limiter_sim_def intro: order_trans [OF length_filter_le])
  moreover have "length ?q
      = length (filter (\<lambda>(t, i). i = ip \<and> now - t < rl_window rl) admitted)"
    using limiter_simD [OF assms] by simp
  moreover have "fst (check_and_record now ip rl) \<longleftrightarrow> \<not> (word_of_nat (length ?q) :: u32) \<ge> rl_max rl"
    using False by (simp add: check_and_record_def queue_of_def Let_def)
  ultimately show ?thesis
    using False by (auto simp: u32_length_compare spec_allows_def unat_eq_zero)
qed

lemma check_keeps_sim:
  assumes "limiter_sim now0 admitted rl" and "now0 \<le> now"
    and "check_and_record now ip rl = (ok, rl')" and "rl_max rl \<noteq> 0"
  shows "limiter_sim now (if ok then admitted @ [(now, ip)] else admitted) rl'"
proof -
  let ?q = "filter (\<lambda>t. now - t < rl_window rl) (queue_of rl ip)"
  have len: "length ?q \<le> unat (rl_max rl)"
    using assms(1) by (auto simp: limiter_sim_def intro: order_trans [OF length_filter_le])
  have rl': "rl' = rl\<lparr>rl_inner := (rl_inner rl)(ip \<mapsto> if ok then ?q @ [now] else ?q)\<rparr>"
    and ok: "ok \<Longrightarrow> length ?q < unat (rl_max rl)"
    using assms(3,4) u32_length_compare [OF len]
    by (auto simp: check_and_record_def queue_of_def Let_def split: if_splits)
  have "filter (\<lambda>t. n - t < rl_window rl) (queue_of rl' i)
      = map fst (filter (\<lambda>(t, j). j = i \<and> n - t < rl_window rl)
          (if ok then admitted @ [(now, ip)] else admitted))" if "now \<le> n" for i n
  proof -
    have "now0 \<le> n" using assms(2) that by simp
    from limiter_simD [OF assms(1) this, of i] that show ?thesis
      by (auto simp: rl' queue_of_def prune_absorb)
  qed
  moreover have "length (queue_of rl' i) \<le> unat (rl_max rl)" for i
    using assms(1) len ok by (auto simp: rl' queue_of_def limiter_sim_def)
  ultimately show ?thesis by (simp add: limiter_sim_def rl')
qed

lemma check_config:
  "check_and_record now ip rl = (ok, rl') \<Longrightarrow> rl_max rl' = rl_max rl \<and> rl_window rl' = rl_window rl"
  by (auto simp: check_and_record_def Let_def split: if_splits)

lemma run_refines_spec:
  assumes "limiter_sim now0 admitted rl" and "sorted (now0 # map fst calls)"
  shows "run_limiter calls rl = run_spec (unat (rl_max rl)) (rl_window rl) admitted calls"
  using assms
proof (induction calls arbitrary: now0 admitted rl)
  case Nil
  then show ?case by simp
next
  case (Cons c calls)
  obtain now ip where c: "c = (now, ip)" by (cases c)
  obtain ok rl' where chk: "check_and_record now ip rl = (ok, rl')" by fastforce
  from Cons.prems(2) have le: "now0 \<le> now" and srt: "sorted (now # map fst calls)"
    by (auto simp: c)
  have ok: "ok = spec_allows (unat (rl_max rl)) (rl_window rl) admitted now ip"
    using check_decides [OF Cons.prems(1) le, of ip] chk by simp
  show ?case
  proof (cases "rl_max rl = 0")
    case True
    then have "rl' = rl" and "ok" using chk by (simp_all add: check_and_record_def)
    have any: "run_limiter xs rl = map (\<lambda>_. True) xs \<and> run_spec 0 w h xs = map (\<lambda>_. True) xs" for xs w h
      using True by (induction xs arbitrary: h) (auto simp: check_and_record_def spec_allows_def)
    from any [of "c # calls"] True show ?thesis by simp
  next
    case False
    have "limiter_sim now (if ok then admitted @ [(now, ip)] else admitted) rl'"
      by (rule check_keeps_sim [OF Cons.prems(1) le chk False])
    from Cons.IH [OF this srt] ok check_config [OF chk] show ?thesis
      by (auto simp: c chk)
  qed
qed

section \<open>The window bound of the specification\<close>

lemma admitted_by_Cons [simp]:
  "admitted_by (ok # oks) (c # calls) = (if ok then c # admitted_by oks calls else admitted_by oks calls)"
  by (simp add: admitted_by_def)

definition window_bounded :: "nat \<Rightarrow> nat \<Rightarrow> (nat \<times> string) list \<Rightarrow> bool" where
  "window_bounded mx window admitted \<longleftrightarrow>
     (\<forall>ip t0. length (filter (\<lambda>(t, i). i = ip \<and> t0 \<le> t \<and> t < t0 + window) admitted) \<le> mx)"

lemma window_bounded_snoc:
  assumes "window_bounded mx w h" and "0 < mx" and "spec_allows mx w h now ip"
    and "\<forall>(t, i) \<in> set h. t \<le> now"
  shows "window_bounded mx w (h @ [(now, ip)])"
  unfolding window_bounded_def
proof (intro allI)
  fix i t0
  show "length (filter (\<lambda>(t, j). j = i \<and> t0 \<le> t \<and> t < t0 + w) (h @ [(now, ip)])) \<le> mx"
  proof (cases "i = ip \<and> t0 \<le> now \<and> now < t0 + w")
    case True
    have "length (filter (\<lambda>(t, j). j = i \<and> t0 \<le> t \<and> t < t0 + w) h)
        \<le> length (filter (\<lambda>(t, j). j = ip \<and> now - t < w) h)"
      using True assms(4) by (intro length_filter_mono) auto
    also have "\<dots> < mx" using assms(2,3) by (simp add: spec_allows_def)
    finally show ?thesis using True by simp
  next
    case False
    with assms(1) show ?thesis by (auto simp: window_bounded_def)
  qed
qed

lemma run_spec_window_bounded:
  assumes "0 < mx" and "window_bounded mx w h" and "sorted (map fst (h @ calls))"
  shows "window_bounded mx w (h @ admitted_by (run_spec mx w h calls) calls)"
  using assms(2,3)
proof (induction calls arbitrary: h)
  case Nil
  then show ?case by (simp add: admitted_by_def)
next
  case (Cons c calls)
  obtain now ip where c: "c = (now, ip)" by (cases c)
  have le: "\<forall>(t, i) \<in> set h. t \<le> now"
    using Cons.prems(2) by (auto simp: c sorted_append)
  show ?case
  proof (cases "spec_allows mx w h now ip")
    case True
    have "window_bounded mx w (h @ [(now, ip)])"
      by (rule window_bounded_snoc [OF Cons.prems(1) assms(1) True le])
    from Cons.IH [OF this] Cons.prems(2) True show ?thesis
      by (simp add: c)
  next
    case False
    have "sorted (map fst (h @ calls))"
      using Cons.prems(2) by (simp add: sorted_append)
    from Cons.IH [OF Cons.prems(1) this] False show ?thesis
      by (simp add: c)
  qed
qed

section \<open>Properties\<close>

text \<open>
  Claim C11. Refinement: on every sequence of calls with non-decreasing clock readings the limiter
  decides as the specification, which admits a connection exactly if fewer than \<open>max\<close> admitted
  ones of the same address are younger than the window (and always when \<open>max\<close> is 0). The pruned
  queues and the \<open>u32\<close> comparison lose nothing.
\<close>

theorem rate_limiter_refines:
  assumes "sorted (map fst calls)"
  shows "run_limiter calls (RateLimiter_new mx window) = run_spec (unat mx) window [] calls"
  using run_refines_spec [OF limiter_sim_new, of 0 calls mx window] assms
  by (simp add: RateLimiter_new_def)

theorem rate_limiter_refines_witness:
  "run_limiter [(0, ''a''), (5, ''a''), (6, ''b''), (7, ''a''), (15, ''a'')] (RateLimiter_new 2 10)
     = run_spec 2 10 [] [(0, ''a''), (5, ''a''), (6, ''b''), (7, ''a''), (15, ''a'')]"
  using rate_limiter_refines [of "[(0, ''a''), (5, ''a''), (6, ''b''), (7, ''a''), (15, ''a'')]" 2 10]
  by simp

text \<open>
  The window bound: over any sequence of calls with non-decreasing times, no half-open
  interval of the window's length holds more than \<open>max\<close> admitted connections of one address.
\<close>

theorem rate_limiter_window:
  assumes "sorted (map fst calls)" and "mx \<noteq> 0"
  shows "length (filter (\<lambda>(t, i). i = ip \<and> t0 \<le> t \<and> t < t0 + window)
           (admitted_by (run_limiter calls (RateLimiter_new mx window)) calls)) \<le> unat mx"
proof -
  have "0 < unat mx" using assms(2) by (simp add: unat_gt_0)
  moreover have "window_bounded (unat mx) window []" by (simp add: window_bounded_def)
  ultimately have "window_bounded (unat mx) window ([] @ admitted_by (run_spec (unat mx) window [] calls) calls)"
    using assms(1) by (intro run_spec_window_bounded) simp_all
  moreover have "run_limiter calls (RateLimiter_new mx window) = run_spec (unat mx) window [] calls"
    using run_refines_spec [OF limiter_sim_new, of 0 calls mx window] assms(1)
    by (simp add: RateLimiter_new_def)
  ultimately show ?thesis by (simp add: window_bounded_def)
qed

theorem rate_limiter_window_witness:
  "length (filter (\<lambda>(t, i). i = ''a'' \<and> (0::nat) \<le> t \<and> t < 0 + 10)
     (admitted_by (run_limiter [(0, ''a''), (5, ''a''), (7, ''a'')] (RateLimiter_new 2 10))
        [(0, ''a''), (5, ''a''), (7, ''a'')])) \<le> unat (2 :: u32)"
  using rate_limiter_window [of "[(0, ''a''), (5, ''a''), (7, ''a'')]" 2 "''a''" 0 10] by simp

end
