(* ===== verification/Codec.thy ===== *)
theory Codec
  imports Prelude
begin

unbundle bit_operations_syntax

text \<open>
  The wire protocol of \<open>seamless-common\<close>: the frames and the length-prefixed framing.

  \<open>bincode\<close> is a dependency, so its two functions are parameters: \<open>serialize\<close> (\<open>None\<close> is an
  error) and \<open>deserialize\<close>. A theorem that needs them to fit together says so
  (\<open>bincode_law\<close>). An async reader is the bytes that will arrive and what ends them; an
  async writer is the bytes written so far, how many more it takes before it fails, and whether
  its flush succeeds.
\<close>

section \<open>Frames\<close>

datatype TunnelKind = Http "string option" | Tcp u16

datatype ControlFrame =
    Register u8 "string option" TunnelKind
  | Registered string
  | NewConn string
  | Ping
  | Error u16 string

definition PROTOCOL_VERSION :: u8 where
  "PROTOCOL_VERSION = 1"

definition MAX_FRAME_BYTES :: u32 where
  "MAX_FRAME_BYTES = 64 * 1024"

datatype IoError = UnexpectedEof | OtherIo string

datatype CodecError = Io IoError | TooLarge u32 | Decode | Eof

section \<open>Byte streams\<close>

record reader =
  rd_bytes :: "u8 list"
  rd_end :: "IoError option"

record writer =
  wr_out :: "u8 list"
  wr_room :: "nat option"
  wr_flush_ok :: bool

definition read_exact :: "nat \<Rightarrow> reader \<Rightarrow> (IoError + u8 list) \<times> reader" where
  "read_exact n r =
     (if n \<le> length (rd_bytes r)
      then (Inr (take n (rd_bytes r)), r\<lparr>rd_bytes := drop n (rd_bytes r)\<rparr>)
      else (Inl (case rd_end r of None \<Rightarrow> UnexpectedEof | Some e \<Rightarrow> e), r\<lparr>rd_bytes := []\<rparr>))"

definition write_all :: "u8 list \<Rightarrow> writer \<Rightarrow> (IoError + unit) \<times> writer" where
  "write_all bs w =
     (case wr_room w of
        None \<Rightarrow> (Inr (), w\<lparr>wr_out := wr_out w @ bs\<rparr>)
      | Some n \<Rightarrow>
          if length bs \<le> n
          then (Inr (), w\<lparr>wr_out := wr_out w @ bs, wr_room := Some (n - length bs)\<rparr>)
          else (Inl (OtherIo ''write''), w\<lparr>wr_out := wr_out w @ take n bs, wr_room := Some 0\<rparr>))"

definition flush :: "writer \<Rightarrow> (IoError + unit) \<times> writer" where
  "flush w = ((if wr_flush_ok w then Inr () else Inl (OtherIo ''flush'')), w)"

definition to_be_bytes :: "u32 \<Rightarrow> u8 list" where
  "to_be_bytes w = [ucast (drop_bit 24 w), ucast (drop_bit 16 w), ucast (drop_bit 8 w), ucast w]"

definition from_be_bytes :: "u8 list \<Rightarrow> u32" where
  "from_be_bytes bs = foldl (\<lambda>n b. push_bit 8 n OR ucast b) 0 bs"

section \<open>write\_frame and read\_frame\<close>

definition write_frame ::
  "(ControlFrame \<Rightarrow> u8 list option) \<Rightarrow> ControlFrame \<Rightarrow> writer \<Rightarrow> (CodecError + unit) \<times> writer" where
  "write_frame serialize frame w =
     (case serialize frame of
        None \<Rightarrow> (Inl Decode, w)
      | Some body \<Rightarrow>
          if length body \<ge> 2 ^ 32 then (Inl (TooLarge (-1)), w)
          else let len = (word_of_nat (length body) :: u32)
               in if len > MAX_FRAME_BYTES then (Inl (TooLarge len), w)
                  else (case write_all (to_be_bytes len) w of
                          (Inl e, w) \<Rightarrow> (Inl (Io e), w)
                        | (Inr _, w) \<Rightarrow>
                            (case write_all body w of
                               (Inl e, w) \<Rightarrow> (Inl (Io e), w)
                             | (Inr _, w) \<Rightarrow>
                                 (case flush w of
                                    (Inl e, w) \<Rightarrow> (Inl (Io e), w)
                                  | (Inr _, w) \<Rightarrow> (Inr (), w)))))"

definition read_frame ::
  "(u8 list \<Rightarrow> ControlFrame option) \<Rightarrow> reader \<Rightarrow> (CodecError + ControlFrame) \<times> reader" where
  "read_frame deserialize r =
     (case read_exact 4 r of
        (Inl e, r) \<Rightarrow> (Inl (if e = UnexpectedEof then Eof else Io e), r)
      | (Inr len_buf, r) \<Rightarrow>
          let len = from_be_bytes len_buf
          in if len > MAX_FRAME_BYTES then (Inl (TooLarge len), r)
             else (case read_exact (unat len) r of
                     (Inl e, r) \<Rightarrow> (Inl (Io e), r)
                   | (Inr body, r) \<Rightarrow>
                       (case deserialize body of
                          None \<Rightarrow> (Inl Decode, r)
                        | Some f \<Rightarrow> (Inr f, r))))"

section \<open>Fixed-width encodings\<close>

text \<open>The contract of an integer's big-endian form, and what follows for a value in front of
  other bytes.\<close>

locale byte_code =
  fixes enc :: "'a \<Rightarrow> u8 list" and dec :: "u8 list \<Rightarrow> 'a" and width :: nat
  assumes length_enc: "length (enc x) = width"
    and dec_enc: "dec (enc x) = x"
begin

lemma take_enc: "take width (enc x @ r) = enc x"
  by (simp add: length_enc)

lemma drop_enc: "drop width (enc x @ r) = r"
  by (simp add: length_enc)

lemma enc_inj: "enc x = enc y \<longleftrightarrow> x = y"
  by (metis dec_enc)

end

interpretation be32: byte_code to_be_bytes from_be_bytes 4
proof
  show "length (to_be_bytes x) = 4" for x by (simp add: to_be_bytes_def)
  show "from_be_bytes (to_be_bytes x) = x" for x
  proof (rule bit_word_eqI)
    fix n assume "n < LENGTH(32)"
    then show "bit (from_be_bytes (to_be_bytes x)) n = bit x n"
      by (cases "n < 8"; cases "n < 16"; cases "n < 24")
         (auto simp: from_be_bytes_def to_be_bytes_def bit_simps)
  qed
qed

section \<open>Framing lemmas\<close>

definition bincode_law ::
  "(ControlFrame \<Rightarrow> u8 list option) \<Rightarrow> (u8 list \<Rightarrow> ControlFrame option) \<Rightarrow> bool" where
  "bincode_law serialize deserialize \<longleftrightarrow>
     (\<forall>f body. serialize f = Some body \<longrightarrow> deserialize body = Some f)"

lemma unat_max_frame: "unat MAX_FRAME_BYTES = 65536"
  by (simp add: MAX_FRAME_BYTES_def)

lemma write_all_ok:
  "write_all bs w = (Inr (), w') \<Longrightarrow> wr_out w' = wr_out w @ bs \<and> wr_flush_ok w' = wr_flush_ok w"
  by (auto simp: write_all_def split: option.splits if_splits)

lemma write_frame_ok:
  assumes "write_frame serialize f w = (Inr (), w')"
  obtains body where "serialize f = Some body" "length body \<le> 65536"
    "wr_out w' = wr_out w @ to_be_bytes (word_of_nat (length body)) @ body"
proof -
  from assms obtain body where body: "serialize f = Some body"
    by (auto simp: write_frame_def split: option.splits)
  with assms have fit: "\<not> length body \<ge> 2 ^ 32"
    and le: "\<not> (word_of_nat (length body) :: u32) > MAX_FRAME_BYTES"
    by (auto simp: write_frame_def Let_def split: if_splits)
  from fit have "unat (word_of_nat (length body) :: u32) = length body"
    by (simp add: unat_of_nat_small)
  with le have len: "length body \<le> 65536"
    by (simp add: not_less word_le_nat_alt unat_max_frame)
  from assms body fit le have "wr_out w' = wr_out w @ to_be_bytes (word_of_nat (length body)) @ body"
    by (auto simp: write_frame_def Let_def flush_def split: prod.splits sum.splits if_splits
        dest!: write_all_ok)
  with body len that show thesis by blast
qed

lemma read_exact_append:
  "read_exact (length a) \<lparr>rd_bytes = a @ b, rd_end = e\<rparr> = (Inr a, \<lparr>rd_bytes = b, rd_end = e\<rparr>)"
  by (simp add: read_exact_def)

lemma read_frame_framed:
  assumes "length body \<le> 65536" and "deserialize body = Some f"
  shows "read_frame deserialize
      \<lparr>rd_bytes = to_be_bytes (word_of_nat (length body)) @ body @ rest, rd_end = e\<rparr>
    = (Inr f, \<lparr>rd_bytes = rest, rd_end = e\<rparr>)"
proof -
  let ?len = "word_of_nat (length body) :: u32"
  have u: "unat ?len = length body" using assms(1) by (simp add: unat_of_nat_small)
  have hdr: "read_exact 4 \<lparr>rd_bytes = to_be_bytes ?len @ body @ rest, rd_end = e\<rparr>
      = (Inr (to_be_bytes ?len), \<lparr>rd_bytes = body @ rest, rd_end = e\<rparr>)"
    using read_exact_append [of "to_be_bytes ?len"] by (simp add: be32.length_enc)
  have "\<not> ?len > MAX_FRAME_BYTES"
    using assms(1) u by (simp add: not_less word_le_nat_alt unat_max_frame)
  then show ?thesis
    using assms(2) by (simp add: read_frame_def hdr be32.dec_enc u read_exact_append)
qed

section \<open>Properties\<close>

text \<open>
  Claim C10. Framing round trip: whatever \<open>write_frame\<close> puts on a stream, \<open>read_frame\<close> on the
  other side returns that frame and leaves exactly the bytes that follow it, for every frame and
  every continuation of the stream.
\<close>

theorem frame_roundtrip:
  assumes "bincode_law serialize deserialize"
    and "write_frame serialize f w = (Inr (), w')"
  shows "\<exists>bs. wr_out w' = wr_out w @ bs \<and>
    (\<forall>rest e. read_frame deserialize \<lparr>rd_bytes = bs @ rest, rd_end = e\<rparr>
       = (Inr f, \<lparr>rd_bytes = rest, rd_end = e\<rparr>))"
proof -
  obtain body where body: "serialize f = Some body" "length body \<le> 65536"
    and out: "wr_out w' = wr_out w @ to_be_bytes (word_of_nat (length body)) @ body"
    using write_frame_ok [OF assms(2)] .
  from assms(1) body(1) have "deserialize body = Some f" by (auto simp: bincode_law_def)
  with body(2) out show ?thesis
    by (intro exI [of _ "to_be_bytes (word_of_nat (length body)) @ body"])
       (simp add: read_frame_framed)
qed

text \<open>The law holds for a concrete coder of one frame, and a write to a fresh stream succeeds.\<close>

theorem frame_roundtrip_witness:
  "\<exists>bs. wr_out (snd (write_frame (\<lambda>f. if f = Ping then Some [3, 0, 0, 0] else None) Ping
        \<lparr>wr_out = [], wr_room = None, wr_flush_ok = True\<rparr>)) = bs \<and>
    (\<forall>rest e. read_frame (\<lambda>bs. if bs = [3, 0, 0, 0] then Some Ping else None)
        \<lparr>rd_bytes = bs @ rest, rd_end = e\<rparr> = (Inr Ping, \<lparr>rd_bytes = rest, rd_end = e\<rparr>))"
proof -
  let ?s = "\<lambda>f. if f = Ping then Some [3, 0, 0, 0 :: u8] else None"
  let ?d = "\<lambda>bs. if bs = [3, 0, 0, 0 :: u8] then Some Ping else None"
  let ?w = "\<lparr>wr_out = [], wr_room = None, wr_flush_ok = True\<rparr>"
  have "bincode_law ?s ?d" by (simp add: bincode_law_def)
  moreover have "write_frame ?s Ping ?w = (Inr (), snd (write_frame ?s Ping ?w))"
    by (simp add: write_frame_def write_all_def flush_def MAX_FRAME_BYTES_def)
  ultimately show ?thesis using frame_roundtrip [of ?s ?d Ping ?w] by simp
qed

text \<open>
  The size limit on both sides. A writer never emits more than \<open>4 + 65536\<close> bytes per
  frame and writes nothing at all for an oversized frame; a reader that sees a larger length in
  the prefix stops right after the four prefix bytes, with \<open>TooLarge\<close>.
\<close>

theorem frame_size_limit:
  "(case serialize f of Some body \<Rightarrow> length body > 65536 \<longrightarrow>
       (\<exists>n. write_frame serialize f w = (Inl (TooLarge n), w)) | None \<Rightarrow> True)
   \<and> (unat len > 65536 \<longrightarrow>
       read_frame deserialize \<lparr>rd_bytes = to_be_bytes len @ rest, rd_end = e\<rparr>
         = (Inl (TooLarge len), \<lparr>rd_bytes = rest, rd_end = e\<rparr>))"
proof (intro conjI impI)
  show "case serialize f of Some body \<Rightarrow> length body > 65536 \<longrightarrow>
       (\<exists>n. write_frame serialize f w = (Inl (TooLarge n), w)) | None \<Rightarrow> True"
  proof (cases "serialize f")
    case (Some body)
    have "unat (word_of_nat (length body) :: u32) = length body"
      if "\<not> length body \<ge> 2 ^ 32"
      using that by (simp add: unat_of_nat_small)
    with Some show ?thesis
      by (auto simp: write_frame_def Let_def word_less_nat_alt unat_max_frame)
  qed simp
next
  assume "unat len > 65536"
  moreover have "read_exact 4 \<lparr>rd_bytes = to_be_bytes len @ rest, rd_end = e\<rparr>
      = (Inr (to_be_bytes len), \<lparr>rd_bytes = rest, rd_end = e\<rparr>)"
    using read_exact_append [of "to_be_bytes len"] by (simp add: be32.length_enc)
  ultimately show "read_frame deserialize \<lparr>rd_bytes = to_be_bytes len @ rest, rd_end = e\<rparr>
         = (Inl (TooLarge len), \<lparr>rd_bytes = rest, rd_end = e\<rparr>)"
    by (simp add: read_frame_def be32.dec_enc word_less_nat_alt unat_max_frame)
qed

theorem frame_size_limit_witness:
  "read_frame (\<lambda>_. Some Ping) \<lparr>rd_bytes = to_be_bytes 65537 @ [1, 2], rd_end = None\<rparr>
     = (Inl (TooLarge 65537), \<lparr>rd_bytes = [1, 2], rd_end = None\<rparr>)
   \<and> (\<exists>n. write_frame (\<lambda>_. Some (replicate 65537 0)) Ping
        \<lparr>wr_out = [], wr_room = None, wr_flush_ok = True\<rparr>
      = (Inl (TooLarge n), \<lparr>wr_out = [], wr_room = None, wr_flush_ok = True\<rparr>))"
  using frame_size_limit [of "\<lambda>_. Some (replicate 65537 0)" Ping
      "\<lparr>wr_out = [], wr_room = None, wr_flush_ok = True\<rparr>" 65537 "\<lambda>_. Some Ping" "[1, 2]" None]
  by simp

end
