(* ===== verification/Tunnel.thy ===== *)
theory Tunnel
  imports Access Audit_Log Backends Metrics Rate_Limiter Codec
begin

text \<open>
  The life of a tunnel, \<open>tunnel.rs\<close>: \<open>handle_client\<close> with its admission checks, \<open>serve_http\<close> and
  \<open>serve_tcp\<close> up to the registration, the session loop, the clean-up on close, and the tasks of
  \<open>main.rs\<close> that end tunnels (maximum age, SIGTERM).

  The shared state of the handlers is one record. What the outside world contributes to one
  connection (the frame it sends, clocks, random draws, whether the operating system grants a
  port and whether the reply can be written) is the record \<open>ConnInput\<close>. A connection has a
  number, which stands for its \<open>SeamMux\<close>; \<open>signalled\<close> holds the numbers of those whose
  \<open>disconnect_rx\<close> has resolved, which happens when the sender is used and when the entry that
  owns it is dropped. Frames written to the control stream are returned in order.
\<close>

section \<open>State\<close>

record TunnelEntry =
  te_conn :: nat
  te_subdomain :: string
  te_custom_domain :: "string option"
  te_connected_at :: int
  te_client_ip :: string
  te_bytes_in :: u64
  te_bytes_out :: u64
  te_paused :: bool
  te_disconnect_tx :: bool
  te_backends :: "BackendEntry list"
  te_rr_counter :: u64
  te_ddos :: DDoSProtection
  te_recent_requests :: "RequestLog list"

record ConnCtx =
  base_domain :: string
  http_port :: u16
  https_port :: "u16 option"
  auth :: AuthPolicy
  max_tunnels_per_ip :: u32
  max_tunnels :: u32
  reserved_subdomains :: ReservedSubdomains
  subdomain_prefix :: SubdomainPrefix
  subdomain_length :: nat
  blocklist :: SubdomainBlocklist
  ip_denylist :: IpDenyList
  tunnel_keepalive :: u64
  webhook_url :: "string option"
  ct_eq_impl :: "string \<Rightarrow> string \<Rightarrow> u8"

record RelayState =
  tunnels :: "(string, TunnelEntry) hashmap"
  tcp_ports :: "u16 set"
  custom_domains :: "(string, string) hashmap"
  r_metrics :: Metrics
  r_rate_limiter :: RateLimiter
  r_audit :: AuditLog
  r_webhooks :: "json list"
  signalled :: "nat set"

datatype register_read = NoControlStream | FrameFailed CodecError | ReadTooSlow | OuterTimeout
  | GotFrame ControlFrame

record ConnInput =
  ci_conn :: nat
  ci_ip :: string
  ci_read :: register_read
  ci_now :: nat
  ci_unix :: int
  ci_handshake_ms :: u64
  ci_gen :: "nat \<Rightarrow> nat"
  ci_bind :: "u16 \<Rightarrow> bool"
  ci_port_draw :: "nat \<Rightarrow> u16"
  ci_reply_ok :: bool

datatype ConnError = IpDenylisted | ClientDropped | RegisterRead CodecError | SlowLoris | RegistrationTimeout
  | VersionMismatch | ExpectedRegister | AuthDenied string | RateLimited | PerIpLimit | CapReached
  | InvalidSubdomain string | ReservedName | PrefixViolation string | BlocklistedName | SubdomainTaken
  | BindFailed u16 | NoFreePort | ReplyFailed

text \<open>What the task of an open tunnel holds while it runs its loop.\<close>

record session =
  s_conn :: nat
  s_key :: string
  s_url :: string
  s_client_ip :: string
  s_connected_at :: int
  s_port :: "u16 option"
  s_custom_domain :: "string option"

section \<open>Helpers\<close>

abbreviation EM_DASH :: string where
  "EM_DASH \<equiv> [CHR 0xE2, CHR 0x80, CHR 0x94]"

definition quoted :: "string \<Rightarrow> string" where
  "quoted s = [CHR 0x27] @ s @ [CHR 0x27]"

definition show_word :: "'a::len word \<Rightarrow> string" where
  "show_word w = show_nat (unat w)"

definition upd_metrics :: "(Metrics \<Rightarrow> Metrics) \<Rightarrow> RelayState \<Rightarrow> RelayState" where
  "upd_metrics f st = st\<lparr>r_metrics := f (r_metrics st)\<rparr>"

definition audit :: "int \<Rightarrow> string \<Rightarrow> (string \<times> json) list \<Rightarrow> RelayState \<Rightarrow> RelayState" where
  "audit now name kvs st = st\<lparr>r_audit := audit_event True now name kvs (r_audit st)\<rparr>"

definition webhook_fire :: "ConnCtx \<Rightarrow> json \<Rightarrow> RelayState \<Rightarrow> RelayState" where
  "webhook_fire ctx body st =
     (case webhook_url ctx of None \<Rightarrow> st | Some _ \<Rightarrow> st\<lparr>r_webhooks := r_webhooks st @ [body]\<rparr>)"

text \<open>
  \<open>HashMap::insert\<close> and \<open>HashMap::remove\<close> on the tunnel map: an entry that leaves the map is
  dropped, and its receiver resolves.
\<close>

definition tunnels_insert :: "string \<Rightarrow> TunnelEntry \<Rightarrow> RelayState \<Rightarrow> RelayState" where
  "tunnels_insert key e st =
     st\<lparr>tunnels := AList.update key e (tunnels st),
        signalled := (case map_of (tunnels st) key of
                        Some old \<Rightarrow> insert (te_conn old) (signalled st) | None \<Rightarrow> signalled st)\<rparr>"

definition tunnels_remove :: "string \<Rightarrow> RelayState \<Rightarrow> RelayState" where
  "tunnels_remove key st =
     st\<lparr>tunnels := AList.delete key (tunnels st),
        signalled := (case map_of (tunnels st) key of
                        Some old \<Rightarrow> insert (te_conn old) (signalled st) | None \<Rightarrow> signalled st)\<rparr>"

section \<open>Admission\<close>

type_synonym 'a outcome = "(ConnError + 'a) \<times> ControlFrame list \<times> RelayState"

definition denylist_check :: "ConnCtx \<Rightarrow> ConnInput \<Rightarrow> bool" where
  "denylist_check ctx ci =
     (is_enabled (ip_denylist ctx)
      \<and> (case parse_ipaddr (ci_ip ci) of Some a \<Rightarrow> is_denied (ip_denylist ctx) a | None \<Rightarrow> False))"

definition read_register :: "register_read \<Rightarrow> ConnError + ControlFrame" where
  "read_register r =
     (case r of
        NoControlStream \<Rightarrow> Inl ClientDropped
      | FrameFailed e \<Rightarrow> Inl (RegisterRead e)
      | ReadTooSlow \<Rightarrow> Inl SlowLoris
      | OuterTimeout \<Rightarrow> Inl RegistrationTimeout
      | GotFrame f \<Rightarrow> Inr f)"

definition count_for_ip :: "string \<Rightarrow> RelayState \<Rightarrow> nat" where
  "count_for_ip ip st = length (filter (\<lambda>(k, e). te_client_ip e = ip) (tunnels st))"

definition per_ip_full :: "ConnCtx \<Rightarrow> string \<Rightarrow> RelayState \<Rightarrow> bool" where
  "per_ip_full ctx ip st =
     (max_tunnels_per_ip ctx > 0
      \<and> (word_of_nat (count_for_ip ip st) :: u32) \<ge> max_tunnels_per_ip ctx)"

definition cap_full :: "ConnCtx \<Rightarrow> RelayState \<Rightarrow> bool" where
  "cap_full ctx st =
     (max_tunnels ctx > 0 \<and> (word_of_nat (length (tunnels st)) :: u32) \<ge> max_tunnels ctx)"

definition auth_reason :: "AuthError \<Rightarrow> u16 \<times> string" where
  "auth_reason e = (case e of Required \<Rightarrow> (401, ''auth required'') | Invalid \<Rightarrow> (403, ''invalid token''))"

text \<open>
  \<open>handle_client\<close> up to its final \<open>match kind\<close>: the deny list, the registration frame, the
  protocol version, the token, the rate limiter, the limit per address and the global cap.
\<close>

definition admit :: "ConnCtx \<Rightarrow> ConnInput \<Rightarrow> RelayState \<Rightarrow> TunnelKind outcome" where
  "admit ctx ci st =
     (if denylist_check ctx ci
      then (Inl IpDenylisted, [],
            audit (ci_unix ci) ''ip.denylisted'' [(''client_ip'', JStr (ci_ip ci))]
              (upd_metrics inc_auth_failures st))
      else (case read_register (ci_read ci) of
        Inl e \<Rightarrow> (Inl e, [], st)
      | Inr (Register version token kind) \<Rightarrow>
          if version \<noteq> PROTOCOL_VERSION
          then (Inl VersionMismatch,
                [Error 400 (''protocol version '' @ show_word version @ '' unsupported'')], st)
          else (case AuthPolicy_check (ct_eq_impl ctx) (auth ctx) token of
            Inl e \<Rightarrow>
              let (code, msg) = auth_reason e
              in (Inl (AuthDenied msg), [Error code msg],
                  audit (ci_unix ci) ''auth.failure''
                    [(''client_ip'', JStr (ci_ip ci)), (''reason'', JStr msg)]
                    (upd_metrics inc_auth_failures st))
          | Inr _ \<Rightarrow>
              let st1 = upd_metrics (record_handshake_ms (ci_handshake_ms ci)) st;
                  (allowed_now, rl) = check_and_record (ci_now ci) (ci_ip ci) (r_rate_limiter st1);
                  st2 = st1\<lparr>r_rate_limiter := rl\<rparr>
              in if \<not> allowed_now
                 then (Inl RateLimited,
                       [Error 429 (''too many connections from your IP '' @ EM_DASH @ '' try again later'')],
                       upd_metrics inc_rate_limit_hits st2)
                 else if per_ip_full ctx (ci_ip ci) st2
                 then (Inl PerIpLimit,
                       [Error 429 (''tunnel limit reached for your IP ('' @ show_word (max_tunnels_per_ip ctx) @ '' max)'')],
                       upd_metrics inc_tunnel_per_ip_rejections st2)
                 else if cap_full ctx st2
                 then (Inl CapReached,
                       [Error 503 (''relay at capacity ('' @ show_word (max_tunnels ctx) @ '' tunnels) '' @ EM_DASH @ '' try again later'')],
                       upd_metrics inc_tunnel_cap_rejections st2)
                 else (Inr kind, [], st2))
      | Inr _ \<Rightarrow> (Inl ExpectedRegister, [], st)))"

section \<open>Opening an HTTP tunnel\<close>

definition check_requested ::
  "ConnCtx \<Rightarrow> string \<Rightarrow> (ConnError \<times> ControlFrame) option" where
  "check_requested ctx requested =
     (case validate_subdomain requested of
        Inl e \<Rightarrow> Some (InvalidSubdomain e, Error 400 e)
      | Inr _ \<Rightarrow>
          if is_reserved (reserved_subdomains ctx) requested
          then Some (ReservedName, Error 403 (''subdomain '' @ quoted requested @ '' is reserved and cannot be registered''))
          else (case SubdomainPrefix_check (subdomain_prefix ctx) requested of
                  Inl e \<Rightarrow> Some (PrefixViolation e, Error 403 e)
                | Inr _ \<Rightarrow>
                    if is_blocked (blocklist ctx) requested
                    then Some (BlocklistedName, Error 403 (''subdomain '' @ quoted requested @ '' is not available''))
                    else None))"

definition public_url :: "ConnCtx \<Rightarrow> string \<Rightarrow> string" where
  "public_url ctx sub =
     (case https_port ctx of
        Some port \<Rightarrow>
          if port = 443 then ''https://'' @ sub @ ''.'' @ base_domain ctx
          else ''https://'' @ sub @ ''.'' @ base_domain ctx @ '':'' @ show_word port
      | None \<Rightarrow>
          if http_port ctx = 80 then ''http://'' @ sub @ ''.'' @ base_domain ctx
          else ''http://'' @ sub @ ''.'' @ base_domain ctx @ '':'' @ show_word (http_port ctx))"

definition new_entry :: "ConnInput \<Rightarrow> string \<Rightarrow> TunnelEntry" where
  "new_entry ci key =
     \<lparr>te_conn = ci_conn ci, te_subdomain = key, te_custom_domain = None, te_connected_at = ci_unix ci,
      te_client_ip = ci_ip ci, te_bytes_in = 0, te_bytes_out = 0, te_paused = False,
      te_disconnect_tx = True, te_backends = [], te_rr_counter = 0,
      te_ddos = DDoSProtection_new (ci_now ci) 100 200, te_recent_requests = []\<rparr>"

definition open_http :: "ConnCtx \<Rightarrow> ConnInput \<Rightarrow> string option \<Rightarrow> RelayState \<Rightarrow> session outcome" where
  "open_http ctx ci subdomain st =
     (case (case subdomain of Some requested \<Rightarrow> check_requested ctx requested | None \<Rightarrow> None) of
        Some (e, frame) \<Rightarrow> (Inl e, [frame], upd_metrics inc_subdomain_invalid st)
      | None \<Rightarrow>
          let sub = (case subdomain of
                       Some s \<Rightarrow> s
                     | None \<Rightarrow> random_subdomain_with_length (ci_gen ci) (subdomain_length ctx));
              url = public_url ctx sub
          in if map_of (tunnels st) sub \<noteq> None
             then (Inl SubdomainTaken, [Error 409 (''subdomain '' @ quoted sub @ '' already registered'')], st)
             else let st1 = tunnels_insert sub (new_entry ci sub) st
                  in if \<not> ci_reply_ok ci then (Inl ReplyFailed, [], st1)
                     else (Inr \<lparr>s_conn = ci_conn ci, s_key = sub, s_url = url, s_client_ip = ci_ip ci,
                                s_connected_at = ci_unix ci, s_port = None, s_custom_domain = None\<rparr>,
                           [Registered url],
                           webhook_fire ctx (JObj [(''event'', JStr ''tunnel.connect''), (''kind'', JStr ''http''),
                               (''subdomain'', JStr sub), (''url'', JStr url), (''client_ip'', JStr (ci_ip ci))])
                             (audit (ci_unix ci) ''tunnel.open''
                                [(''kind'', JStr ''http''), (''subdomain'', JStr sub), (''url'', JStr url),
                                 (''client_ip'', JStr (ci_ip ci))] st1)))"

section \<open>Opening a TCP tunnel\<close>

text \<open>
  The loop of \<open>bind_random_port\<close>: at most 50 draws from 10000 to 59999, skipping ports of the
  relay's own set and ports the operating system refuses.
\<close>

fun bind_random_port :: "nat \<Rightarrow> (nat \<Rightarrow> u16) \<Rightarrow> (u16 \<Rightarrow> bool) \<Rightarrow> u16 set \<Rightarrow> (u16 \<times> u16 set) option" where
  "bind_random_port 0 draw os_bind in_use = None"
| "bind_random_port (Suc n) draw os_bind in_use =
     (let port = draw n
      in if port \<in> in_use then bind_random_port n draw os_bind in_use
         else if os_bind port then Some (port, insert port in_use)
         else bind_random_port n draw os_bind in_use)"

definition tcp_key :: "u16 \<Rightarrow> string" where
  "tcp_key port = ''tcp:'' @ show_word port"

definition bind_tcp :: "ConnInput \<Rightarrow> u16 \<Rightarrow> RelayState \<Rightarrow> ConnError + u16 \<times> RelayState" where
  "bind_tcp ci requested_port st =
     (if requested_port = 0
      then (case bind_random_port 50 (ci_port_draw ci) (ci_bind ci) (tcp_ports st) of
              None \<Rightarrow> Inl NoFreePort
            | Some (port, in_use) \<Rightarrow> Inr (port, st\<lparr>tcp_ports := in_use\<rparr>))
      else if ci_bind ci requested_port
      then Inr (requested_port, st\<lparr>tcp_ports := insert requested_port (tcp_ports st)\<rparr>)
      else Inl (BindFailed requested_port))"

definition open_tcp :: "ConnCtx \<Rightarrow> ConnInput \<Rightarrow> u16 \<Rightarrow> RelayState \<Rightarrow> session outcome" where
  "open_tcp ctx ci requested_port st =
     (case bind_tcp ci requested_port st of
        Inl e \<Rightarrow> (Inl e, [], st)
      | Inr (port, st1) \<Rightarrow>
          let url = ''tcp://'' @ base_domain ctx @ '':'' @ show_word port
          in if \<not> ci_reply_ok ci then (Inl ReplyFailed, [], st1)
             else let key = tcp_key port;
                      st2 = webhook_fire ctx (JObj [(''event'', JStr ''tunnel.connect''), (''kind'', JStr ''tcp''),
                              (''port'', JInt (uint port)), (''url'', JStr url), (''client_ip'', JStr (ci_ip ci))])
                            (audit (ci_unix ci) ''tunnel.open''
                               [(''kind'', JStr ''tcp''), (''port'', JInt (uint port)), (''url'', JStr url),
                                (''client_ip'', JStr (ci_ip ci))] st1)
                  in (Inr \<lparr>s_conn = ci_conn ci, s_key = key, s_url = url, s_client_ip = ci_ip ci,
                           s_connected_at = ci_unix ci, s_port = Some port, s_custom_domain = None\<rparr>,
                      [Registered url], tunnels_insert key (new_entry ci key) st2))"

text \<open>The whole of \<open>handle_client\<close> up to the session loop.\<close>

definition handle_client :: "ConnCtx \<Rightarrow> ConnInput \<Rightarrow> RelayState \<Rightarrow> session outcome" where
  "handle_client ctx ci st =
     (case admit ctx ci st of
        (Inl e, out, st1) \<Rightarrow> (Inl e, out, st1)
      | (Inr (Http subdomain), out, st1) \<Rightarrow> open_http ctx ci subdomain st1
      | (Inr (Tcp port), out, st1) \<Rightarrow> open_tcp ctx ci port st1)"

section \<open>The session loop\<close>

datatype ping_result = PingSent | PingError | PingTimeout

datatype session_event = DisconnectSignal | PingTick ping_result | ControlRead "nat option"

text \<open>
  The body of the \<open>select!\<close> loop: \<open>None\<close> to continue, \<open>Some keepalive_timeout\<close> to break. A read is
  \<open>Some n\<close> for \<open>n\<close> bytes and \<open>None\<close> for an error. With keep-alive off a ping has no deadline.
\<close>

fun session_event_step :: "u64 \<Rightarrow> session_event \<Rightarrow> bool option" where
  "session_event_step keepalive DisconnectSignal = Some False"
| "session_event_step keepalive (PingTick PingSent) = None"
| "session_event_step keepalive (PingTick PingError) = Some (keepalive > 0)"
| "session_event_step keepalive (PingTick PingTimeout) = (if keepalive > 0 then Some True else None)"
| "session_event_step keepalive (ControlRead None) = Some False"
| "session_event_step keepalive (ControlRead (Some n)) = (if n = 0 then Some False else None)"

fun session_loop :: "u64 \<Rightarrow> session_event list \<Rightarrow> bool option" where
  "session_loop keepalive [] = None"
| "session_loop keepalive (e # es) =
     (case session_event_step keepalive e of
        None \<Rightarrow> session_loop keepalive es
      | Some timeout \<Rightarrow> Some timeout)"

section \<open>Closing\<close>

text \<open>The end of \<open>serve_http\<close> and \<open>serve_tcp\<close>: \<open>bi\<close> and \<open>bo\<close> are the final byte counters.\<close>

definition close_fields :: "session \<Rightarrow> bool \<Rightarrow> int \<Rightarrow> u64 \<Rightarrow> u64 \<Rightarrow> (string \<times> json) list" where
  "close_fields s keepalive_timeout duration bi bo =
     (case s_port s of
        None \<Rightarrow> [(''kind'', JStr ''http''), (''subdomain'', JStr (s_key s))]
      | Some p \<Rightarrow> [(''kind'', JStr ''tcp''), (''port'', JInt (uint p))])
     @ (if keepalive_timeout then [] else [(''url'', JStr (s_url s))])
     @ [(''client_ip'', JStr (s_client_ip s)), (''duration_secs'', JInt duration),
        (''bytes_in'', JInt (uint bi)), (''bytes_out'', JInt (uint bo))]"

definition close_session ::
  "ConnCtx \<Rightarrow> session \<Rightarrow> bool \<Rightarrow> int \<Rightarrow> u64 \<Rightarrow> u64 \<Rightarrow> RelayState \<Rightarrow> RelayState" where
  "close_session ctx s keepalive_timeout now bi bo st =
     (let st1 = (case s_port s of
                   None \<Rightarrow>
                     (let st' = tunnels_remove (s_key s) st
                      in case s_custom_domain s of
                           Some cd \<Rightarrow> st'\<lparr>custom_domains := AList.delete cd (custom_domains st')\<rparr>
                         | None \<Rightarrow> st')
                 | Some p \<Rightarrow> tunnels_remove (s_key s) (st\<lparr>tcp_ports := tcp_ports st - {p}\<rparr>));
          duration = now - s_connected_at s;
          st2 = audit now (if keepalive_timeout then ''tunnel.keepalive_timeout'' else ''tunnel.close'')
                  (close_fields s keepalive_timeout duration bi bo) st1
      in webhook_fire ctx (JObj ([(''event'', JStr ''tunnel.disconnect'')]
           @ (case s_port s of
                None \<Rightarrow> [(''kind'', JStr ''http''), (''subdomain'', JStr (s_key s))]
              | Some p \<Rightarrow> [(''kind'', JStr ''tcp''), (''port'', JInt (uint p))])
           @ [(''url'', JStr (s_url s)), (''client_ip'', JStr (s_client_ip s)),
              (''duration_secs'', JInt duration)])) st2)"

section \<open>Tasks of main.rs that end tunnels\<close>

text \<open>\<open>i64::saturating_sub\<close> and the cast of the result to \<open>u64\<close>.\<close>

definition i64_saturating_sub :: "int \<Rightarrow> int \<Rightarrow> int" where
  "i64_saturating_sub a b = max (- (2 ^ 63)) (min (2 ^ 63 - 1) (a - b))"

definition tunnel_age :: "int \<Rightarrow> TunnelEntry \<Rightarrow> u64" where
  "tunnel_age now e = word_of_int (i64_saturating_sub now (te_connected_at e))"

text \<open>\<open>disconnect_tx.take()\<close> and \<open>send\<close>, followed by the removal from the map.\<close>

definition expire_tick :: "u64 \<Rightarrow> int \<Rightarrow> RelayState \<Rightarrow> RelayState" where
  "expire_tick max_age now st =
     (let expired = filter (\<lambda>(k, e). tunnel_age now e \<ge> max_age) (tunnels st)
      in fold (\<lambda>(key, e). tunnels_remove key) expired st)"

definition sigterm :: "RelayState \<Rightarrow> RelayState" where
  "sigterm st = st\<lparr>tunnels := [], signalled := signalled st \<union> (te_conn \<circ> snd) ` set (tunnels st)\<rparr>"

end
