(* ===== verification/Http.thy ===== *)
theory Http
  imports Denylist
begin

text \<open>
  The HTTP text handling of \<open>ingress.rs\<close>: the parsers of the header block, the header injection,
  the relay's own error responses, upstream addresses and the TLS fingerprint hash. A buffer is
  a byte string; \<open>str::from_utf8\<close> is \<open>utf8_valid\<close>, the check of well-formed UTF-8.
\<close>

unbundle bit_operations_syntax

section \<open>UTF-8\<close>

text \<open>The ranges the bytes after a lead byte must lie in.\<close>

definition utf8_lead :: "nat \<Rightarrow> (nat \<times> nat) list option" where
  "utf8_lead b =
     (if b < 128 then Some []
      else if 0xC2 \<le> b \<and> b \<le> 0xDF then Some [(0x80, 0xBF)]
      else if b = 0xE0 then Some [(0xA0, 0xBF), (0x80, 0xBF)]
      else if b = 0xED then Some [(0x80, 0x9F), (0x80, 0xBF)]
      else if 0xE1 \<le> b \<and> b \<le> 0xEF then Some [(0x80, 0xBF), (0x80, 0xBF)]
      else if b = 0xF0 then Some [(0x90, 0xBF), (0x80, 0xBF), (0x80, 0xBF)]
      else if b = 0xF4 then Some [(0x80, 0x8F), (0x80, 0xBF), (0x80, 0xBF)]
      else if 0xF1 \<le> b \<and> b \<le> 0xF3 then Some [(0x80, 0xBF), (0x80, 0xBF), (0x80, 0xBF)]
      else None)"

fun utf8_scan :: "(nat \<times> nat) list \<Rightarrow> string \<Rightarrow> bool" where
  "utf8_scan [] [] = True"
| "utf8_scan (_ # _) [] = False"
| "utf8_scan [] (c # cs) =
     (case utf8_lead (chr_code c) of None \<Rightarrow> False | Some ps \<Rightarrow> utf8_scan ps cs)"
| "utf8_scan ((lo, hi) # ps) (c # cs) = (lo \<le> chr_code c \<and> chr_code c \<le> hi \<and> utf8_scan ps cs)"

definition utf8_valid :: "string \<Rightarrow> bool" where
  "utf8_valid s = utf8_scan [] s"

section \<open>Parsers\<close>

text \<open>The first line with a colon whose part before it satisfies a test: what stands after it.\<close>

fun first_field :: "(string \<Rightarrow> bool) \<Rightarrow> string list \<Rightarrow> string option" where
  "first_field is_name [] = None"
| "first_field is_name (line # rest) =
     (case split_once CHR '':'' line of
        Some (name, value) \<Rightarrow> if is_name name then Some value else first_field is_name rest
      | None \<Rightarrow> first_field is_name rest)"

definition parse_host_header :: "string \<Rightarrow> string option" where
  "parse_host_header bytes =
     (if utf8_valid bytes
      then map_option trim (first_field (\<lambda>n. eq_ignore_ascii_case n ''host'') (split_crlf bytes))
      else None)"

definition parse_content_length :: "string \<Rightarrow> u64 option" where
  "parse_content_length bytes =
     (if utf8_valid bytes
      then Option.bind (first_field (\<lambda>n. eq_ignore_ascii_case n ''content-length'') (split_crlf bytes))
             (\<lambda>v. parse_u64 (trim v))
      else None)"

definition parse_request_line :: "string \<Rightarrow> string \<times> string" where
  "parse_request_line bytes =
     (if utf8_valid bytes
      then (case splitn 3 CHR '' '' (hd (split_crlf bytes)) of
              [] \<Rightarrow> (''?'', ''/'')
            | [m] \<Rightarrow> (m, ''/'')
            | m # p # _ \<Rightarrow> (m, p))
      else (''?'', ''/''))"

definition is_websocket_upgrade :: "string \<Rightarrow> bool" where
  "is_websocket_upgrade head =
     (utf8_valid head
      \<and> (let kvs = List.map_filter (split_once CHR '':'') (split_crlf head)
         in list_ex (\<lambda>(n, v). eq_ignore_ascii_case (trim n) ''upgrade''
                              \<and> eq_ignore_ascii_case (trim v) ''websocket'') kvs
            \<and> list_ex (\<lambda>(n, v). eq_ignore_ascii_case (trim n) ''connection''
                              \<and> contains_str (to_lowercase (trim v)) ''upgrade'') kvs))"

definition extract_subdomain :: "string \<Rightarrow> string \<Rightarrow> string option" where
  "extract_subdomain host base = strip_suffix (hd (split_char CHR '':'' host)) (''.'' @ base)"

definition parse_upstream_addr :: "string \<Rightarrow> string option" where
  "parse_upstream_addr url =
     (let stripped = trim_start_matches (trim_start_matches url ''https://'') ''http://'';
          host_port = hd (split_char CHR ''/'' stripped)
      in if host_port = [] then None
         else if CHR '':'' \<in> set host_port then Some host_port
         else let default_port = (if starts_with url ''https://'' then 443 else 80 :: nat)
              in Some (host_port @ '':'' @ show_nat default_port))"

section \<open>What the relay writes\<close>

definition hsts :: "bool \<Rightarrow> string" where
  "hsts is_https =
     (if is_https then ''Strict-Transport-Security: max-age=63072000; includeSubDomains'' @ CRLF else [])"

definition error_response :: "string \<Rightarrow> string \<Rightarrow> bool \<Rightarrow> string" where
  "error_response status body is_https =
     ''HTTP/1.1 '' @ status @ CRLF @ ''Content-Length: '' @ show_nat (length body) @ CRLF
     @ ''Content-Type: text/plain'' @ CRLF @ hsts is_https @ ''Connection: close'' @ CRLF @ CRLF @ body"

definition injected_headers :: "string \<Rightarrow> bool \<Rightarrow> string" where
  "injected_headers peer_ip is_https =
     ''X-Forwarded-For: '' @ peer_ip @ CRLF @ ''X-Real-IP: '' @ peer_ip @ CRLF
     @ ''X-Forwarded-Proto: '' @ (if is_https then ''https'' else ''http'') @ CRLF"

definition inject_forwarding_headers :: "string \<Rightarrow> string \<Rightarrow> bool \<Rightarrow> string" where
  "inject_forwarding_headers head peer_ip is_https =
     (case find_str head CRLF of
        Some i \<Rightarrow> take (i + 2) head @ injected_headers peer_ip is_https @ drop (i + 2) head
      | None \<Rightarrow> head)"

text \<open>The answer of the rate limiter in challenge mode, as the source spells it out.\<close>

definition challenge_response :: "u32 \<Rightarrow> string" where
  "challenge_response rps =
     ''HTTP/1.1 429 Too Many Requests'' @ CRLF @ ''Retry-After: 1'' @ CRLF
     @ ''X-RateLimit-Limit: '' @ show_nat (unat rps) @ CRLF @ ''X-RateLimit-Remaining: 0'' @ CRLF
     @ ''Content-Length: 25'' @ CRLF @ ''Content-Type: text/plain'' @ CRLF @ ''Connection: close'' @ CRLF @ CRLF
     @ ''rate limit exceeded'' @ [LF]"

definition fnv1a_32 :: "u8 list \<Rightarrow> u32" where
  "fnv1a_32 data = foldl (\<lambda>hash byte. (hash XOR ucast byte) * 16777619) 2166136261 data"

definition tls_connection_fingerprint :: "string option \<Rightarrow> string option \<Rightarrow> string" where
  "tls_connection_fingerprint protocol_version cipher_suite =
     (let protocol = (case protocol_version of Some v \<Rightarrow> v | None \<Rightarrow> ''Unknown'');
          cipher = (case cipher_suite of Some c \<Rightarrow> c | None \<Rightarrow> ''Unknown'');
          input = protocol @ [CHR 0x00] @ cipher;
          h = fnv1a_32 (map (\<lambda>c. word_of_nat (chr_code c)) input)
      in protocol @ '':'' @ cipher @ '':'' @ pad_left 8 CHR ''0'' (show_hex (unat h)))"

section \<open>UTF-8 and ASCII\<close>

definition ascii :: "string \<Rightarrow> bool" where
  "ascii s \<longleftrightarrow> (\<forall>c \<in> set s. chr_code c < 128)"

lemma utf8_ascii_append: "ascii a \<Longrightarrow> utf8_valid (a @ b) = utf8_valid b"
  by (induction a) (auto simp: ascii_def utf8_valid_def utf8_lead_def)

lemma utf8_ascii: "ascii a \<Longrightarrow> utf8_valid a"
  using utf8_ascii_append [of a "[]"] by (simp add: utf8_valid_def)

lemma utf8_valid_append: "utf8_scan ps a \<Longrightarrow> utf8_scan ps (a @ b) = utf8_valid b"
  by (induction ps a rule: utf8_scan.induct) (auto simp: utf8_valid_def split: option.splits)

section \<open>Lines\<close>

definition no_crlf :: "string \<Rightarrow> bool" where
  "no_crlf s \<longleftrightarrow> CR \<notin> set s \<and> LF \<notin> set s"

lemma split_crlf_aux_line:
  "no_crlf a \<Longrightarrow> split_crlf_aux acc (a @ CRLF @ rest) = (rev acc @ a) # split_crlf_aux [] rest"
proof (induction a arbitrary: acc)
  case Nil
  then show ?case by simp
next
  case (Cons x xs)
  then have "split_crlf_aux acc ((x # xs) @ CRLF @ rest) = split_crlf_aux (x # acc) (xs @ CRLF @ rest)"
    by (cases "xs @ CRLF @ rest") (auto simp: no_crlf_def)
  with Cons show ?case by (simp add: no_crlf_def)
qed

lemma split_crlf_line: "no_crlf a \<Longrightarrow> split_crlf (a @ CR # LF # rest) = a # split_crlf rest"
  using split_crlf_aux_line [of a "[]" rest] by (simp add: split_crlf_def)

lemma split_crlf_Nil [simp]: "split_crlf [] = [[]]"
  by (simp add: split_crlf_def)

definition lines_text :: "string list \<Rightarrow> string" where
  "lines_text ls = concat (map (\<lambda>l. l @ CRLF) ls)"

lemma split_crlf_lines:
  "\<forall>l \<in> set ls. no_crlf l \<Longrightarrow> split_crlf (lines_text ls @ rest) = ls @ split_crlf rest"
  by (induction ls) (auto simp: lines_text_def split_crlf_line)

lemma find_crlf: "no_crlf a \<Longrightarrow> find_str (a @ CR # LF # rest) CRLF = Some (length a)"
  by (induction a) (auto simp: no_crlf_def starts_with_def)

lemma first_field_append:
  "first_field p (xs @ ys) = (case first_field p xs of Some v \<Rightarrow> Some v | None \<Rightarrow> first_field p ys)"
  by (induction xs) (auto split: option.splits)

lemma first_field_skip: "first_field p [l] = None \<Longrightarrow> first_field p (l # rest) = first_field p rest"
  by (auto split: option.splits if_splits)

text \<open>An ASCII character ends every multi-byte sequence, so validity splits there.\<close>

lemma utf8_lead_high: "utf8_lead b = Some ps \<Longrightarrow> \<forall>(lo, hi) \<in> set ps. 128 \<le> lo"
  by (auto simp: utf8_lead_def split: if_splits)

lemma utf8_scan_split:
  "chr_code c < 128 \<Longrightarrow> \<forall>(lo, hi) \<in> set ps. 128 \<le> lo \<Longrightarrow>
   utf8_scan ps (a @ c # b) = (utf8_scan ps a \<and> utf8_valid b)"
proof (induction ps a rule: utf8_scan.induct)
  case 1
  then show ?case by (simp add: utf8_valid_def utf8_lead_def)
next
  case (2 p ps)
  then show ?case by (cases p) auto
next
  case (3 d cs)
  then show ?case using utf8_lead_high by (auto split: option.splits)
next
  case (4 lo hi ps d cs)
  then show ?case by auto
qed

lemma utf8_line_split: "utf8_valid (a @ LF # b) = (utf8_valid a \<and> utf8_valid b)"
  using utf8_scan_split [of LF "[]" a b] by (simp add: utf8_valid_def chr_code_def)

section \<open>The parsers on well-formed requests\<close>

text \<open>A request as a client writes it: the request line, the header fields, an empty line, the body.\<close>

definition field_line :: "string \<times> string \<Rightarrow> string" where
  "field_line f = fst f @ '':'' @ snd f"

definition request_text :: "string \<Rightarrow> (string \<times> string) list \<Rightarrow> string \<Rightarrow> string" where
  "request_text reqline fs body = lines_text (reqline # map field_line fs) @ CRLF @ body"

definition field_ok :: "string \<times> string \<Rightarrow> bool" where
  "field_ok f \<longleftrightarrow> no_crlf (fst f) \<and> no_crlf (snd f) \<and> CHR '':'' \<notin> set (fst f) \<and> ascii (fst f) \<and> utf8_valid (snd f)"

lemma field_line_split: "field_ok f \<Longrightarrow> split_once CHR '':'' (field_line f) = Some f"
  using split_once_append [of "CHR '':''" "fst f" "snd f"] by (simp add: field_line_def field_ok_def)

lemma no_crlf_field: "field_ok f \<Longrightarrow> no_crlf (field_line f)"
  by (auto simp: field_line_def field_ok_def no_crlf_def)

lemma first_field_lines:
  "\<forall>f \<in> set fs. field_ok f \<Longrightarrow>
   first_field p (map field_line fs) = map_option snd (find (\<lambda>f. p (fst f)) fs)"
  by (induction fs) (auto simp: field_line_split split: prod.splits)

lemma request_lines:
  assumes "no_crlf reqline" and "\<forall>f \<in> set fs. field_ok f"
  shows "split_crlf (request_text reqline fs body) = reqline # map field_line fs @ [] # split_crlf body"
proof -
  have "\<forall>l \<in> set (reqline # map field_line fs). no_crlf l" using assms no_crlf_field by auto
  then have "split_crlf (request_text reqline fs body) = (reqline # map field_line fs) @ split_crlf (CRLF @ body)"
    unfolding request_text_def by (rule split_crlf_lines)
  also have "split_crlf (CRLF @ body) = [] # split_crlf body"
    using split_crlf_line [of "[]" body] by (simp add: no_crlf_def)
  finally show ?thesis by simp
qed

lemma utf8_lines:
  "\<forall>l \<in> set ls. utf8_valid l \<Longrightarrow> utf8_valid (lines_text ls @ b) = utf8_valid b"
proof (induction ls)
  case Nil
  then show ?case by (simp add: lines_text_def)
next
  case (Cons l ls)
  have "utf8_valid (l @ [CR])"
    using Cons.prems utf8_valid_append [of "[]" l "[CR]"] utf8_ascii [of "[CR]"]
    by (simp add: utf8_valid_def ascii_def chr_code_def)
  then show ?case using Cons utf8_line_split [of "l @ [CR]" "lines_text ls @ b"] by (simp add: lines_text_def)
qed

lemma utf8_request:
  assumes "utf8_valid reqline" and "\<forall>f \<in> set fs. field_ok f"
  shows "utf8_valid (request_text reqline fs body) = utf8_valid body"
proof -
  have "utf8_valid (field_line f)" if "field_ok f" for f
    using that utf8_ascii_append [of "fst f @ '':''" "snd f"] by (auto simp: field_line_def field_ok_def ascii_def chr_code_def)
  then have "\<forall>l \<in> set (reqline # map field_line fs). utf8_valid l" using assms by auto
  then show ?thesis
    using utf8_ascii_append [of CRLF body] by (simp add: request_text_def utf8_lines ascii_def chr_code_def)
qed

text \<open>
  The Host header of a well-formed request is found whatever its case and place among the
  fields, and its value trimmed, but only if the body bytes that arrived with the header block
  are valid UTF-8: the parser looks at the whole buffer, and otherwise finds no Host at all.
\<close>

theorem host_header_found:
  assumes "no_crlf reqline" and "utf8_valid reqline" and "first_field is_host [reqline] = None"
    and "\<forall>f \<in> set fs. field_ok f" and "find (\<lambda>f. is_host (fst f)) fs = Some (name, v)"
    and "is_host = (\<lambda>n. eq_ignore_ascii_case n ''host'')"
  shows "parse_host_header (request_text reqline fs body) = (if utf8_valid body then Some (trim v) else None)"
proof -
  have "first_field is_host (split_crlf (request_text reqline fs body)) = Some v"
    unfolding request_lines [OF assms(1,4)] first_field_skip [OF assms(3)] first_field_append
      first_field_lines [OF assms(4)] assms(5) by simp
  then show ?thesis
    using utf8_request [OF assms(2,4)] by (simp add: parse_host_header_def assms(6))
qed

definition demo_request :: "string \<Rightarrow> string" where
  "demo_request body = request_text ''POST /u HTTP/1.1'' [(''HOST'', '' web.relay.test ''), (''Content-Length'', '' 2'')] body"

lemma demo_request_ok:
  "no_crlf ''POST /u HTTP/1.1''" "utf8_valid ''POST /u HTTP/1.1''"
  "first_field (\<lambda>n. eq_ignore_ascii_case n ''host'') [''POST /u HTTP/1.1''] = None"
  "\<forall>f \<in> set [(''HOST'', '' web.relay.test ''), (''Content-Length'', '' 2'')]. field_ok f"
  by (simp_all add: no_crlf_def utf8_ascii ascii_def chr_code_def field_ok_def split_once_def)

theorem host_header_found_witness:
  "parse_host_header (demo_request ''ok'') = Some ''web.relay.test''
   \<and> parse_host_header (demo_request [CHR 0xFF, CHR 0xD8]) = None"
proof -
  have f: "find (\<lambda>f. eq_ignore_ascii_case (fst f) ''host'') [(''HOST'', '' web.relay.test ''), (''Content-Length'', '' 2'')]
      = Some (''HOST'', '' web.relay.test '')"
    by (simp add: eq_ignore_ascii_case_def to_lowercase_def lower_char_def is_ascii_upper_def chr_code_def) code_simp
  have t: "trim '' web.relay.test '' = ''web.relay.test''" by code_simp
  have u: "utf8_valid ''ok''" "\<not> utf8_valid [CHR 0xFF, CHR 0xD8]"
    by (simp_all add: utf8_valid_def utf8_lead_def chr_code_def)
  show ?thesis
    unfolding demo_request_def
    using host_header_found [OF demo_request_ok f refl, of "''ok''"]
      host_header_found [OF demo_request_ok f refl, of "[CHR 0xFF, CHR 0xD8]"] t u by simp
qed

section \<open>Header injection\<close>

definition injected_fields :: "string \<Rightarrow> bool \<Rightarrow> (string \<times> string) list" where
  "injected_fields ip https =
     [(''X-Forwarded-For'', '' '' @ ip), (''X-Real-IP'', '' '' @ ip),
      (''X-Forwarded-Proto'', '' '' @ (if https then ''https'' else ''http''))]"

lemma injected_lines: "injected_headers ip https = lines_text (map field_line (injected_fields ip https))"
  by (simp add: injected_headers_def injected_fields_def lines_text_def field_line_def)

lemma injected_ok:
  assumes "no_crlf ip" and "ascii ip"
  shows "\<forall>f \<in> set (injected_fields ip https). field_ok f"
  using assms utf8_ascii [of "CHR '' '' # ip"]
  by (auto simp: injected_fields_def field_ok_def no_crlf_def ascii_def chr_code_def utf8_ascii)

lemma lower_letters:
  "lower_char CHR ''X'' = CHR ''x''" "lower_char CHR ''h'' = CHR ''h''" "lower_char CHR ''c'' = CHR ''c''"
  by code_simp+

lemma not_x_name:
  "c = CHR ''h'' \<or> c = CHR ''c'' \<Longrightarrow> \<not> eq_ignore_ascii_case (CHR ''X'' # s) (c # t)"
  by (auto simp: eq_ignore_ascii_case_def to_lowercase_def lower_letters)

lemma inject_shape:
  "no_crlf reqline \<Longrightarrow> inject_forwarding_headers (reqline @ CRLF @ rest) ip https =
     reqline @ CRLF @ injected_headers ip https @ rest"
  by (simp add: inject_forwarding_headers_def find_crlf)

lemma inject_lines:
  assumes "no_crlf reqline" and "no_crlf ip" and "ascii ip"
  shows "split_crlf (inject_forwarding_headers (reqline @ CRLF @ rest) ip https) =
    reqline # map field_line (injected_fields ip https) @ split_crlf rest"
proof -
  have "\<forall>l \<in> set (map field_line (injected_fields ip https)). no_crlf l"
    using injected_ok [OF assms(2,3)] no_crlf_field by auto
  from split_crlf_lines [OF this, of rest] show ?thesis
    unfolding inject_shape [OF assms(1)] injected_lines using assms(1) by (simp add: split_crlf_line)
qed

lemma inject_utf8:
  assumes "no_crlf reqline" and "no_crlf ip" and "ascii ip"
  shows "utf8_valid (inject_forwarding_headers (reqline @ CRLF @ rest) ip https) = utf8_valid (reqline @ CRLF @ rest)"
proof -
  have "utf8_valid (field_line f)" if "field_ok f" for f
    using that utf8_ascii_append [of "fst f @ '':''" "snd f"]
    by (auto simp: field_line_def field_ok_def ascii_def chr_code_def)
  then have "\<forall>l \<in> set (map field_line (injected_fields ip https)). utf8_valid l"
    using injected_ok [OF assms(2,3)] by auto
  then have "utf8_valid (injected_headers ip https @ rest) = utf8_valid rest"
    unfolding injected_lines by (rule utf8_lines)
  then show ?thesis
    using utf8_line_split [of "reqline @ [CR]" "injected_headers ip https @ rest"]
      utf8_line_split [of "reqline @ [CR]" rest] by (simp add: inject_shape [OF assms(1), simplified])
qed

lemma injected_first_field:
  assumes "no_crlf ip" and "ascii ip"
  shows "first_field p (map field_line (injected_fields ip https) @ ls) =
    (case find (\<lambda>f. p (fst f)) (injected_fields ip https) of Some f \<Rightarrow> Some (snd f) | None \<Rightarrow> first_field p ls)"
  unfolding first_field_append first_field_lines [OF injected_ok [OF assms]] by (simp split: option.split)

text \<open>
  Claim C34. Header injection: the three forwarding headers follow the request line, so they come before
  any header the client sent and a client cannot put its own \<open>X-Forwarded-For\<close> first; every
  other byte of the request is passed on unchanged, and method, path, Host and Content-Length
  read the same before and after.
\<close>

theorem forwarding_headers_first:
  assumes "no_crlf reqline" and "no_crlf ip" and "ascii ip"
    and "head = reqline @ CRLF @ rest" and "head' = inject_forwarding_headers head ip https"
  shows "head' = reqline @ CRLF @ injected_headers ip https @ rest
    \<and> parse_request_line head' = parse_request_line head
    \<and> parse_host_header head' = parse_host_header head
    \<and> parse_content_length head' = parse_content_length head
    \<and> (first_field (\<lambda>n. eq_ignore_ascii_case n ''x-forwarded-for'') [reqline] = None \<longrightarrow>
        first_field (\<lambda>n. eq_ignore_ascii_case n ''x-forwarded-for'') (split_crlf head') = Some ('' '' @ ip))"
proof -
  have lines: "split_crlf head = reqline # split_crlf rest"
    "split_crlf head' = reqline # map field_line (injected_fields ip https) @ split_crlf rest"
    using assms inject_lines [OF assms(1-3)] by (simp_all add: split_crlf_line)
  have utf8: "utf8_valid head' = utf8_valid head" using assms inject_utf8 [OF assms(1-3)] by simp
  have keep: "first_field p (split_crlf head') = first_field p (split_crlf head)"
    if "\<forall>f \<in> set (injected_fields ip https). \<not> p (fst f)" for p
    unfolding lines using that injected_first_field [OF assms(2,3), of p https "split_crlf rest"]
    by (auto simp: injected_fields_def split: option.splits if_splits)
  have xff: "first_field p (split_crlf head') = Some ('' '' @ ip)"
    if "first_field p [reqline] = None" "p ''X-Forwarded-For''" for p
    unfolding lines first_field_skip [OF that(1)] injected_first_field [OF assms(2,3)]
    using that(2) by (simp add: injected_fields_def)
  have "hd (split_crlf head') = hd (split_crlf head)" by (simp add: lines)
  then have rl: "parse_request_line head' = parse_request_line head" by (simp add: parse_request_line_def utf8)
  have hh: "parse_host_header head' = parse_host_header head"
    using keep [of "\<lambda>n. eq_ignore_ascii_case n ''host''"]
    by (simp add: parse_host_header_def utf8 injected_fields_def not_x_name)
  have cl: "parse_content_length head' = parse_content_length head"
    using keep [of "\<lambda>n. eq_ignore_ascii_case n ''content-length''"]
    by (simp add: parse_content_length_def utf8 injected_fields_def not_x_name)
  have "eq_ignore_ascii_case ''X-Forwarded-For'' ''x-forwarded-for''" by code_simp
  then have "first_field (\<lambda>n. eq_ignore_ascii_case n ''x-forwarded-for'') (split_crlf head') = Some ('' '' @ ip)"
    if "first_field (\<lambda>n. eq_ignore_ascii_case n ''x-forwarded-for'') [reqline] = None"
    using xff [OF that] by blast
  moreover have "head' = reqline @ CRLF @ injected_headers ip https @ rest"
    unfolding assms(5) assms(4) by (rule inject_shape [OF assms(1)])
  ultimately show ?thesis using rl hh cl by blast
qed

theorem forwarding_headers_first_witness:
  "inject_forwarding_headers (''GET / HTTP/1.1'' @ CRLF @ ''X-Forwarded-For: 6.6.6.6'' @ CRLF @ CRLF) ''10.0.0.1'' True =
     ''GET / HTTP/1.1'' @ CRLF @ injected_headers ''10.0.0.1'' True @ ''X-Forwarded-For: 6.6.6.6'' @ CRLF @ CRLF"
  using forwarding_headers_first [of "''GET / HTTP/1.1''" "''10.0.0.1''" _ "''X-Forwarded-For: 6.6.6.6'' @ CRLF @ CRLF" _ True]
  by (simp add: no_crlf_def ascii_def chr_code_def)

section \<open>Responses\<close>

text \<open>What follows the first empty line.\<close>

definition body_of :: "string \<Rightarrow> string option" where
  "body_of s = map_option (\<lambda>i. drop (i + 4) s) (find_str s (CRLF @ CRLF))"

lemma error_response_lines:
  "error_response status body https =
     request_text (''HTTP/1.1 '' @ status)
       ([(''Content-Length'', '' '' @ show_nat (length body)), (''Content-Type'', '' text/plain'')]
        @ (if https then [(''Strict-Transport-Security'', '' max-age=63072000; includeSubDomains'')] else [])
        @ [(''Connection'', '' close'')]) body"
  by (simp add: error_response_def request_text_def lines_text_def field_line_def hsts_def)

lemma find_empty_line:
  "\<forall>l \<in> set ls. no_crlf l \<and> l \<noteq> [] \<Longrightarrow> ls \<noteq> [] \<Longrightarrow>
   find_str (lines_text ls @ CRLF @ body) (CRLF @ CRLF) = Some (length (lines_text ls) - 2)"
proof (induction ls)
  case Nil
  then show ?case by simp
next
  case (Cons l ls)
  have skip: "find_str (a @ CR # LF # rest) (CRLF @ CRLF) =
      (case find_str (CR # LF # rest) (CRLF @ CRLF) of Some i \<Rightarrow> Some (length a + i) | None \<Rightarrow> None)"
    if "no_crlf a" for a rest
    using that by (induction a) (auto simp: no_crlf_def starts_with_def split: option.splits)
  show ?case
  proof (cases ls)
    case Nil
    then show ?thesis using Cons.prems skip [of l "CRLF @ body"] by (simp add: lines_text_def starts_with_def)
  next
    case (Cons l' ls')
    then have l': "l' \<noteq> []" "no_crlf l'" using Cons.prems by auto
    then have n: "find_str (CR # LF # lines_text ls @ CRLF @ body) (CRLF @ CRLF) =
        map_option (\<lambda>i. i + 2) (find_str (lines_text ls @ CRLF @ body) (CRLF @ CRLF))"
      using Cons by (cases l') (auto simp: lines_text_def starts_with_def no_crlf_def option.map_comp comp_def)
    have "2 \<le> length (lines_text ls)" using Cons by (simp add: lines_text_def)
    moreover have "lines_text (l # ls) @ CRLF @ body = l @ CR # LF # (lines_text ls @ CRLF @ body)"
      by (simp add: lines_text_def)
    ultimately show ?thesis
      using skip [of l "lines_text ls @ CRLF @ body"] n Cons.IH Cons.prems Cons by (simp add: lines_text_def)
  qed
qed

lemma body_of_request:
  assumes "no_crlf reqline" and "reqline \<noteq> []" and "\<forall>f \<in> set fs. field_ok f"
  shows "body_of (request_text reqline fs body) = Some body"
proof -
  let ?ls = "reqline # map field_line fs"
  have "\<forall>l \<in> set ?ls. no_crlf l \<and> l \<noteq> []"
    using assms no_crlf_field by (auto simp: field_line_def)
  from find_empty_line [OF this, of body] have "find_str (request_text reqline fs body) (CRLF @ CRLF) =
      Some (length (lines_text ?ls) - 2)" by (simp add: request_text_def)
  moreover have "2 \<le> length (lines_text ?ls)" by (simp add: lines_text_def)
  ultimately show ?thesis by (simp add: body_of_def request_text_def)
qed

lemma trim_space: "trim (CHR '' '' # show_nat n) = show_nat n"
proof -
  have "is_digit (hd (show_nat n))" "is_digit (last (show_nat n))"
    using show_nat_digits [of n] by (auto simp: list_all_iff)
  then have "trim (show_nat n) = show_nat n" by (intro trim_id) (auto dest: digit_not_ws)
  moreover have "is_whitespace (CHR '' '')" by (simp add: is_whitespace_def chr_code_def)
  ultimately show ?thesis by (simp add: trim_def trim_start_def)
qed

lemma parse_u64_show: "n < 2 ^ 64 \<Longrightarrow> parse_u64 (show_nat n) = Some (word_of_nat n)"
  by (simp add: parse_u64_def parse_uint_show_nat)

text \<open>A text whose Content-Length is the length of its body.\<close>

definition well_framed :: "string \<Rightarrow> bool" where
  "well_framed resp \<longleftrightarrow>
     (\<exists>body. body_of resp = Some body \<and> parse_content_length resp = Some (word_of_nat (length body)))"

definition error_fields :: "nat \<Rightarrow> bool \<Rightarrow> (string \<times> string) list" where
  "error_fields n https =
     [(''Content-Length'', '' '' @ show_nat n), (''Content-Type'', '' text/plain'')]
     @ (if https then [(''Strict-Transport-Security'', '' max-age=63072000; includeSubDomains'')] else [])
     @ [(''Connection'', '' close'')]"

lemma show_nat_field: "ascii ('' '' @ show_nat n) \<and> no_crlf ('' '' @ show_nat n)"
proof -
  have "chr_code c < 128 \<and> c \<noteq> CR \<and> c \<noteq> LF" if "c \<in> set (show_nat n)" for c
    using show_nat_digits [of n] that by (auto simp: list_all_iff is_digit_def chr_code_def)
  then show ?thesis by (auto simp: ascii_def no_crlf_def chr_code_def)
qed

lemma error_fields_ok: "\<forall>f \<in> set (error_fields n https). field_ok f"
  using show_nat_field [of n]
  by (auto simp: error_fields_def field_ok_def no_crlf_def ascii_def chr_code_def intro!: utf8_ascii)

lemma find_content_length:
  "find (\<lambda>f. eq_ignore_ascii_case (fst f) ''content-length'') (error_fields n https) =
     Some (''Content-Length'', '' '' @ show_nat n)"
proof -
  have "eq_ignore_ascii_case ''Content-Length'' ''content-length''" by code_simp
  then show ?thesis by (simp add: error_fields_def)
qed

text \<open>
  Every error response of the relay is framed correctly: the Content-Length it sends parses
  back to the length of the body that follows the empty line, for any status line and body text,
  with and without HSTS.
\<close>

theorem error_response_framed:
  assumes "no_crlf status" and "utf8_valid status" and "utf8_valid body" and "length body < 2 ^ 64"
  shows "body_of (error_response status body https) = Some body \<and> well_framed (error_response status body https)"
proof -
  let ?p = "\<lambda>n. eq_ignore_ascii_case n ''content-length''"
  let ?r = "''HTTP/1.1 '' @ status" and ?fs = "error_fields (length body) https"
  have e: "error_response status body https = request_text ?r ?fs body"
    by (simp add: error_response_lines error_fields_def)
  have r: "no_crlf ?r" "?r \<noteq> []" using assms(1) by (auto simp: no_crlf_def)
  have u: "utf8_valid ?r" using assms(2) utf8_ascii_append [of "''HTTP/1.1 ''" status] by (simp add: ascii_def chr_code_def)
  have b: "body_of (error_response status body https) = Some body"
    unfolding e by (rule body_of_request [OF r error_fields_ok])
  have "lower_char CHR ''H'' \<noteq> lower_char CHR ''c''" by code_simp
  then have "\<not> ?p (CHR ''H'' # s)" for s by (simp add: eq_ignore_ascii_case_def to_lowercase_def)
  then have none: "first_field ?p [?r] = None" by (auto simp: split_once_def)
  have "first_field ?p (split_crlf (error_response status body https)) = Some ('' '' @ show_nat (length body))"
    unfolding e request_lines [OF r(1) error_fields_ok] first_field_skip [OF none] first_field_append
      first_field_lines [OF error_fields_ok] find_content_length by simp
  then have "parse_content_length (error_response status body https) = Some (word_of_nat (length body))"
    using utf8_request [OF u error_fields_ok, of "length body" https body] assms(3,4)
    by (simp add: parse_content_length_def e trim_space parse_u64_show)
  then show ?thesis using b by (simp add: well_framed_def)
qed

theorem error_response_framed_witness:
  "well_framed (error_response ''502 Bad Gateway'' ''seamless: no route'' True)"
  using error_response_framed [of "''502 Bad Gateway''" "''seamless: no route''" True]
  by (simp add: no_crlf_def utf8_ascii ascii_def chr_code_def)

definition challenge_fields :: "u32 \<Rightarrow> (string \<times> string) list" where
  "challenge_fields rps =
     [(''Retry-After'', '' 1''), (''X-RateLimit-Limit'', '' '' @ show_nat (unat rps)),
      (''X-RateLimit-Remaining'', '' 0''), (''Content-Length'', '' 25''), (''Content-Type'', '' text/plain''),
      (''Connection'', '' close'')]"

lemma challenge_fields_ok: "\<forall>f \<in> set (challenge_fields rps). field_ok f"
  using show_nat_field [of "unat rps"]
  by (auto simp: challenge_fields_def field_ok_def no_crlf_def ascii_def chr_code_def intro!: utf8_ascii)

lemma find_challenge_length:
  "find (\<lambda>f. eq_ignore_ascii_case (fst f) ''content-length'') (challenge_fields rps) = Some (''Content-Length'', '' 25'')"
proof -
  have "eq_ignore_ascii_case ''Content-Length'' ''content-length''" by code_simp
  moreover have "\<not> eq_ignore_ascii_case ''Retry-After'' ''content-length''"
    "\<not> eq_ignore_ascii_case ''X-RateLimit-Limit'' ''content-length''"
    "\<not> eq_ignore_ascii_case ''X-RateLimit-Remaining'' ''content-length''" by code_simp+
  ultimately show ?thesis by (simp add: challenge_fields_def)
qed

text \<open>
  The exception is the answer of the DDoS protection in challenge mode: it announces 25 bytes
  and sends 20, so a client that trusts the header waits for five bytes that never come.
\<close>

theorem challenge_response_misframed:
  "body_of (challenge_response rps) = Some (''rate limit exceeded'' @ [LF])
   \<and> length (''rate limit exceeded'' @ [LF]) = 20
   \<and> parse_content_length (challenge_response rps) = Some 25 \<and> \<not> well_framed (challenge_response rps)"
proof -
  let ?r = "''HTTP/1.1 429 Too Many Requests''" and ?b = "''rate limit exceeded'' @ [LF]"
  let ?p = "\<lambda>n. eq_ignore_ascii_case n ''content-length''"
  have c: "challenge_response rps = request_text ?r (challenge_fields rps) ?b"
    by (simp add: challenge_response_def challenge_fields_def request_text_def lines_text_def field_line_def)
  have r: "no_crlf ?r" "?r \<noteq> []" "utf8_valid ?r" by (auto simp: no_crlf_def ascii_def chr_code_def intro!: utf8_ascii)
  have b: "body_of (challenge_response rps) = Some ?b"
    unfolding c by (rule body_of_request [OF r(1,2) challenge_fields_ok])
  have none: "first_field ?p [?r] = None" by (simp add: split_once_def)
  have "first_field ?p (split_crlf (challenge_response rps)) = Some '' 25''"
    unfolding c request_lines [OF r(1) challenge_fields_ok] first_field_skip [OF none] first_field_append
      first_field_lines [OF challenge_fields_ok] find_challenge_length by simp
  moreover have "utf8_valid (challenge_response rps)"
    unfolding c utf8_request [OF r(3) challenge_fields_ok] by (rule utf8_ascii) (simp add: ascii_def chr_code_def)
  moreover have "trim '' 25'' = ''25''" by code_simp
  moreover have "parse_u64 ''25'' = Some 25"
    by (simp add: parse_u64_def parse_uint_def digits_val_def digit_val_def is_digit_def chr_code_def)
  ultimately have "parse_content_length (challenge_response rps) = Some 25" by (simp add: parse_content_length_def)
  then show ?thesis using b by (simp add: well_framed_def)
qed

section \<open>Names and addresses\<close>

lemma takeWhile_prefix_iff:
  "c \<notin> set a \<Longrightarrow> takeWhile (\<lambda>x. x \<noteq> c) s = a \<longleftrightarrow> s = a \<or> (\<exists>t. s = a @ c # t)"
proof -
  assume c: "c \<notin> set a"
  show ?thesis
  proof
    assume t: "takeWhile (\<lambda>x. x \<noteq> c) s = a"
    define d where "d = dropWhile (\<lambda>x. x \<noteq> c) s"
    have "s = a @ d" using t takeWhile_dropWhile_id [of "\<lambda>x. x \<noteq> c" s] by (simp add: d_def)
    moreover have "d = [] \<or> (\<exists>u. d = c # u)"
      using hd_dropWhile [of "\<lambda>x. x \<noteq> c" s] unfolding d_def [symmetric] by (cases d) auto
    ultimately show "s = a \<or> (\<exists>t. s = a @ c # t)" by auto
  next
    assume "s = a \<or> (\<exists>t. s = a @ c # t)"
    then obtain u where "s = a @ u" "u = [] \<or> hd u = c" by auto
    moreover have "\<forall>x \<in> set a. x \<noteq> c" using c by blast
    ultimately show "takeWhile (\<lambda>x. x \<noteq> c) s = a"
      using takeWhile_append_stop [of a "\<lambda>x. x \<noteq> c" u] by blast
  qed
qed

lemma extract_subdomain_takeWhile:
  "extract_subdomain host base = Some sub \<longleftrightarrow> takeWhile (\<lambda>x. x \<noteq> CHR '':'') host = sub @ ''.'' @ base"
  by (simp add: extract_subdomain_def hd_split_char strip_suffix_Some)

text \<open>
  Routing by name inverts registration: a Host that is a name without a colon, a dot and the
  base domain, with or without a port, yields exactly that name, and no other Host does.
\<close>

theorem extract_subdomain_iff:
  assumes "CHR '':'' \<notin> set base"
  shows "extract_subdomain host base = Some sub \<longleftrightarrow>
    CHR '':'' \<notin> set sub \<and> (host = sub @ ''.'' @ base \<or> (\<exists>port. host = sub @ ''.'' @ base @ '':'' @ port))"
proof (cases "CHR '':'' \<in> set sub")
  case True
  then have "takeWhile (\<lambda>x. x \<noteq> CHR '':'') host \<noteq> sub @ ''.'' @ base"
    using set_takeWhileD [of "CHR '':''" "\<lambda>x. x \<noteq> CHR '':''" host] by auto
  with True show ?thesis by (simp add: extract_subdomain_takeWhile)
next
  case False
  with assms have n: "CHR '':'' \<notin> set (sub @ ''.'' @ base)" by simp
  show ?thesis
    unfolding extract_subdomain_takeWhile takeWhile_prefix_iff [OF n] using False by simp
qed

theorem extract_subdomain_iff_witness:
  "extract_subdomain ''web.relay.test:8080'' ''relay.test'' = Some ''web''"
  using extract_subdomain_iff [of "''relay.test''" "''web.relay.test:8080''" "''web''"] by simp

end
