(* ===== verification/Store.thy ===== *)
theory Store
  imports Audit_Log
begin

text \<open>
  The persistent store, \<open>store.rs\<close>, and the operations of \<open>admin.rs\<close> on it: proxy routes and
  Cloudflare settings. The JSON encoding of the store (\<open>serde_json\<close>) is a pair of parameters
  whose documented law is \<open>serde_law\<close>. Saving is the sequence of file system states it goes
  through, so that a crash between two of its steps is a prefix of it.
\<close>

section \<open>Data\<close>

record ProxyRoute =
  pr_id :: string
  pr_domain :: string
  pr_upstream_url :: string
  pr_enabled :: bool
  pr_created_at :: int

record CfSettings =
  api_token :: string
  account_id :: string

record Store =
  routes :: "ProxyRoute list"
  cf :: "CfSettings option"
  identity_hex :: "string option"
  identity_x25519_hex :: "string option"
  identity_kem_pk_hex :: "string option"
  identity_kem_sk_hex :: "string option"

definition Store_default :: Store where
  "Store_default = \<lparr>routes = [], cf = None, identity_hex = None, identity_x25519_hex = None,
     identity_kem_pk_hex = None, identity_kem_sk_hex = None\<rparr>"

text \<open>An answer of the admin interface: the status code and the body.\<close>

datatype body = NoBody | JsonBody json | TextBody string

type_synonym response = "nat \<times> body"

definition bad_request :: "string \<Rightarrow> response" where
  "bad_request msg = (400, JsonBody (JObj [(''error'', JStr msg)]))"

definition not_found :: response where
  "not_found = (404, JsonBody (JObj [(''error'', JStr ''not found'')]))"

section \<open>Load and save\<close>

datatype store_error = ReadError | ParseError | SerializeError | MkdirError | WriteError | RenameError

definition store_load :: "(string \<Rightarrow> Store option) \<Rightarrow> bool \<Rightarrow> string \<Rightarrow> files \<Rightarrow> store_error + Store" where
  "store_load from_str readable path fs =
     (case fs path of
        None \<Rightarrow> Inr Store_default
      | Some content \<Rightarrow>
          if \<not> readable then Inl ReadError
          else (case from_str content of None \<Rightarrow> Inl ParseError | Some st \<Rightarrow> Inr st))"

text \<open>
  \<open>Path::with_extension\<close>: what follows the last dot of the file name, a dot at its start not
  counted, is replaced.
\<close>

definition file_stem_len :: "string \<Rightarrow> nat" where
  "file_stem_len path =
     (let name = takeWhile (\<lambda>c. c \<noteq> CHR ''/'') (rev path);
          ext = takeWhile (\<lambda>c. c \<noteq> CHR ''.'') name
      in if length ext < length name \<and> length ext + 1 \<noteq> length name
         then length path - length ext - 1 else length path)"

text \<open>\<open>Path::join\<close>.\<close>

definition path_join :: "string \<Rightarrow> string \<Rightarrow> string" where
  "path_join dir name =
     (if starts_with name ''/'' then name
      else if dir = [] \<or> ends_with dir ''/'' then dir @ name
      else dir @ ''/'' @ name)"

definition with_extension :: "string \<Rightarrow> string \<Rightarrow> string" where
  "with_extension path ext = take (file_stem_len path) path @ ''.'' @ ext"

text \<open>
  What the system does with one save: whether the directory can be made, how far the write of the
  temporary file gets (\<open>tokio::fs::write\<close> truncates, then writes piece by piece), and whether the
  rename works. \<open>to_string_pretty\<close> is \<open>serde_json\<close>'s.
\<close>

datatype write_outcome = OpenFails | FailsAfter nat | Written

record SaveEnv =
  to_string_pretty :: "Store \<Rightarrow> string option"
  mkdir_ok :: bool
  write_out :: write_outcome
  rename_ok :: bool

text \<open>The file system states while \<open>content\<close> is written: every prefix can be the one a crash leaves.\<close>

definition write_states :: "string \<Rightarrow> string \<Rightarrow> nat \<Rightarrow> files \<Rightarrow> files list" where
  "write_states p content n fs = map (\<lambda>k. fs(p \<mapsto> take k content)) [0..<Suc (min n (length content))]"

text \<open>One \<open>save\<close>: its result and the file system states it goes through, the first before it.\<close>

definition store_save :: "SaveEnv \<Rightarrow> Store \<Rightarrow> string \<Rightarrow> files \<Rightarrow> (store_error + unit) \<times> files list" where
  "store_save env store path fs =
     (case to_string_pretty env store of
        None \<Rightarrow> (Inl SerializeError, [fs])
      | Some content \<Rightarrow>
          if \<not> mkdir_ok env then (Inl MkdirError, [fs])
          else let tmp = with_extension path ''json.tmp''
               in (case write_out env of
                     OpenFails \<Rightarrow> (Inl WriteError, [fs])
                   | FailsAfter n \<Rightarrow> (Inl WriteError, fs # write_states tmp content n fs)
                   | Written \<Rightarrow>
                       let fs1 = fs(tmp \<mapsto> content);
                           before = fs # write_states tmp content (length content) fs
                       in if \<not> rename_ok env then (Inl RenameError, before)
                          else (Inr (), before @ [fs_rename tmp path fs1])))"

text \<open>The handlers ignore the result of a save.\<close>

definition persist :: "SaveEnv \<Rightarrow> Store \<Rightarrow> string \<Rightarrow> files \<Rightarrow> files" where
  "persist env store path fs = last (snd (store_save env store path fs))"

definition serde_law :: "(Store \<Rightarrow> string option) \<Rightarrow> (string \<Rightarrow> Store option) \<Rightarrow> bool" where
  "serde_law to_str from_str \<longleftrightarrow> (\<forall>s t. to_str s = Some t \<longrightarrow> from_str t = Some s)"

section \<open>Routes (admin.rs)\<close>

text \<open>
  The handlers see the store, its path and the files; an answer comes with the new ones.
\<close>

record StoreState =
  ss_store :: Store
  ss_path :: string
  ss_files :: files

definition commit :: "SaveEnv \<Rightarrow> Store \<Rightarrow> StoreState \<Rightarrow> StoreState" where
  "commit env store ss = ss\<lparr>ss_store := store, ss_files := persist env store (ss_path ss) (ss_files ss)\<rparr>"

definition route_json :: "ProxyRoute \<Rightarrow> json" where
  "route_json r = JObj [(''id'', JStr (pr_id r)), (''domain'', JStr (pr_domain r)),
     (''upstream_url'', JStr (pr_upstream_url r)), (''enabled'', JBool (pr_enabled r)),
     (''created_at'', JInt (pr_created_at r))]"

definition list_routes :: "StoreState \<Rightarrow> response" where
  "list_routes ss = (200, JsonBody (JArr (map route_json (routes (ss_store ss)))))"

record RouteReq =
  rr_domain :: string
  rr_upstream_url :: string
  rr_enabled :: bool

definition create_route ::
  "SaveEnv \<Rightarrow> string \<Rightarrow> int \<Rightarrow> RouteReq \<Rightarrow> StoreState \<Rightarrow> response \<times> StoreState" where
  "create_route env uuid now req ss =
     (let domain = to_lowercase (trim (rr_domain req));
          upstream_url = trim (rr_upstream_url req);
          store = ss_store ss
      in if domain = [] \<or> upstream_url = []
         then (bad_request ''domain and upstream_url required'', ss)
         else let route = \<lparr>pr_id = uuid, pr_domain = domain, pr_upstream_url = upstream_url,
                           pr_enabled = rr_enabled req, pr_created_at = now\<rparr>
              in if list_ex (\<lambda>r. pr_domain r = domain) (routes store)
                 then ((409, JsonBody (JObj [(''error'', JStr ''domain already exists'')])), ss)
                 else ((201, JsonBody (route_json route)),
                       commit env (store\<lparr>routes := routes store @ [route]\<rparr>) ss))"

text \<open>\<open>iter_mut().find(..)\<close>: the first route with the id is changed in place.\<close>

fun update_first :: "('a \<Rightarrow> bool) \<Rightarrow> ('a \<Rightarrow> 'a) \<Rightarrow> 'a list \<Rightarrow> 'a list" where
  "update_first p f [] = []"
| "update_first p f (x # xs) = (if p x then f x # xs else x # update_first p f xs)"

definition update_route :: "SaveEnv \<Rightarrow> string \<Rightarrow> RouteReq \<Rightarrow> StoreState \<Rightarrow> response \<times> StoreState" where
  "update_route env i req ss =
     (let domain = to_lowercase (trim (rr_domain req));
          upstream_url = trim (rr_upstream_url req);
          store = ss_store ss;
          change = (\<lambda>r. r\<lparr>pr_domain := domain, pr_upstream_url := upstream_url, pr_enabled := rr_enabled req\<rparr>)
      in case find (\<lambda>r. pr_id r = i) (routes store) of
           Some r \<Rightarrow> ((200, JsonBody (route_json (change r))),
                     commit env (store\<lparr>routes := update_first (\<lambda>r. pr_id r = i) change (routes store)\<rparr>) ss)
         | None \<Rightarrow> (not_found, ss))"

definition delete_route :: "SaveEnv \<Rightarrow> string \<Rightarrow> StoreState \<Rightarrow> response \<times> StoreState" where
  "delete_route env i ss =
     (let store = ss_store ss;
          rs = filter (\<lambda>r. pr_id r \<noteq> i) (routes store)
      in if length rs < length (routes store)
         then ((204, NoBody), commit env (store\<lparr>routes := rs\<rparr>) ss)
         else ((404, NoBody), ss))"

text \<open>The lookup of the ingress: the first enabled route of the host, without its port.\<close>

definition find_route :: "string \<Rightarrow> Store \<Rightarrow> string option" where
  "find_route host store =
     (let host_only = to_lowercase (hd (split_char CHR '':'' host))
      in map_option pr_upstream_url
           (find (\<lambda>r. pr_enabled r \<and> to_lowercase (pr_domain r) = host_only) (routes store)))"

section \<open>Settings (admin.rs)\<close>

abbreviation ELLIPSIS :: string where
  "ELLIPSIS \<equiv> [CHR 0xE2, CHR 0x80, CHR 0xA6]"

definition cf_or_default :: "Store \<Rightarrow> CfSettings" where
  "cf_or_default store = (case cf store of Some c \<Rightarrow> c | None \<Rightarrow> \<lparr>api_token = [], account_id = []\<rparr>)"

text \<open>The slice of the last four bytes panics (\<open>None\<close>) if it starts inside a character.\<close>

definition is_char_boundary :: "string \<Rightarrow> nat \<Rightarrow> bool" where
  "is_char_boundary s i \<longleftrightarrow>
     i = 0 \<or> i = length s \<or> i < length s \<and> (chr_code (s ! i) < 0x80 \<or> 0xC0 \<le> chr_code (s ! i))"

definition masked_token :: "string \<Rightarrow> string option" where
  "masked_token token =
     (if length token > 4
      then (if is_char_boundary token (length token - 4)
            then Some (ELLIPSIS @ drop (length token - 4) token) else None)
      else if token = [] then Some [] else Some ELLIPSIS)"

definition get_settings :: "StoreState \<Rightarrow> response option" where
  "get_settings ss =
     (let c = cf_or_default (ss_store ss)
      in map_option (\<lambda>masked.
           (200, JsonBody (JObj [(''cf_api_token_masked'', JStr masked),
               (''cf_api_token_set'', JBool (api_token c \<noteq> [])),
               (''cf_account_id'', JStr (account_id c))])))
         (masked_token (api_token c)))"

definition save_settings ::
  "SaveEnv \<Rightarrow> string option \<Rightarrow> string \<Rightarrow> StoreState \<Rightarrow> response \<times> StoreState" where
  "save_settings env cf_api_token cf_account_id ss =
     (let store = ss_store ss;
          existing_token = (case cf store of Some c \<Rightarrow> api_token c | None \<Rightarrow> []);
          token = (case cf_api_token of
                     Some t \<Rightarrow> if t \<noteq> [] \<and> \<not> starts_with t ELLIPSIS then t else existing_token
                   | None \<Rightarrow> existing_token)
      in ((204, NoBody), commit env (store\<lparr>cf := Some \<lparr>api_token = token, account_id = trim cf_account_id\<rparr>\<rparr>) ss))"

definition cf_client :: "Store \<Rightarrow> CfSettings option" where
  "cf_client store =
     (case cf store of
        None \<Rightarrow> None
      | Some c \<Rightarrow> if api_token c = [] \<or> account_id c = [] then None else Some c)"

section \<open>Saving is atomic\<close>

lemma takeWhile_dot: "CHR ''.'' \<notin> set (takeWhile (\<lambda>c. c \<noteq> CHR ''.'') xs)"
  using set_takeWhileD by fast

lemma tmp_neq: "with_extension path ''json.tmp'' \<noteq> path"
proof
  assume eq: "with_extension path ''json.tmp'' = path"
  define name where "name = takeWhile (\<lambda>c. c \<noteq> CHR ''/'') (rev path)"
  define ext where "ext = takeWhile (\<lambda>c. c \<noteq> CHR ''.'') name"
  have le: "length ext \<le> length name" "length name \<le> length path"
    unfolding ext_def name_def by (simp_all add: length_takeWhile_le [THEN order_trans])
  have "file_stem_len path \<le> length path" by (simp add: file_stem_len_def Let_def)
  then have "length (with_extension path ''json.tmp'') = file_stem_len path + 9"
    by (simp add: with_extension_def)
  then have n: "file_stem_len path + 9 = length path" using eq by simp
  then have l: "length ext = 8" using le
    by (auto simp: file_stem_len_def Let_def name_def [symmetric] ext_def [symmetric] split: if_splits)
  have "rev path = ext @ drop 8 (rev path)"
  proof -
    have "name = ext @ drop 8 name"
      using takeWhile_eq_take [of "\<lambda>c. c \<noteq> CHR ''.''" name] l by (metis append_take_drop_id ext_def)
    moreover have "rev path = name @ drop (length name) (rev path)"
      using takeWhile_eq_take [of "\<lambda>c. c \<noteq> CHR ''/''" "rev path"] by (metis append_take_drop_id name_def)
    ultimately show ?thesis using l by (metis append.assoc append_eq_conv_conj)
  qed
  moreover have "rev path = rev ''.json.tmp'' @ rev (take (file_stem_len path) path)"
    using eq by (metis (no_types) rev_append with_extension_def append_Cons append_Nil)
  ultimately have "take 8 (rev ''.json.tmp'' @ rev (take (file_stem_len path) path)) = ext" using l by (metis append_eq_conv_conj)
  then have "CHR ''.'' \<in> set ext" by auto
  then show False using takeWhile_dot ext_def by metis
qed

lemma write_states_path: "q \<noteq> p \<Longrightarrow> fs' \<in> set (write_states p content n fs) \<Longrightarrow> fs' q = fs q"
  by (auto simp: write_states_def)


text \<open>A serializer of one store only: enough to run a save.\<close>

definition demo_env :: "Store \<Rightarrow> SaveEnv" where
  "demo_env st = \<lparr>to_string_pretty = (\<lambda>s. if s = st then Some ''{}'' else None), mkdir_ok = True,
     write_out = Written, rename_ok = True\<rparr>"


section \<open>Routes\<close>

text \<open>What creating and deleting keep: every domain is lower case, not empty, and has one route.\<close>

definition routes_ok :: "Store \<Rightarrow> bool" where
  "routes_ok store \<longleftrightarrow> distinct (map pr_domain (routes store))
     \<and> (\<forall>r \<in> set (routes store). pr_domain r \<noteq> [] \<and> to_lowercase (pr_domain r) = pr_domain r)"

lemma commit_store [simp]: "ss_store (commit env store ss) = store"
  by (simp add: commit_def)

lemma find_append: "find p (xs @ ys) = (case find p xs of Some x \<Rightarrow> Some x | None \<Rightarrow> find p ys)"
  by (induction xs) auto

lemma find_route_port:
  "CHR '':'' \<notin> set d \<Longrightarrow> find_route (d @ CHR '':'' # port) store = find_route d store"
  by (simp add: find_route_def split_char_append split_char_absent)

lemma create_route_shape:
  assumes "create_route env uuid now req ss = (resp, ss')"
  shows "fst resp \<noteq> 201 \<and> ss' = ss
    \<or> fst resp = 201 \<and> to_lowercase (trim (rr_domain req)) \<noteq> []
      \<and> (\<forall>r \<in> set (routes (ss_store ss)). pr_domain r \<noteq> to_lowercase (trim (rr_domain req)))
      \<and> routes (ss_store ss') = routes (ss_store ss) @
          [\<lparr>pr_id = uuid, pr_domain = to_lowercase (trim (rr_domain req)),
            pr_upstream_url = trim (rr_upstream_url req), pr_enabled = rr_enabled req, pr_created_at = now\<rparr>]"
  using assms
  by (auto simp: create_route_def Let_def bad_request_def list_ex_iff split: if_splits)

lemma create_route_facts:
  assumes "routes_ok (ss_store ss)" and "create_route env uuid now req ss = (resp, ss')"
    and "d = to_lowercase (trim (rr_domain req))" and "CHR '':'' \<notin> set d"
  shows "routes_ok (ss_store ss')"
    and "fst resp \<noteq> 201 \<Longrightarrow> ss' = ss"
    and "fst resp = 201 \<Longrightarrow> rr_enabled req \<Longrightarrow>
      find_route (d @ CHR '':'' # port) (ss_store ss') = Some (trim (rr_upstream_url req))"
    and "to_lowercase (hd (split_char CHR '':'' host)) \<noteq> d \<Longrightarrow>
      find_route host (ss_store ss') = find_route host (ss_store ss)"
proof -
  note sh = create_route_shape [OF assms(2), folded assms(3)]
  have low: "to_lowercase d = d" using assms(3) by simp
  show "routes_ok (ss_store ss')"
    using assms(1) sh low by (auto simp: routes_ok_def)
  show "fst resp \<noteq> 201 \<Longrightarrow> ss' = ss" using sh by auto
  show "find_route (d @ CHR '':'' # port) (ss_store ss') = Some (trim (rr_upstream_url req))"
    if "fst resp = 201" "rr_enabled req"
  proof -
    have "find (\<lambda>r. pr_enabled r \<and> to_lowercase (pr_domain r) = d) (routes (ss_store ss)) = None"
      using sh that(1) assms(1) by (auto simp: find_None_iff routes_ok_def)
    then show ?thesis
      unfolding find_route_port [OF assms(4)] using sh that low
      by (simp add: find_route_def find_append split_char_absent [OF assms(4)])
  qed
  show "find_route host (ss_store ss') = find_route host (ss_store ss)"
    if "to_lowercase (hd (split_char CHR '':'' host)) \<noteq> d"
    using sh that low by (auto simp: find_route_def find_append split: option.splits)
qed

text \<open>
  Creating a route keeps domains unique and lower case; a refused request changes nothing, and
  an accepted one makes exactly its own domain resolve to the new upstream, on any port, while
  every other host resolves as before.
\<close>

theorem create_route_served:
  assumes "routes_ok (ss_store ss)" and "create_route env uuid now req ss = (resp, ss')"
    and "d = to_lowercase (trim (rr_domain req))" and "CHR '':'' \<notin> set d"
  shows "routes_ok (ss_store ss')
    \<and> (if fst resp \<noteq> 201 then ss' = ss
       else rr_enabled req \<longrightarrow>
         (\<forall>port. find_route (d @ CHR '':'' # port) (ss_store ss') = Some (trim (rr_upstream_url req))))
    \<and> (\<forall>host. to_lowercase (hd (split_char CHR '':'' host)) \<noteq> d \<longrightarrow>
         find_route host (ss_store ss') = find_route host (ss_store ss))"
  using create_route_facts [OF assms] by simp

definition demo_store_state :: StoreState where
  "demo_store_state = \<lparr>ss_store = Store_default, ss_path = ''s.json'', ss_files = (\<lambda>_. None)\<rparr>"

definition demo_route_req :: "string \<Rightarrow> RouteReq" where
  "demo_route_req d = \<lparr>rr_domain = d, rr_upstream_url = ''http://10.0.0.1'', rr_enabled = True\<rparr>"

lemma demo_trim: "to_lowercase (trim ''App.Test'') = ''app.test''" "trim ''http://10.0.0.1'' = ''http://10.0.0.1''"
  by code_simp+

theorem create_route_served_witness:
  "find_route ''app.test:443''
     (ss_store (snd (create_route (demo_env Store_default) ''id'' 0 (demo_route_req ''App.Test'') demo_store_state)))
   = Some ''http://10.0.0.1''"
proof -
  have ok: "routes_ok (ss_store demo_store_state)"
    by (simp add: routes_ok_def demo_store_state_def Store_default_def)
  have c: "fst (fst (create_route (demo_env Store_default) ''id'' 0 (demo_route_req ''App.Test'') demo_store_state)) = 201"
    by (simp add: create_route_def Let_def demo_route_req_def demo_trim demo_store_state_def Store_default_def)
  have d: "''app.test'' = to_lowercase (trim (rr_domain (demo_route_req ''App.Test'')))"
    by (simp add: demo_route_req_def demo_trim)
  have p: "\<forall>port. find_route (''app.test'' @ CHR '':'' # port)
     (ss_store (snd (create_route (demo_env Store_default) ''id'' 0 (demo_route_req ''App.Test'') demo_store_state)))
     = Some (trim (rr_upstream_url (demo_route_req ''App.Test'')))"
    using create_route_served [OF ok surjective_pairing d, of "demo_env Store_default" "''id''" 0] c
    by (simp add: demo_route_req_def)
  show ?thesis using p [rule_format, of "''443''"] by (simp add: demo_route_req_def demo_trim)
qed

text \<open>
  Updating does not check what creating checks: a route can be given the domain of another, which
  then is shadowed for as long as the first one is enabled, or an empty domain.
\<close>

lemma update_route_no_check:
  assumes "routes store = [r1, r2]" and "pr_id r1 \<noteq> pr_id r2" and "ss_store ss = store"
    and "to_lowercase (trim (rr_domain req)) = pr_domain r2"
    and "update_route env (pr_id r1) req ss = (resp, ss')"
  shows "fst resp = 200 \<and> \<not> routes_ok (ss_store ss')"
  using assms by (auto simp: update_route_def Let_def routes_ok_def)

text \<open>Deleting removes all routes of the id, so that a second delete answers 404.\<close>

lemma delete_route_twice:
  assumes "delete_route env i ss = (resp, ss1)" and "delete_route env i ss1 = (resp2, ss2)"
  shows "fst resp2 = 404 \<and> ss2 = ss1 \<and> routes (ss_store ss1) = filter (\<lambda>r. pr_id r \<noteq> i) (routes (ss_store ss))"
proof -
  have all: "filter (\<lambda>r. pr_id r \<noteq> i) rs = rs" if "\<not> length (filter (\<lambda>r. pr_id r \<noteq> i) rs) < length rs" for rs
    using that length_filter_less filter_id_conv by (metis (mono_tags, lifting))
  show ?thesis using assms all [symmetric] by (auto simp: delete_route_def Let_def split: if_splits)
qed

lemma delete_route_ok: "routes_ok (ss_store ss) \<Longrightarrow> routes_ok (ss_store (snd (delete_route env i ss)))"
  by (auto simp: delete_route_def Let_def routes_ok_def distinct_map_filter)

section \<open>Settings\<close>

lemma ellipsis_prefix: "starts_with (ELLIPSIS @ t) ELLIPSIS"
  by (rule starts_with_append)

text \<open>
  The settings page never gives the token away and can be saved back unchanged: of a token of
  more than four bytes at most the last four are shown, and sending the shown text back in the
  form keeps the stored token.
\<close>

theorem settings_round_trip:
  assumes "masked_token (api_token (cf_or_default (ss_store ss))) = Some shown"
  shows "length shown \<le> 7
    \<and> cf (ss_store (snd (save_settings env (Some shown) acct ss)))
       = Some \<lparr>api_token = api_token (cf_or_default (ss_store ss)), account_id = trim acct\<rparr>"
proof
  have shown: "shown = [] \<or> (\<exists>t. length t \<le> 4 \<and> shown = ELLIPSIS @ t)"
    using assms by (auto simp: masked_token_def split: if_splits)
  then show "length shown \<le> 7" by auto
  have "shown = [] \<or> starts_with shown ELLIPSIS" using shown ellipsis_prefix by blast
  then show "cf (ss_store (snd (save_settings env (Some shown) acct ss)))
         = Some \<lparr>api_token = api_token (cf_or_default (ss_store ss)), account_id = trim acct\<rparr>"
    by (auto simp: save_settings_def Let_def cf_or_default_def split: option.splits)
qed

theorem settings_round_trip_witness:
  "cf (ss_store (snd (save_settings (demo_env Store_default) (Some (ELLIPSIS @ ''7890'')) '' acct '' 
     (demo_store_state\<lparr>ss_store := Store_default\<lparr>cf := Some \<lparr>api_token = ''1234567890'', account_id = []\<rparr>\<rparr>\<rparr>))))
   = Some \<lparr>api_token = ''1234567890'', account_id = ''acct''\<rparr>"
proof -
  let ?ss = "demo_store_state\<lparr>ss_store := Store_default\<lparr>cf := Some \<lparr>api_token = ''1234567890'', account_id = []\<rparr>\<rparr>\<rparr>"
  have m: "masked_token (api_token (cf_or_default (ss_store ?ss))) = Some (ELLIPSIS @ ''7890'')"
    by (simp add: cf_or_default_def masked_token_def is_char_boundary_def chr_code_def)
  have t: "trim '' acct '' = ''acct''" by code_simp
  show ?thesis using settings_round_trip [OF m, of "demo_env Store_default" "'' acct ''"] t
    by (simp add: cf_or_default_def)
qed

end
