(* ===== verification/Geoip.thy ===== *)
theory Geoip
  imports Net_Addr
begin

text \<open>
  The country filter, \<open>geoip.rs\<close>. The MaxMind reader is a dependency: an open database is the
  function \<open>lookup\<close> from an address to the ISO code of its record (\<open>None\<close>: an error, no country or
  no code). The static counter \<open>GEOIP_BLOCKED_TOTAL\<close> is threaded through.
\<close>

type_synonym geo_reader = "ipaddr \<Rightarrow> string option"

record GeoipFilter =
  geo_db :: "geo_reader option"
  blocked_countries :: "string set"

text \<open>\<open>open_readfile\<close> gives the reader of a path, or \<open>None\<close> when the file cannot be opened.\<close>

definition GeoipFilter_new ::
  "(string \<Rightarrow> geo_reader option) \<Rightarrow> string option \<Rightarrow> string list \<Rightarrow> GeoipFilter" where
  "GeoipFilter_new open_readfile db_path countries =
     \<lparr>geo_db = (case db_path of None \<Rightarrow> None | Some path \<Rightarrow> open_readfile path),
      blocked_countries = set (filter (\<lambda>c. c \<noteq> []) (map (\<lambda>c. to_uppercase (trim c)) countries))\<rparr>"

definition GeoipFilter_disabled :: GeoipFilter where
  "GeoipFilter_disabled = \<lparr>geo_db = None, blocked_countries = {}\<rparr>"

definition lookup_country :: "geo_reader \<Rightarrow> ipaddr \<Rightarrow> string option" where
  "lookup_country lookup addr = map_option to_uppercase (lookup addr)"

definition geoip_is_blocked :: "GeoipFilter \<Rightarrow> ipaddr \<Rightarrow> u64 \<Rightarrow> bool \<times> u64" where
  "geoip_is_blocked g addr n =
     (case geo_db g of
        None \<Rightarrow> (False, n)
      | Some lookup \<Rightarrow>
          if blocked_countries g = {} then (False, n)
          else (case lookup_country lookup addr of
                  Some cc \<Rightarrow> if cc \<in> blocked_countries g then (True, n + 1) else (False, n)
                | None \<Rightarrow> (False, n)))"

definition country_code :: "GeoipFilter \<Rightarrow> ipaddr \<Rightarrow> string option" where
  "country_code g addr = Option.bind (geo_db g) (\<lambda>lookup. lookup_country lookup addr)"

definition geoip_is_enabled :: "GeoipFilter \<Rightarrow> bool" where
  "geoip_is_enabled g \<longleftrightarrow> geo_db g \<noteq> None \<and> blocked_countries g \<noteq> {}"

section \<open>What is blocked\<close>

lemma upper_char_idem [simp]: "upper_char (upper_char c) = upper_char c"
  by (auto simp: upper_char_def is_ascii_lower_def)

lemma to_uppercase_idem [simp]: "to_uppercase (to_uppercase s) = to_uppercase s"
  by (simp add: to_uppercase_def)

lemma to_uppercase_Nil [simp]: "to_uppercase s = [] \<longleftrightarrow> s = []"
  by (simp add: to_uppercase_def)

text \<open>
  The filter of the relay's options blocks an address exactly if the database could be opened and
  knows its country, and that country, in any case, is in the configured list; each block is
  counted once, and without a readable database nothing is blocked.
\<close>

theorem geoip_blocks_exactly:
  assumes "g = GeoipFilter_new open_readfile db_path countries"
    and "geoip_is_blocked g addr n = (blocked, n2)"
  shows "(blocked \<longleftrightarrow> (\<exists>path lookup cc. db_path = Some path \<and> open_readfile path = Some lookup
        \<and> lookup addr = Some cc \<and> cc \<noteq> [] \<and> to_uppercase cc \<in> (to_uppercase \<circ> trim) ` set countries))
    \<and> n2 = (if blocked then n + 1 else n)"
proof (cases "Option.bind db_path open_readfile")
  case None
  then show ?thesis using assms by (auto simp: GeoipFilter_new_def geoip_is_blocked_def split: option.splits bind_splits)
next
  case (Some lookup)
  then obtain path where p: "db_path = Some path" "open_readfile path = Some lookup" by (auto split: bind_splits)
  show ?thesis
    using assms p by (cases "lookup addr")
      (auto simp: GeoipFilter_new_def geoip_is_blocked_def lookup_country_def filter_empty_conv split: if_splits)
qed

theorem geoip_blocks_exactly_witness:
  "geoip_is_blocked (GeoipFilter_new (\<lambda>p. Some (\<lambda>a. Some ''cn'')) (Some ''db'') ['' Cn '']) (V4 1) 0 = (True, 1)"
proof -
  have u: "to_uppercase ''cn'' = ''CN''" "to_uppercase (trim '' Cn '') = ''CN''" by code_simp+
  obtain b m where r: "geoip_is_blocked (GeoipFilter_new (\<lambda>p. Some (\<lambda>a. Some ''cn'')) (Some ''db'') ['' Cn '']) (V4 1) 0 = (b, m)"
    by fastforce
  then show ?thesis using geoip_blocks_exactly [OF refl r] u by simp
qed

end
