(* ===== verification/App_State.thy ===== *)
theory App_State
  imports Tunnel Http Store Geoip
begin

text \<open>
  The state the tasks of the relay share, \<open>AppState\<close> of \<open>main.rs\<close>. What a client connection needs
  of it is the \<open>ConnCtx\<close> (configuration) and the \<open>RelayState\<close> (the tunnel map, the TCP ports, the
  custom domains, metrics, rate limiter, audit log); the store, the access log, the country filter
  and the admin configuration are fields of their own.
\<close>

record AppState =
  app_ctx :: ConnCtx
  app_relay :: RelayState
  app_store :: StoreState
  log_buffer :: LogBuffer
  stats_history :: StatsHistory
  start_time :: nat
  admin_token :: "string option"
  app_admin_cidrs :: "(u32 \<times> u32) list"
  auth_file :: "string option"
  config_file :: "string option"
  tunnel_max_age :: u64
  max_body_bytes :: u64
  allow_custom_domains :: bool
  custom_domain_allowlist :: "string set"
  geoip :: GeoipFilter
  geoip_blocked :: u64
  seam_addr :: string
  relay_x25519 :: string
  relay_kem :: string
  cipher :: string

definition upd_relay :: "(RelayState \<Rightarrow> RelayState) \<Rightarrow> AppState \<Rightarrow> AppState" where
  "upd_relay f app = app\<lparr>app_relay := f (app_relay app)\<rparr>"

definition lookup_tunnel :: "string \<Rightarrow> AppState \<Rightarrow> TunnelEntry option" where
  "lookup_tunnel key app = map_of (tunnels (app_relay app)) key"

text \<open>
  A handler that holds the \<open>Arc\<close> of an entry changes its atomics: the entry in the map, if it is
  still the same one. Changes to an entry that left the map are not visible any more.
\<close>

definition upd_entry :: "string \<Rightarrow> nat \<Rightarrow> (TunnelEntry \<Rightarrow> TunnelEntry) \<Rightarrow> RelayState \<Rightarrow> RelayState" where
  "upd_entry key conn f st =
     st\<lparr>tunnels := map (\<lambda>(k, e). (k, if k = key \<and> te_conn e = conn then f e else e)) (tunnels st)\<rparr>"

lemma keys_upd_entry [simp]: "map fst (tunnels (upd_entry key conn f st)) = map fst (tunnels st)"
  by (simp add: upd_entry_def comp_def case_prod_beta)

lemma lookup_upd_entry:
  "map_of (tunnels (upd_entry key conn f st)) k =
     map_option (\<lambda>e. if k = key \<and> te_conn e = conn then f e else e) (map_of (tunnels st) k)"
proof -
  have "map_of (map (\<lambda>(k, e). (k, if k = key \<and> te_conn e = conn then f e else e)) xs) k =
     map_option (\<lambda>e. if k = key \<and> te_conn e = conn then f e else e) (map_of xs k)" for xs :: "(string, TunnelEntry) hashmap"
    by (induction xs) auto
  then show ?thesis by (simp add: upd_entry_def)
qed

lemma upd_entry_rest [simp]:
  "r_metrics (upd_entry key conn f st) = r_metrics st"
  "custom_domains (upd_entry key conn f st) = custom_domains st"
  "tcp_ports (upd_entry key conn f st) = tcp_ports st" "signalled (upd_entry key conn f st) = signalled st"
  by (simp_all add: upd_entry_def)

end
