(* ===== verification/Tunnel_Props.thy ===== *)
theory Tunnel_Props
  imports Tunnel
begin

text \<open>
  What the tunnel life cycle of \<open>Tunnel\<close> guarantees: which connections are registered, what a
  refusal leaves behind, that opening and closing cancel out, the invariants of every
  interleaving of connections, closes, expiries and admin edits, and how far concurrent
  registrations can exceed the caps.
\<close>

section \<open>Frame facts\<close>

text \<open>The parts of the state that registration is about.\<close>

definition core :: "RelayState \<Rightarrow> (string, TunnelEntry) hashmap \<times> u16 set \<times> (string, string) hashmap \<times> nat set" where
  "core st = (tunnels st, tcp_ports st, custom_domains st, signalled st)"

lemma core_frames [simp]:
  "core (upd_metrics f st) = core st" "core (audit t n kvs st) = core st"
  "core (webhook_fire ctx b st) = core st" "core (st\<lparr>r_rate_limiter := rl\<rparr>) = core st"
  by (auto simp: core_def upd_metrics_def audit_def webhook_fire_def split: option.splits)

lemma core_fields:
  "core st = core st' \<Longrightarrow> tunnels st = tunnels st'" "core st = core st' \<Longrightarrow> tcp_ports st = tcp_ports st'"
  "core st = core st' \<Longrightarrow> custom_domains st = custom_domains st'"
  "core st = core st' \<Longrightarrow> signalled st = signalled st'"
  by (simp_all add: core_def)

lemma tunnels_frames [simp]:
  "tunnels (upd_metrics f st) = tunnels st" "tunnels (audit t n kvs st) = tunnels st"
  "tunnels (webhook_fire ctx b st) = tunnels st"
  "tcp_ports (upd_metrics f st) = tcp_ports st" "tcp_ports (audit t n kvs st) = tcp_ports st"
  "tcp_ports (webhook_fire ctx b st) = tcp_ports st"
  "tcp_ports (tunnels_insert k e st) = tcp_ports st" "tcp_ports (tunnels_remove k st) = tcp_ports st"
  "tunnels (tunnels_insert k e st) = AList.update k e (tunnels st)"
  "tunnels (tunnels_remove k st) = AList.delete k (tunnels st)"
  "signalled (upd_metrics f st) = signalled st" "signalled (audit t n kvs st) = signalled st" "signalled (webhook_fire ctx b st) = signalled st"
  by (auto simp: upd_metrics_def audit_def webhook_fire_def tunnels_insert_def tunnels_remove_def split: option.splits)

lemma limiter_frame [simp]: "r_rate_limiter (upd_metrics f st) = r_rate_limiter st"
  by (simp add: upd_metrics_def)

lemma caps_frames [simp]:
  "per_ip_full ctx ip (upd_metrics f st) = per_ip_full ctx ip st" "cap_full ctx (upd_metrics f st) = cap_full ctx st"
  "per_ip_full ctx ip (st\<lparr>r_rate_limiter := rl\<rparr>) = per_ip_full ctx ip st"
  "cap_full ctx (st\<lparr>r_rate_limiter := rl\<rparr>) = cap_full ctx st"
  by (auto simp: per_ip_full_def cap_full_def count_for_ip_def upd_metrics_def)

lemma admit_core: "core (snd (snd (admit ctx ci st))) = core st"
  by (auto simp: admit_def Let_def split: sum.splits ControlFrame.splits prod.splits)

section \<open>The gate\<close>

text \<open>What a request must satisfy at the moment of its checks.\<close>

definition token_accepted :: "AuthPolicy \<Rightarrow> string option \<Rightarrow> bool" where
  "token_accepted pol token =
     (case allowed pol of None \<Rightarrow> True | Some cs \<Rightarrow> (case token of None \<Rightarrow> False | Some t \<Rightarrow> t \<in> set cs))"

definition name_allowed :: "ConnCtx \<Rightarrow> string \<Rightarrow> bool" where
  "name_allowed ctx n \<longleftrightarrow> label_ok n \<and> to_lowercase n \<notin> set (names (reserved_subdomains ctx))
     \<and> (case prefix (subdomain_prefix ctx) of None \<Rightarrow> True | Some p \<Rightarrow> starts_with (to_lowercase n) p)
     \<and> to_lowercase n \<notin> set (bl_entries (blocklist ctx))"

definition gate_open :: "ConnCtx \<Rightarrow> ConnInput \<Rightarrow> RelayState \<Rightarrow> string option \<Rightarrow> bool" where
  "gate_open ctx ci st token \<longleftrightarrow>
     \<not> denylist_check ctx ci \<and> token_accepted (auth ctx) token
     \<and> fst (check_and_record (ci_now ci) (ci_ip ci) (r_rate_limiter st))
     \<and> \<not> per_ip_full ctx (ci_ip ci) st \<and> \<not> cap_full ctx st"

lemma token_accepted_check:
  "ct_eq_law ct \<Longrightarrow> token_accepted pol token \<longleftrightarrow> AuthPolicy_check ct pol token = Inr ()"
  by (auto simp: token_accepted_def AuthPolicy_check_def token_fold_law Let_def split: option.splits)

lemma admit_iff:
  assumes "ct_eq_law (ct_eq_impl ctx)"
  shows "fst (admit ctx ci st) = Inr kind \<longleftrightarrow>
    (\<exists>token. ci_read ci = GotFrame (Register PROTOCOL_VERSION token kind) \<and> gate_open ctx ci st token)"
proof (cases "\<exists>v token k. ci_read ci = GotFrame (Register v token k)")
  case False
  then have "\<exists>e. fst (admit ctx ci st) = Inl e"
    by (auto simp: admit_def read_register_def split: register_read.splits ControlFrame.splits)
  with False show ?thesis by auto
next
  case True
  then obtain v token k where r: "ci_read ci = GotFrame (Register v token k)" by blast
  show ?thesis
  proof (cases "AuthPolicy_check (ct_eq_impl ctx) (auth ctx) token")
    case (Inl e)
    then show ?thesis
      using r token_accepted_check [OF assms, of "auth ctx" token]
      by (auto simp: admit_def gate_open_def read_register_def case_prod_beta Let_def)
  next
    case (Inr u)
    then show ?thesis
      using r token_accepted_check [OF assms, of "auth ctx" token]
      by (auto simp: admit_def gate_open_def read_register_def case_prod_beta Let_def)
  qed
qed

lemma check_requested_None: "check_requested ctx n = None \<longleftrightarrow> name_allowed ctx n"
proof (cases "validate_subdomain n")
  case (Inl e)
  then show ?thesis
    using validate_iff_label [of n] by (simp add: check_requested_def name_allowed_def)
next
  case (Inr u)
  then show ?thesis
    using validate_iff_label [of n]
    by (auto simp: check_requested_def name_allowed_def is_reserved_def is_blocked_def SubdomainPrefix_check_def
        split: option.splits)
qed

text \<open>The key a kind is registered under, given the draws of the connection and the port bound.\<close>

definition chosen_name :: "ConnCtx \<Rightarrow> ConnInput \<Rightarrow> string option \<Rightarrow> string" where
  "chosen_name ctx ci subdomain =
     (case subdomain of Some s \<Rightarrow> s
      | None \<Rightarrow> random_subdomain_with_length (ci_gen ci) (subdomain_length ctx))"

lemma open_http_ok:
  assumes "open_http ctx ci subdomain st = (Inr s, out, st')"
  shows "(\<forall>n. subdomain = Some n \<longrightarrow> name_allowed ctx n) \<and> s_key s = chosen_name ctx ci subdomain
    \<and> map_of (tunnels st) (s_key s) = None
    \<and> core st' = core (tunnels_insert (s_key s) (new_entry ci (s_key s)) st)
    \<and> out = [Registered (public_url ctx (s_key s))] \<and> s_url s = public_url ctx (s_key s)
    \<and> s_conn s = ci_conn ci \<and> s_port s = None \<and> s_custom_domain s = None"
  using assms
  by (auto simp: open_http_def chosen_name_def check_requested_None Let_def split: option.splits if_splits)

lemma bind_random_Some:
  "bind_random_port n draw os_bind u = Some (q, u') \<Longrightarrow>
   os_bind q \<and> q \<notin> u \<and> u' = insert q u \<and> (\<exists>k < n. q = draw k)"
  by (induction n) (auto simp: Let_def less_Suc_eq split: if_splits)

lemma bind_random_None:
  "bind_random_port n draw os_bind u = None \<longleftrightarrow> (\<forall>k < n. draw k \<in> u \<or> \<not> os_bind (draw k))"
  by (induction n) (auto simp: Let_def less_Suc_eq)

lemma open_tcp_ok:
  assumes "open_tcp ctx ci port st = (Inr s, out, st')"
  obtains p where "s_port s = Some p" and "s_key s = tcp_key p" and "port \<noteq> 0 \<longrightarrow> p = port"
    and "ci_bind ci p" and "tunnels st' = AList.update (tcp_key p) (new_entry ci (tcp_key p)) (tunnels st)"
    and "tcp_ports st' = insert p (tcp_ports st)" and "out = [Registered (s_url s)]" and "s_conn s = ci_conn ci"
proof -
  obtain p st1 where b: "bind_tcp ci port st = Inr (p, st1)"
    using assms by (auto simp: open_tcp_def split: sum.splits)
  have p: "ci_bind ci p" "port \<noteq> 0 \<longrightarrow> p = port" "tunnels st1 = tunnels st" "tcp_ports st1 = insert p (tcp_ports st)"
    using b by (auto simp: bind_tcp_def split: option.splits if_splits dest!: bind_random_Some)
  show ?thesis
    using that [of p] assms p by (auto simp: open_tcp_def b Let_def split: if_splits)
qed

text \<open>
  Claim C1. The gate: a connection is registered only if its address is not on the deny list, it sent
  a Register frame of the right version with an accepted token, the rate limiter admitted it
  and neither cap was reached, and, for an HTTP tunnel, the requested name is a DNS label that is
  not reserved, has the required prefix, is not blocked and was free. It then gets exactly one
  reply, and the tunnel map gains exactly its entry.
\<close>

theorem registration_gate:
  assumes "ct_eq_law (ct_eq_impl ctx)" and "handle_client ctx ci st = (Inr s, out, st')"
  shows "\<exists>token kind. ci_read ci = GotFrame (Register PROTOCOL_VERSION token kind) \<and> gate_open ctx ci st token
    \<and> (\<forall>subdomain. kind = Http subdomain \<longrightarrow>
         (\<forall>n. subdomain = Some n \<longrightarrow> name_allowed ctx n) \<and> s_key s = chosen_name ctx ci subdomain
         \<and> map_of (tunnels st) (s_key s) = None)
    \<and> (\<forall>port. kind = Tcp port \<longrightarrow> (\<exists>p. s_key s = tcp_key p \<and> (port \<noteq> 0 \<longrightarrow> p = port) \<and> ci_bind ci p))
    \<and> out = [Registered (s_url s)]
    \<and> tunnels st' = AList.update (s_key s) (new_entry ci (s_key s)) (tunnels st)"
proof -
  obtain r out1 st1 where a: "admit ctx ci st = (r, out1, st1)" by (cases "admit ctx ci st") auto
  obtain kind where k: "r = Inr kind" using assms(2) a by (cases r) (auto simp: handle_client_def)
  have t: "tunnels st1 = tunnels st" using admit_core [of ctx ci st] a by (simp add: core_def)
  obtain token where tok: "ci_read ci = GotFrame (Register PROTOCOL_VERSION token kind)" "gate_open ctx ci st token"
    using admit_iff [OF assms(1), of ci st kind] a k by auto
  show ?thesis
  proof (cases kind)
    case (Http subdomain)
    then have o: "open_http ctx ci subdomain st1 = (Inr s, out, st')"
      using assms(2) a k by (simp add: handle_client_def)
    show ?thesis
      using open_http_ok [OF o] t tok Http by (auto simp: core_def)
  next
    case (Tcp port)
    then have o: "open_tcp ctx ci port st1 = (Inr s, out, st')"
      using assms(2) a k by (simp add: handle_client_def)
    then show ?thesis
      by (rule open_tcp_ok) (use t tok Tcp in auto)
  qed
qed

definition demo_ctx :: ConnCtx where
  "demo_ctx =
     \<lparr>base_domain = ''relay.test'', http_port = 80, https_port = None, auth = AuthPolicy_open,
      max_tunnels_per_ip = 0, max_tunnels = 1, reserved_subdomains = ReservedSubdomains_new [''admin''],
      subdomain_prefix = \<lparr>prefix = None\<rparr>, subdomain_length = 8, blocklist = blocklist_disabled,
      ip_denylist = disabled, tunnel_keepalive = 0, webhook_url = None,
      ct_eq_impl = (\<lambda>a b. if a = b then 1 else 0)\<rparr>"

definition demo_state :: RelayState where
  "demo_state =
     \<lparr>tunnels = [], tcp_ports = {}, custom_domains = [], r_metrics = new_metrics,
      r_rate_limiter = RateLimiter_new 0 60, r_audit = AuditLog_disabled, r_webhooks = [], signalled = {}\<rparr>"

definition demo_input :: "nat \<Rightarrow> string \<Rightarrow> ConnInput" where
  "demo_input n name =
     \<lparr>ci_conn = n, ci_ip = ''10.0.0.1'',
      ci_read = GotFrame (Register PROTOCOL_VERSION None (Http (Some name))),
      ci_now = 0, ci_unix = 1000, ci_handshake_ms = 1, ci_gen = (\<lambda>k. k mod 36), ci_bind = (\<lambda>_. True),
      ci_port_draw = (\<lambda>k. 10000), ci_reply_ok = True\<rparr>"

lemma demo_name: "validate_subdomain ''web'' = Inr ()" "validate_subdomain ''api'' = Inr ()"
  by (simp_all add: validate_subdomain_def is_ascii_alphanumeric_def is_digit_def is_ascii_upper_def
      is_ascii_lower_def chr_code_def starts_with_def ends_with_def)

lemmas demo_defs = demo_ctx_def demo_state_def demo_input_def disabled_def blocklist_disabled_def
  AuthPolicy_open_def AuditLog_disabled_def RateLimiter_new_def ReservedSubdomains_new_def

lemma demo_opens:
  "\<exists>s out st'. handle_client demo_ctx (demo_input 1 ''web'') demo_state = (Inr s, out, st') \<and> s_key s = ''web''"
  by (simp add: handle_client_def admit_def open_http_def check_requested_def demo_name demo_defs denylist_check_def
      is_enabled_def read_register_def AuthPolicy_check_def check_and_record_def per_ip_full_def cap_full_def
      is_reserved_def is_blocked_def SubdomainPrefix_check_def to_lowercase_def lower_char_def is_ascii_upper_def
      chr_code_def upd_metrics_def tunnels_insert_def Let_def)

theorem registration_gate_witness:
  "\<exists>s out st'. handle_client demo_ctx (demo_input 1 ''web'') demo_state = (Inr s, out, st')
     \<and> out = [Registered (s_url s)] \<and> tunnels st' = [(''web'', new_entry (demo_input 1 ''web'') ''web'')]"
proof -
  obtain s out st' where h: "handle_client demo_ctx (demo_input 1 ''web'') demo_state = (Inr s, out, st')"
    and k: "s_key s = ''web''" using demo_opens by blast
  have "ct_eq_law (ct_eq_impl demo_ctx)" by (simp add: ct_eq_law_def demo_ctx_def)
  from registration_gate [OF this h] show ?thesis using h k by (auto simp: demo_state_def)
qed

section \<open>Refusals\<close>

definition reply_code :: "ConnError \<Rightarrow> u16 option" where
  "reply_code e =
     (case e of
        VersionMismatch \<Rightarrow> Some 400 | AuthDenied msg \<Rightarrow> Some (if msg = ''auth required'' then 401 else 403)
      | RateLimited \<Rightarrow> Some 429 | PerIpLimit \<Rightarrow> Some 429 | CapReached \<Rightarrow> Some 503
      | InvalidSubdomain m \<Rightarrow> Some 400 | ReservedName \<Rightarrow> Some 403 | PrefixViolation m \<Rightarrow> Some 403
      | BlocklistedName \<Rightarrow> Some 403 | SubdomainTaken \<Rightarrow> Some 409 | _ \<Rightarrow> None)"

definition refusal_reply :: "ConnError \<Rightarrow> ControlFrame list \<Rightarrow> bool" where
  "refusal_reply e out = (case reply_code e of None \<Rightarrow> out = [] | Some c \<Rightarrow> (\<exists>msg. out = [Error c msg]))"

lemma admit_refuses:
  assumes "admit ctx ci st = (Inl e, out, st')"
  shows "core st' = core st \<and> refusal_reply e out \<and> e \<noteq> ReplyFailed"
proof -
  have "core st' = core st" using admit_core [of ctx ci st] assms by simp
  moreover have "refusal_reply e out \<and> e \<noteq> ReplyFailed"
    using assms
    by (auto simp: admit_def refusal_reply_def reply_code_def read_register_def auth_reason_def Let_def
        case_prod_beta split: if_splits sum.splits register_read.splits ControlFrame.splits AuthError.splits)
  ultimately show ?thesis by blast
qed

lemma check_requested_reply:
  "check_requested ctx n = Some (e, frame) \<Longrightarrow> refusal_reply e [frame] \<and> e \<noteq> ReplyFailed"
  by (auto simp: check_requested_def refusal_reply_def reply_code_def split: sum.splits if_splits)

lemma open_http_refuses:
  assumes "open_http ctx ci subdomain st = (Inl e, out, st')" and "e \<noteq> ReplyFailed"
  shows "core st' = core st \<and> refusal_reply e out"
  using assms check_requested_reply [of ctx _ e]
  by (auto simp: open_http_def Let_def refusal_reply_def reply_code_def split: option.splits if_splits)

lemma open_tcp_refuses:
  assumes "open_tcp ctx ci port st = (Inl e, out, st')" and "e \<noteq> ReplyFailed"
  shows "core st' = core st \<and> refusal_reply e out"
  using assms
  by (auto simp: open_tcp_def bind_tcp_def Let_def refusal_reply_def reply_code_def
      split: sum.splits option.splits if_splits)



text \<open>
  The exception is a failed reply: when the Registered frame cannot be written, the handler
  returns its error with the entry already in the map (the TCP port already in the port set),
  and no session exists that would remove it.
\<close>

theorem reply_failure_leaks:
  assumes "\<not> ci_reply_ok ci" and "admit ctx ci st = (Inr kind, out1, st1)"
    and "case kind of
           Http subdomain \<Rightarrow> (\<forall>n. subdomain = Some n \<longrightarrow> name_allowed ctx n)
             \<and> map_of (tunnels st) (chosen_name ctx ci subdomain) = None
         | Tcp port \<Rightarrow> port \<noteq> 0 \<and> ci_bind ci port"
  shows "case handle_client ctx ci st of (r, out, st') \<Rightarrow>
    r = Inl ReplyFailed \<and> out = []
    \<and> (case kind of
         Http subdomain \<Rightarrow> map_of (tunnels st') (chosen_name ctx ci subdomain) =
           Some (new_entry ci (chosen_name ctx ci subdomain))
       | Tcp port \<Rightarrow> port \<in> tcp_ports st' \<and> tunnels st' = tunnels st)"
proof -
  have t: "tunnels st1 = tunnels st" "tcp_ports st1 = tcp_ports st"
    using admit_core [of ctx ci st] assms(2) by (auto simp: core_def)
  show ?thesis
  proof (cases kind)
    case (Http subdomain)
    then show ?thesis
      using assms t
      by (auto simp: handle_client_def open_http_def chosen_name_def check_requested_None [symmetric] Let_def
          split: option.splits)
  next
    case (Tcp port)
    then show ?thesis
      using assms t by (auto simp: handle_client_def open_tcp_def bind_tcp_def Let_def)
  qed
qed

lemma demo_admit: "\<exists>st1. admit demo_ctx ((demo_input n name)\<lparr>ci_reply_ok := b\<rparr>) demo_state = (Inr (Http (Some name)), [], st1)"
  by (simp add: admit_def demo_defs denylist_check_def is_enabled_def read_register_def AuthPolicy_check_def
      check_and_record_def per_ip_full_def cap_full_def upd_metrics_def Let_def)

lemma demo_name_allowed: "name_allowed demo_ctx ''web''" "name_allowed demo_ctx ''api''"
  by (simp_all add: check_requested_None [symmetric] check_requested_def demo_name demo_defs is_reserved_def
      is_blocked_def SubdomainPrefix_check_def to_lowercase_def lower_char_def is_ascii_upper_def chr_code_def)

theorem reply_failure_leaks_witness:
  "map_of (tunnels (snd (snd (handle_client demo_ctx ((demo_input 1 ''web'')\<lparr>ci_reply_ok := False\<rparr>) demo_state)))) ''web''
     = Some (new_entry (demo_input 1 ''web'') ''web'')"
proof -
  let ?ci = "(demo_input 1 ''web'')\<lparr>ci_reply_ok := False\<rparr>"
  obtain st1 where a: "admit demo_ctx ?ci demo_state = (Inr (Http (Some ''web'')), [], st1)"
    using demo_admit by blast
  have e: "new_entry ?ci ''web'' = new_entry (demo_input 1 ''web'') ''web''"
    by (simp add: new_entry_def demo_input_def)
  show ?thesis
    using reply_failure_leaks [OF _ a] demo_name_allowed(1) e
    by (simp add: chosen_name_def demo_state_def case_prod_beta)
qed

section \<open>Open and close\<close>

text \<open>
  Claim C23. Opening and closing cancel out: after a registered connection has been closed, whatever it
  transferred and however it ended, the tunnel map and the TCP port set are those from before it
  came, provided its key was free (always so for an HTTP tunnel) and its port not yet in the set.
\<close>

theorem open_close_restores:
  assumes "handle_client ctx ci st = (Inr s, out, st')"
    and "map_of (tunnels st) (s_key s) = None" and "\<forall>p. s_port s = Some p \<longrightarrow> p \<notin> tcp_ports st"
  shows "tunnels (close_session ctx s timeout now bi bo st') = tunnels st
    \<and> tcp_ports (close_session ctx s timeout now bi bo st') = tcp_ports st"
proof -
  obtain r out1 st1 where a: "admit ctx ci st = (r, out1, st1)" by (cases "admit ctx ci st") auto
  obtain kind where k: "r = Inr kind" using assms(1) a by (cases r) (auto simp: handle_client_def)
  have t: "tunnels st1 = tunnels st" "tcp_ports st1 = tcp_ports st"
    using admit_core [of ctx ci st] a by (simp_all add: core_def)
  show ?thesis
  proof (cases kind)
    case (Http subdomain)
    then have o: "open_http ctx ci subdomain st1 = (Inr s, out, st')"
      using assms(1) a k by (simp add: handle_client_def)
    have "tunnels st' = AList.update (s_key s) (new_entry ci (s_key s)) (tunnels st)" "tcp_ports st' = tcp_ports st"
      "s_port s = None" "s_custom_domain s = None"
      using open_http_ok [OF o] t by (auto simp: core_def)
    then show ?thesis using assms(2) by (simp add: close_session_def Let_def delete_update_absent)
  next
    case (Tcp port)
    then have o: "open_tcp ctx ci port st1 = (Inr s, out, st')"
      using assms(1) a k by (simp add: handle_client_def)
    show ?thesis
    proof (rule open_tcp_ok [OF o])
      fix p
      assume p: "s_port s = Some p" "s_key s = tcp_key p"
        and "tunnels st' = AList.update (tcp_key p) (new_entry ci (tcp_key p)) (tunnels st1)"
        and "tcp_ports st' = insert p (tcp_ports st1)"
      with t assms(2,3) show ?thesis
        by (auto simp: close_session_def Let_def delete_update_absent)
    qed
  qed
qed

theorem open_close_restores_witness:
  "\<exists>s out st'. handle_client demo_ctx (demo_input 1 ''web'') demo_state = (Inr s, out, st')
     \<and> tunnels (close_session demo_ctx s False 2000 0 0 st') = []"
proof -
  obtain s out st' where h: "handle_client demo_ctx (demo_input 1 ''web'') demo_state = (Inr s, out, st')"
    using demo_opens by blast
  from open_close_restores [OF h] have "tunnels (close_session demo_ctx s False 2000 0 0 st') = []"
    by (simp add: demo_state_def)
  with h show ?thesis by blast
qed

section \<open>Expiry\<close>

lemma fold_tunnels_remove:
  "tunnels (fold (\<lambda>(key, e). tunnels_remove key) xs st) = filter (\<lambda>p. fst p \<notin> fst ` set xs) (tunnels st)"
proof (induction xs arbitrary: st)
  case Nil
  then show ?case by (simp add: filter_id_conv)
next
  case (Cons x xs)
  then show ?case by (cases x) (auto simp: AList.delete_eq intro!: filter_cong)
qed

lemma expire_tick_tunnels:
  assumes "distinct (map fst (tunnels st))"
  shows "tunnels (expire_tick max_age now st) = filter (\<lambda>(k, e). \<not> tunnel_age now e \<ge> max_age) (tunnels st)"
  using filter_keys_not [OF assms, of "\<lambda>(k, e). tunnel_age now e \<ge> max_age"]
  unfolding expire_tick_def Let_def fold_tunnels_remove by (simp add: case_prod_unfold)

lemma mod_shift_once: "d < 0 \<Longrightarrow> - m \<le> d \<Longrightarrow> d mod m = d + (m :: int)"
  using mod_pos_pos_trivial [of "d + m" m] mod_add_self2 [of d m] by simp

lemma saturating_sub_id: "\<bar>a - b\<bar> < 2 ^ 63 \<Longrightarrow> i64_saturating_sub a b = a - b"
  unfolding i64_saturating_sub_def by (simp only: abs_less_iff) linarith

lemma tunnel_age_ge:
  assumes "\<bar>now - te_connected_at e\<bar> < 2 ^ 63" and "unat max_age \<le> 2 ^ 63"
  shows "tunnel_age now e \<ge> max_age \<longleftrightarrow>
    now < te_connected_at e \<or> int (unat max_age) \<le> now - te_connected_at e"
proof (cases "now < te_connected_at e")
  case True
  let ?d = "now - te_connected_at e"
  have "uint (tunnel_age now e) = ?d mod 2 ^ 64"
    using assms(1) by (simp only: tunnel_age_def saturating_sub_id uint_word_of_int) simp
  also have "\<dots> = ?d + 2 ^ 64" using True assms(1) by (intro mod_shift_once) auto
  finally have "2 ^ 63 \<le> uint (tunnel_age now e)" using assms(1) by simp
  moreover have "int (unat max_age) \<le> 2 ^ 63" using assms(2) by (metis of_nat_le_iff of_nat_numeral of_nat_power)
  ultimately have "int (unat max_age) \<le> uint (tunnel_age now e)" by linarith
  then show ?thesis using True by (simp add: word_le_def)
next
  case False
  let ?d = "now - te_connected_at e"
  have "uint (tunnel_age now e) = ?d mod 2 ^ 64"
    using assms(1) by (simp only: tunnel_age_def saturating_sub_id uint_word_of_int) simp
  also have "\<dots> = ?d" using False assms(1) by simp
  finally show ?thesis using False by (simp add: word_le_def)
qed

lemma fold_remove_signals:
  "signalled st \<subseteq> signalled (fold (\<lambda>(key, e). tunnels_remove key) xs st)"
proof (induction xs arbitrary: st)
  case Nil
  then show ?case by simp
next
  case (Cons x xs)
  have "signalled st \<subseteq> signalled (tunnels_remove (fst x) st)"
    by (cases "map_of (tunnels st) (fst x)") (auto simp: tunnels_remove_def)
  with Cons [of "tunnels_remove (fst x) st"] show ?case by (simp add: case_prod_beta)
qed

lemma fold_remove_signals_all:
  "distinct (map fst xs) \<Longrightarrow> \<forall>x \<in> set xs. map_of (tunnels st) (fst x) = Some (snd x) \<Longrightarrow>
   \<forall>x \<in> set xs. te_conn (snd x) \<in> signalled (fold (\<lambda>(key, e). tunnels_remove key) xs st)"
proof (induction xs arbitrary: st)
  case Nil
  then show ?case by simp
next
  case (Cons x xs)
  let ?st = "tunnels_remove (fst x) st"
  have "map_of (tunnels ?st) (fst y) = Some (snd y)" if "y \<in> set xs" for y
  proof -
    have "fst y \<noteq> fst x" using Cons.prems(1) that by (metis distinct.simps(2) image_eqI list.map(2) list.set_map)
    then show ?thesis using Cons.prems(2) that by simp
  qed
  then have "\<forall>y \<in> set xs. te_conn (snd y) \<in> signalled (fold (\<lambda>(key, e). tunnels_remove key) xs ?st)"
    using Cons.IH [of ?st] Cons.prems(1) by simp
  moreover have "te_conn (snd x) \<in> signalled ?st" using Cons.prems(2) by (simp add: tunnels_remove_def)
  ultimately show ?case
    using fold_remove_signals [of ?st xs] unfolding case_prod_beta by simp blast
qed



section \<open>Interleavings\<close>

text \<open>
  Connections run concurrently. The checks of one connection are one step, at the moment of the
  last of them, and its registration is a later step; between the two the connection is
  pending. At most \<open>K\<close> connections are pending at a time.
\<close>

definition open_kind :: "ConnCtx \<Rightarrow> ConnInput \<Rightarrow> TunnelKind \<Rightarrow> RelayState \<Rightarrow> session outcome" where
  "open_kind ctx ci kind st =
     (case kind of Http subdomain \<Rightarrow> open_http ctx ci subdomain st | Tcp port \<Rightarrow> open_tcp ctx ci port st)"

text \<open>A change to an entry that keeps what identifies the tunnel.\<close>

definition same_tunnel :: "TunnelEntry \<Rightarrow> TunnelEntry \<Rightarrow> bool" where
  "same_tunnel e e' \<longleftrightarrow> te_conn e' = te_conn e \<and> te_client_ip e' = te_client_ip e \<and> te_subdomain e' = te_subdomain e"

type_synonym system = "RelayState \<times> (ConnInput \<times> TunnelKind) list"

inductive relay_step :: "ConnCtx \<Rightarrow> nat \<Rightarrow> system \<Rightarrow> system \<Rightarrow> bool" for ctx K where
  step_admit: "admit ctx ci st = (Inr kind, out, st') \<Longrightarrow> gen_range_law (ci_gen ci) \<Longrightarrow> length pend < K \<Longrightarrow>
    relay_step ctx K (st, pend) (st', pend @ [(ci, kind)])"
| step_refuse: "admit ctx ci st = (Inl e, out, st') \<Longrightarrow> relay_step ctx K (st, pend) (st', pend)"
| step_open: "open_kind ctx ci kind st = (r, out, st') \<Longrightarrow>
    relay_step ctx K (st, xs @ (ci, kind) # ys) (st', xs @ ys)"
| step_close: "relay_step ctx K (st, pend) (close_session ctx s timeout now bi bo st, pend)"
| step_expire: "relay_step ctx K (st, pend) (expire_tick max_age now st, pend)"
| step_sigterm: "relay_step ctx K (st, pend) (sigterm st, pend)"
| step_edit: "(\<And>k e. same_tunnel e (f k e)) \<Longrightarrow>
    relay_step ctx K (st, pend) (st\<lparr>tunnels := map (\<lambda>(k, e). (k, f k e)) (tunnels st)\<rparr>, pend)"

text \<open>Registration adds at most one entry, under its own name; only the key of an HTTP tunnel must be new.\<close>

lemma open_kind_tunnels:
  assumes "open_kind ctx ci kind st = (r, out, st')"
  shows "tunnels st' = tunnels st
    \<or> (\<exists>k. tunnels st' = AList.update k (new_entry ci k) (tunnels st)
         \<and> (case kind of
              Http subdomain \<Rightarrow> k = chosen_name ctx ci subdomain \<and> (\<forall>n. subdomain = Some n \<longrightarrow> name_allowed ctx n)
            | Tcp port \<Rightarrow> \<exists>p. k = tcp_key p))"
proof (cases kind)
  case (Http subdomain)
  then show ?thesis
    using assms
    by (auto simp: open_kind_def open_http_def chosen_name_def check_requested_None Let_def
        split: option.splits if_splits)
next
  case (Tcp port)
  then have o: "open_tcp ctx ci port st = (r, out, st')" using assms by (simp add: open_kind_def)
  show ?thesis
  proof (cases r)
    case (Inl e)
    then have "tunnels st' = tunnels st"
      using o by (auto simp: open_tcp_def bind_tcp_def Let_def split: sum.splits option.splits if_splits)
    then show ?thesis by simp
  next
    case (Inr s)
    from o [unfolded Inr] show ?thesis by (rule open_tcp_ok) (use Tcp in \<open>simp, blast\<close>)
  qed
qed

lemma open_kind_length:
  "open_kind ctx ci kind st = (r, out, st') \<Longrightarrow> length (tunnels st') \<le> Suc (length (tunnels st))"
  by (drule open_kind_tunnels, elim disjE exE conjE) (simp_all add: length_update_le)

lemma shrinking_steps:
  "length (tunnels (close_session ctx s timeout now bi bo st)) \<le> length (tunnels st)"
  "length (tunnels (expire_tick max_age now st)) \<le> length (tunnels st)"
  "tunnels (sigterm st) = []"
  by (simp_all add: close_session_def Let_def expire_tick_def fold_tunnels_remove sigterm_def length_delete_le
      split: option.split)

definition cap_inv :: "ConnCtx \<Rightarrow> nat \<Rightarrow> system \<Rightarrow> bool" where
  "cap_inv ctx K sys \<longleftrightarrow> length (tunnels (fst sys)) + length (snd sys) \<le> unat (max_tunnels ctx) - 1 + K"

lemma admit_below_cap:
  assumes "admit ctx ci st = (Inr kind, out, st')" and "0 < max_tunnels ctx" and "length (tunnels st) < 2 ^ 32"
  shows "length (tunnels st') < unat (max_tunnels ctx)"
proof -
  have t: "tunnels st' = tunnels st" using admit_core [of ctx ci st] assms(1) by (simp add: core_def)
  have "\<not> cap_full ctx st"
    using assms(1)
    by (auto simp: admit_def Let_def case_prod_beta split: if_splits sum.splits ControlFrame.splits)
  then have "unat (word_of_nat (length (tunnels st)) :: u32) < unat (max_tunnels ctx)"
    using assms(2) by (simp add: cap_full_def word_less_nat_alt not_le)
  then show ?thesis using t assms(3) by (simp add: unat_of_nat_small)
qed

lemma cap_inv_step:
  assumes "relay_step ctx K sys sys'" and "cap_inv ctx K sys"
    and "0 < max_tunnels ctx" and "unat (max_tunnels ctx) + K < 2 ^ 32"
  shows "cap_inv ctx K sys'"
  using assms(1)
proof cases
  case (step_admit ci st kind out st' pend)
  have "length (tunnels st) < 2 ^ 32" using assms(2,4) step_admit by (simp add: cap_inv_def)
  then have "length (tunnels st') < unat (max_tunnels ctx)"
    using admit_below_cap step_admit assms(3) by blast
  then show ?thesis using step_admit by (simp add: cap_inv_def)
next
  case (step_refuse ci st e out st' pend)
  then have "tunnels st' = tunnels st" using admit_core [of ctx ci st] by (simp add: core_def)
  then show ?thesis using assms(2) step_refuse by (simp add: cap_inv_def)
next
  case (step_open ci kind st r out st' xs ys)
  then show ?thesis using open_kind_length [OF step_open(3)] assms(2) by (simp add: cap_inv_def)
next
  case (step_close st pend s timeout now bi bo)
  then show ?thesis
    using shrinking_steps(1) [of ctx s timeout now bi bo st] assms(2) by (simp add: cap_inv_def)
next
  case (step_expire st pend max_age now)
  then show ?thesis using shrinking_steps(2) [of max_age now st] assms(2) by (simp add: cap_inv_def)
next
  case (step_sigterm st pend)
  then show ?thesis using assms(2) by (simp add: cap_inv_def shrinking_steps)
next
  case (step_edit f st pend)
  then show ?thesis using assms(2) by (simp add: cap_inv_def)
qed

interpretation cap: invariant
  "\<lambda>s t. relay_step ctx K s t \<and> 0 < max_tunnels ctx \<and> unat (max_tunnels ctx) + K < 2 ^ 32" "cap_inv ctx K"
  for ctx K
  by unfold_locales (auto intro: cap_inv_step)

lemma open_http_free:
  assumes "name_allowed ctx n" and "map_of (tunnels st) n = None" and "ci_reply_ok ci"
  shows "\<exists>s out st'. open_http ctx ci (Some n) st = (Inr s, out, st')
    \<and> tunnels st' = AList.update n (new_entry ci n) (tunnels st)"
  using assms by (auto simp: open_http_def check_requested_None [symmetric] Let_def)

lemma demo_admit_any:
  assumes "tunnels st = []" and "rl_max (r_rate_limiter st) = 0"
  shows "\<exists>st1. admit demo_ctx (demo_input n name) st = (Inr (Http (Some name)), [], st1)
    \<and> tunnels st1 = [] \<and> rl_max (r_rate_limiter st1) = 0"
  using assms
  by (simp add: admit_def demo_defs denylist_check_def is_enabled_def read_register_def AuthPolicy_check_def
      check_and_record_def per_ip_full_def cap_full_def upd_metrics_def Let_def)

lemma demo_gen: "gen_range_law (ci_gen (demo_input n name))"
  by (simp add: gen_range_law_def demo_input_def length_CHARS)

text \<open>Two connections that pass the check before either is registered.\<close>

lemma demo_race:
  "\<exists>st. (relay_step demo_ctx 2)\<^sup>*\<^sup>* (demo_state, []) (st, []) \<and> max_tunnels demo_ctx = 1 \<and> length (tunnels st) = 2"
proof -
  let ?a = "demo_input 1 ''web''" and ?b = "demo_input 2 ''api''"
  obtain st1 where a: "admit demo_ctx ?a demo_state = (Inr (Http (Some ''web'')), [], st1)" "tunnels st1 = []"
    "rl_max (r_rate_limiter st1) = 0"
    using demo_admit_any [of demo_state 1 "''web''"] by (auto simp: demo_state_def RateLimiter_new_def)
  obtain st2 where b: "admit demo_ctx ?b st1 = (Inr (Http (Some ''api'')), [], st2)" "tunnels st2 = []"
    using demo_admit_any [OF a(2,3)] by blast
  have ok: "ci_reply_ok ?a" "ci_reply_ok ?b" by (simp_all add: demo_input_def)
  obtain s1 o1 st3 where c: "open_http demo_ctx ?a (Some ''web'') st2 = (Inr s1, o1, st3)"
    "tunnels st3 = [(''web'', new_entry ?a ''web'')]"
    using open_http_free [OF demo_name_allowed(1), of st2 ?a] b(2) ok by auto
  obtain s2 o2 st4 where d: "open_http demo_ctx ?b (Some ''api'') st3 = (Inr s2, o2, st4)"
    "tunnels st4 = [(''web'', new_entry ?a ''web''), (''api'', new_entry ?b ''api'')]"
    using open_http_free [OF demo_name_allowed(2), of st3 ?b] c(2) ok by auto
  have "relay_step demo_ctx 2 (demo_state, []) (st1, [(?a, Http (Some ''web''))])"
    using step_admit [OF a(1) demo_gen, of "[]" 2] by simp
  moreover have "relay_step demo_ctx 2 (st1, [(?a, Http (Some ''web''))]) (st2, [(?a, Http (Some ''web'')), (?b, Http (Some ''api''))])"
    using step_admit [OF b(1) demo_gen, of "[(?a, Http (Some ''web''))]" 2] by simp
  moreover have "relay_step demo_ctx 2 (st2, [(?a, Http (Some ''web'')), (?b, Http (Some ''api''))]) (st3, [(?b, Http (Some ''api''))])"
    using step_open [of demo_ctx ?a "Http (Some ''web'')" st2 "Inr s1" o1 st3 2 "[]"] c(1) by (simp add: open_kind_def)
  moreover have "relay_step demo_ctx 2 (st3, [(?b, Http (Some ''api''))]) (st4, [])"
    using step_open [of demo_ctx ?b "Http (Some ''api'')" st3 "Inr s2" o2 st4 2 "[]" "[]"] d(1) by (simp add: open_kind_def)
  ultimately have "(relay_step demo_ctx 2)\<^sup>*\<^sup>* (demo_state, []) (st4, [])"
    by (meson converse_rtranclp_into_rtranclp r_into_rtranclp)
  then show ?thesis using d(2) by (auto simp: demo_ctx_def)
qed

text \<open>
  Claim C21. The global cap and concurrency: the check of the cap and the insertion are separate, so the
  number of tunnels can exceed \<open>max_tunnels\<close>, but in every interleaving of connections, closes,
  expiries and admin edits by at most one less than the number of connections that may be
  between the two at once; with one at a time the cap is never exceeded.
\<close>

theorem cap_overshoot_bounded:
  assumes "(relay_step ctx K)\<^sup>*\<^sup>* (st0, []) (st, pend)" and "tunnels st0 = []" and "0 < max_tunnels ctx"
    and "unat (max_tunnels ctx) + K < 2 ^ 32" and "0 < K"
  shows "length (tunnels st) \<le> unat (max_tunnels ctx) + (K - 1)"
proof -
  have "(\<lambda>s t. relay_step ctx K s t \<and> 0 < max_tunnels ctx \<and> unat (max_tunnels ctx) + K < 2 ^ 32) = relay_step ctx K"
    using assms(3,4) by (intro ext) simp
  with cap.reachable [of ctx K "(st0, [])" "(st, pend)"] assms(1)
  have "cap_inv ctx K (st0, []) \<Longrightarrow> cap_inv ctx K (st, pend)" by simp
  moreover have "0 < unat (max_tunnels ctx)" using assms(3) by (simp add: unat_gt_0)
  ultimately show ?thesis using assms(2,5) by (simp add: cap_inv_def)
qed

theorem cap_overshoot_bounded_witness:
  "\<exists>st. (relay_step demo_ctx 2)\<^sup>*\<^sup>* (demo_state, []) (st, []) \<and> length (tunnels st) = 2
     \<and> length (tunnels st) \<le> unat (max_tunnels demo_ctx) + 1"
proof -
  obtain st where r: "(relay_step demo_ctx 2)\<^sup>*\<^sup>* (demo_state, []) (st, [])" "length (tunnels st) = 2"
    using demo_race by blast
  from cap_overshoot_bounded [OF r(1)] r show ?thesis by (auto simp: demo_ctx_def demo_state_def)
qed

text \<open>
  The bound is reached: with \<open>max_tunnels\<close> 1, two connections that pass the check before
  either is registered are both registered.
\<close>

theorem cap_can_be_exceeded:
  "\<exists>st. (relay_step demo_ctx 2)\<^sup>*\<^sup>* (demo_state, []) (st, []) \<and> max_tunnels demo_ctx = 1 \<and> length (tunnels st) = 2"
  by (rule demo_race)

section \<open>Well-formed maps\<close>

definition key_shape :: "string \<Rightarrow> bool" where
  "key_shape k \<longleftrightarrow> CHR '':'' \<notin> set k \<or> (\<exists>p. k = tcp_key p)"

definition map_ok :: "(string, TunnelEntry) hashmap \<Rightarrow> bool" where
  "map_ok m \<longleftrightarrow> distinct (map fst m) \<and> (\<forall>p \<in> set m. te_subdomain (snd p) = fst p \<and> key_shape (fst p))"

definition map_inv :: "system \<Rightarrow> bool" where
  "map_inv sys \<longleftrightarrow> map_ok (tunnels (fst sys)) \<and> (\<forall>p \<in> set (snd sys). gen_range_law (ci_gen (fst p)))"

lemma alnum_not_colon: "is_ascii_alphanumeric c \<or> c = CHR ''-'' \<Longrightarrow> c \<noteq> CHR '':''"
  by (auto simp: is_ascii_alphanumeric_def is_digit_def is_ascii_upper_def is_ascii_lower_def chr_code_def)

lemma label_no_colon: "label_ok n \<Longrightarrow> CHR '':'' \<notin> set n"
  using alnum_not_colon by (auto simp: label_ok_def)

lemma random_no_colon:
  assumes "gen_range_law gen"
  shows "CHR '':'' \<notin> set (random_subdomain_with_length gen len)"
proof
  assume "CHR '':'' \<in> set (random_subdomain_with_length gen len)"
  then have "CHR '':'' \<in> set CHARS"
    using assms by (auto simp: random_subdomain_with_length_def gen_range_law_def)
  then have "is_ascii_alphanumeric CHR '':''" by (rule CHARS_alnum)
  then show False using alnum_not_colon by blast
qed

lemma chosen_name_shape:
  assumes "\<forall>n. subdomain = Some n \<longrightarrow> name_allowed ctx n" and "gen_range_law (ci_gen ci)"
  shows "key_shape (chosen_name ctx ci subdomain)"
  using assms label_no_colon random_no_colon
  by (cases subdomain) (auto simp: chosen_name_def key_shape_def name_allowed_def)

lemma map_ok_update:
  assumes "map_ok m" and "te_subdomain e = k" and "key_shape k"
  shows "map_ok (AList.update k e m)"
proof -
  have "set (AList.update k e m) \<subseteq> insert (k, e) (set m)" by (induction m) auto
  then show ?thesis using assms by (auto simp: map_ok_def distinct_update simp del: split_paired_All)
qed

lemma map_ok_filter: "map_ok m \<Longrightarrow> map_ok (filter P m)"
  by (simp add: map_ok_def distinct_map_filter)

lemma map_ok_delete: "map_ok m \<Longrightarrow> map_ok (AList.delete k m)"
  by (simp add: AList.delete_eq map_ok_filter)

lemma map_ok_edit:
  assumes "map_ok m" and "\<And>k e. te_subdomain (f k e) = te_subdomain e"
  shows "map_ok (map (\<lambda>(k, e). (k, f k e)) m)"
proof -
  have "map fst (map (\<lambda>(k, e). (k, f k e)) m) = map fst m" by (simp add: comp_def case_prod_beta)
  moreover have "\<forall>p \<in> set (map (\<lambda>(k, e). (k, f k e)) m). te_subdomain (snd p) = fst p \<and> key_shape (fst p)"
    using assms unfolding map_ok_def by (simp add: case_prod_beta)
  ultimately show ?thesis using assms(1) unfolding map_ok_def by presburger
qed

lemma map_inv_step:
  assumes "relay_step ctx K sys sys'" and "map_inv sys"
  shows "map_inv sys'"
  using assms(1)
proof cases
  case (step_admit ci st kind out st' pend)
  have "tunnels st' = tunnels st" using admit_core [of ctx ci st] step_admit by (simp add: core_def)
  then show ?thesis using assms(2) step_admit by (simp add: map_inv_def)
next
  case (step_refuse ci st e out st' pend)
  then have "tunnels st' = tunnels st" using admit_core [of ctx ci st] by (simp add: core_def)
  then show ?thesis using assms(2) step_refuse by (simp add: map_inv_def)
next
  case (step_open ci kind st r out st' xs ys)
  have ok: "map_ok (tunnels st)" "gen_range_law (ci_gen ci)" using assms(2) step_open by (simp_all add: map_inv_def)
  have "map_ok (AList.update k (new_entry ci k) (tunnels st))" if "key_shape k" for k
    using map_ok_update [OF ok(1) _ that] by (simp add: new_entry_def)
  moreover have "key_shape (tcp_key p)" for p by (auto simp: key_shape_def)
  ultimately have "map_ok (tunnels st')"
    using open_kind_tunnels [OF step_open(3)] chosen_name_shape [OF _ ok(2)] ok(1)
    by (cases kind) fastforce+
  then show ?thesis using assms(2) step_open by (simp add: map_inv_def)
next
  case (step_close st pend s timeout now bi bo)
  then show ?thesis
    using assms(2) by (simp add: map_inv_def close_session_def Let_def map_ok_delete split: option.split)
next
  case (step_expire st pend max_age now)
  then show ?thesis
    using assms(2) by (simp add: map_inv_def expire_tick_def fold_tunnels_remove map_ok_filter)
next
  case (step_sigterm st pend)
  then show ?thesis using assms(2) by (simp add: map_inv_def shrinking_steps map_ok_def)
next
  case (step_edit f st pend)
  then show ?thesis using assms(2) map_ok_edit [of "tunnels st" f] by (simp add: map_inv_def same_tunnel_def)
qed

interpretation tmap: invariant "relay_step ctx K" map_inv for ctx K
  by unfold_locales (rule map_inv_step)

lemma colon_in_tcp_key: "CHR '':'' \<in> set (tcp_key p)"
  by (simp add: tcp_key_def)

lemma tcp_key_inj: "tcp_key p = tcp_key q \<longleftrightarrow> p = q"
  by (simp add: tcp_key_def show_word_def show_nat_inj word_unat_eq_iff)

text \<open>
  In every interleaving the tunnel map stays well formed: no two entries share a key, each
  entry carries its key as its name, and a key is either the key of one TCP port or has no
  colon, so the name of an HTTP tunnel never collides with a TCP tunnel's and a TCP key names
  one port.
\<close>

theorem tunnel_map_well_formed:
  assumes "(relay_step ctx K)\<^sup>*\<^sup>* (st0, []) (st, pend)" and "tunnels st0 = []"
  shows "distinct (map fst (tunnels st))
    \<and> (\<forall>p \<in> set (tunnels st). te_subdomain (snd p) = fst p
         \<and> (CHR '':'' \<in> set (fst p) \<longrightarrow> (\<exists>!port. fst p = tcp_key port)))"
proof -
  have "map_inv (st0, [])" using assms(2) by (simp add: map_inv_def map_ok_def)
  from tmap.reachable [OF assms(1) this] have ok: "map_ok (tunnels st)" by (simp add: map_inv_def)
  have "\<exists>!port. k = tcp_key port" if "key_shape k" "CHR '':'' \<in> set k" for k
    using that tcp_key_inj by (auto simp: key_shape_def)
  then show ?thesis using ok unfolding map_ok_def by blast
qed

theorem tunnel_map_well_formed_witness:
  "\<exists>st. (relay_step demo_ctx 2)\<^sup>*\<^sup>* (demo_state, []) (st, []) \<and> length (tunnels st) = 2
     \<and> distinct (map fst (tunnels st))"
proof -
  obtain st where r: "(relay_step demo_ctx 2)\<^sup>*\<^sup>* (demo_state, []) (st, [])" "length (tunnels st) = 2"
    using demo_race by blast
  from tunnel_map_well_formed [OF r(1)] r show ?thesis by (auto simp: demo_state_def)
qed

section \<open>A stale close\<close>

text \<open>
  The clean-up goes by name: when a tunnel has been removed from the map (by the expiry task,
  say) and its name registered again before its own task ends, that task removes the new
  tunnel from the map and thereby disconnects it.
\<close>

theorem stale_close_kills_successor:
  assumes "map_of (tunnels st) (s_key s) = Some e" and "te_conn e \<noteq> s_conn s"
  shows "map_of (tunnels (close_session ctx s timeout now bi bo st)) (s_key s) = None
    \<and> te_conn e \<in> signalled (close_session ctx s timeout now bi bo st)"
  using assms(1) by (simp add: close_session_def tunnels_remove_def Let_def split: option.split)

theorem stale_close_kills_successor_witness:
  "2 \<in> signalled (close_session demo_ctx
      \<lparr>s_conn = 1, s_key = ''web'', s_url = [], s_client_ip = [], s_connected_at = 0, s_port = None, s_custom_domain = None\<rparr>
      False 100 0 0 (demo_state\<lparr>tunnels := [(''web'', new_entry (demo_input 2 ''web'') ''web'')]\<rparr>))"
  using stale_close_kills_successor [of "demo_state\<lparr>tunnels := [(''web'', new_entry (demo_input 2 ''web'') ''web'')]\<rparr>"
      "\<lparr>s_conn = 1, s_key = ''web'', s_url = [], s_client_ip = [], s_connected_at = 0, s_port = None, s_custom_domain = None\<rparr>"
      "new_entry (demo_input 2 ''web'') ''web''" demo_ctx False 100 0 0]
  by (simp add: new_entry_def demo_input_def)

text \<open>
  A request for a random TCP port gets a port the operating system granted and that no other
  tunnel of the relay holds, from one of at most 50 draws, and fails only if each of the 50
  ports drawn was held or refused.
\<close>

theorem random_port_sound:
  "case bind_random_port 50 draw os_bind in_use of
     None \<Rightarrow> (\<forall>k < 50. draw k \<in> in_use \<or> \<not> os_bind (draw k))
   | Some (p, in_use') \<Rightarrow> os_bind p \<and> p \<notin> in_use \<and> in_use' = insert p in_use \<and> (\<exists>k < 50. p = draw k)"
proof (cases "bind_random_port 50 draw os_bind in_use")
  case None
  then show ?thesis using bind_random_None [of 50 draw os_bind in_use] by simp
next
  case (Some r)
  then show ?thesis using bind_random_Some [of 50 draw os_bind in_use "fst r" "snd r"] by (simp add: case_prod_beta)
qed

theorem random_port_sound_witness:
  "\<exists>p. bind_random_port 50 (\<lambda>_. 10000) (\<lambda>_. True) {} = Some (p, {p}) \<and> p = 10000"
  using random_port_sound [where draw = "\<lambda>_. 10000" and os_bind = "\<lambda>_. True" and in_use = "{}"]
  by (cases "bind_random_port 50 (\<lambda>_. 10000) (\<lambda>_. True) {}") (auto dest: spec [of _ 0])

text \<open>
  A session goes on exactly while nothing tells it to stop: its pings can be written, or time out
  with keep-alive off, and what it reads from the client is not the end of the stream. An answer
  to a ping is not asked for, so that a client that is gone stays registered as long as its pings
  can be written, whatever the keep-alive setting.
\<close>

theorem session_goes_on_iff:
  "session_loop keepalive es = None \<longleftrightarrow>
     (\<forall>e \<in> set es. e = PingTick PingSent \<or> e = PingTick PingTimeout \<and> keepalive = 0 \<or> (\<exists>n > 0. e = ControlRead (Some n)))"
proof (induction es)
  case (Cons e es)
  have "session_event_step keepalive e = None \<longleftrightarrow>
      e = PingTick PingSent \<or> e = PingTick PingTimeout \<and> keepalive = 0 \<or> (\<exists>n > 0. e = ControlRead (Some n))"
    by (cases "(keepalive, e)" rule: session_event_step.cases) (auto simp: word_gt_0)
  then show ?case using Cons by (auto split: option.splits)
qed simp

theorem session_goes_on_iff_witness:
  "session_loop 30 (replicate 1000 (PingTick PingSent)) = None"
  using session_goes_on_iff [of 30 "replicate 1000 (PingTick PingSent)"] by simp

end
