(* ===== verification/Ingress.thy ===== *)
theory Ingress
  imports App_State Tunnel_Props
begin

text \<open>
  The public HTTP and HTTPS ingress, \<open>route_http\<close> of \<open>ingress.rs\<close>. One connection is two steps of
  the shared state: everything up to the byte copy (\<open>route_http\<close>, whose result says what the task
  goes on with) and what follows the copy (\<open>finish_proxy\<close>, \<open>finish_tunnel\<close>), so that other tasks
  can run in between. The outside world is the record \<open>HttpInput\<close>.
\<close>

section \<open>Reading the header block\<close>

datatype read_event = Bytes string | ReadFails

datatype head_result = Elapsed | HeadError | HeadOk bool

text \<open>The read loop. The list of reads ends where the 30 seconds of the time-out do.\<close>

fun read_head :: "string \<Rightarrow> read_event list \<Rightarrow> head_result \<times> string" where
  "read_head head [] = (Elapsed, head)"
| "read_head head (ReadFails # es) = (HeadError, head)"
| "read_head head (Bytes b # es) =
     (if b = [] then (HeadOk False, head)
      else let head = head @ b
           in if contains_str head (CRLF @ CRLF) then (HeadOk True, head)
              else if length head > 64 * 1024 then (HeadOk False, head)
              else read_head head es)"

section \<open>Inputs and results\<close>

datatype connect_result = Connected | Refused | ConnectTimeout

record HttpInput =
  hi_peer :: sockaddr
  hi_https :: bool
  hi_reads :: "read_event list"
  hi_now :: nat
  hi_unix :: int
  hi_connect :: "string \<Rightarrow> connect_result"
  hi_upstream_write :: bool
  hi_newconn_write :: bool
  hi_head_write :: bool

text \<open>What the task holds during the copy, with the frame and the bytes it has sent ahead.\<close>

record proxy_copy =
  pc_addr :: string
  pc_is_ws :: bool
  pc_sent :: string

record tunnel_copy =
  tc_sub :: string
  tc_conn :: nat
  tc_is_ws :: bool
  tc_method :: string
  tc_path :: string
  tc_ip :: string
  tc_start :: nat
  tc_frame :: ControlFrame
  tc_sent :: string

datatype ingress_result = Dropped | Answered string | IngressErr
  | Proxying proxy_copy | Tunnelling tunnel_copy

definition VERSION :: string where
  "VERSION = ''0.1.35''"

definition health_body :: "nat \<Rightarrow> nat \<Rightarrow> u64 \<Rightarrow> bool \<Rightarrow> string" where
  "health_body tunnels_active uptime_secs ws_active is_https =
     (let q = [CHR 0x22] in
      ''{'' @ q @ ''status'' @ q @ '':'' @ q @ ''ok'' @ q @ '','' @ q @ ''version'' @ q @ '':'' @ q @ VERSION @ q
      @ '','' @ q @ ''uptime_seconds'' @ q @ '':'' @ show_nat uptime_secs
      @ '','' @ q @ ''tunnels_active'' @ q @ '':'' @ show_nat tunnels_active
      @ '','' @ q @ ''ws_connections_active'' @ q @ '':'' @ show_word ws_active
      @ '','' @ q @ ''tls_version'' @ q @ '':'' @ q @ (if is_https then ''TLS1.3'' else ''none'') @ q
      @ '','' @ q @ ''fips_mode'' @ q @ '':false}'')"

definition health_response :: "string \<Rightarrow> bool \<Rightarrow> string" where
  "health_response body is_https =
     ''HTTP/1.1 200 OK'' @ CRLF @ ''Content-Length: '' @ show_nat (length body) @ CRLF
     @ ''Content-Type: application/json'' @ CRLF @ hsts is_https @ ''Cache-Control: no-store'' @ CRLF
     @ ''Connection: close'' @ CRLF @ CRLF @ body"

definition push_log :: "int \<Rightarrow> string \<Rightarrow> string \<Rightarrow> string \<Rightarrow> string \<Rightarrow> u16 \<Rightarrow> AppState \<Rightarrow> AppState" where
  "push_log now method path host routed status app =
     app\<lparr>log_buffer := logs_push \<lparr>ts = now, log_method = method, log_path = path, log_host = host,
           routed_to = routed, log_status = status\<rparr> (log_buffer app)\<rparr>"

section \<open>The routing decision\<close>

text \<open>Step 1: a static upstream.\<close>

definition route_proxy ::
  "HttpInput \<Rightarrow> string \<Rightarrow> string \<Rightarrow> string \<Rightarrow> string \<Rightarrow> string \<Rightarrow> AppState \<Rightarrow> ingress_result \<times> AppState" where
  "route_proxy hi head method path host url app =
     (case parse_upstream_addr url of
        None \<Rightarrow>
          (Answered (error_response ''502 Bad Gateway''
             (''seamless: misconfigured upstream for '' @ quoted host @ [LF]) (hi_https hi)), app)
      | Some addr \<Rightarrow>
          (case hi_connect hi addr of
             Refused \<Rightarrow>
               (Answered (error_response ''502 Bad Gateway''
                  (''seamless: upstream '' @ quoted addr @ '' unreachable'' @ [LF]) (hi_https hi)),
                push_log (hi_unix hi) method path host (''proxy:'' @ url) 502 app)
           | ConnectTimeout \<Rightarrow>
               (Answered (error_response ''504 Gateway Timeout''
                  (''seamless: upstream '' @ quoted addr @ '' timed out'' @ [LF]) (hi_https hi)),
                push_log (hi_unix hi) method path host (''proxy:'' @ url) 504 app)
           | Connected \<Rightarrow>
               let is_ws = is_websocket_upgrade head;
                   fwd_head = inject_forwarding_headers head (show_ip (sa_ip (hi_peer hi))) (hi_https hi)
               in if \<not> hi_upstream_write hi then (IngressErr, app)
                  else let app1 = push_log (hi_unix hi) method path host (''proxy:'' @ url) 0 app;
                           app2 = (if is_ws then upd_relay (upd_metrics inc_ws_connections) app1 else app1)
                       in (Proxying \<lparr>pc_addr = addr, pc_is_ws = is_ws, pc_sent = fwd_head\<rparr>, app2)))"

text \<open>Step 2: the tunnel named by a custom domain or by the subdomain of the host.\<close>

definition tunnel_name :: "string \<Rightarrow> AppState \<Rightarrow> string option" where
  "tunnel_name host app =
     (let host_only = to_lowercase (hd (split_char CHR '':'' host))
      in case map_of (custom_domains (app_relay app)) host_only of
           Some sub \<Rightarrow> Some sub
         | None \<Rightarrow> extract_subdomain host (base_domain (app_ctx app)))"

definition route_tunnel ::
  "HttpInput \<Rightarrow> string \<Rightarrow> string \<Rightarrow> string \<Rightarrow> string \<Rightarrow> string \<Rightarrow> TunnelEntry \<Rightarrow> AppState \<Rightarrow>
   ingress_result \<times> AppState" where
  "route_tunnel hi head method path host sub entry app =
     (if te_paused entry
      then (Answered (error_response ''503 Service Unavailable''
              (''seamless: tunnel '' @ quoted sub @ '' is paused'' @ [LF]) (hi_https hi)), app)
      else let (pass, ddos) = ddos_check (hi_now hi) (te_ddos entry);
               app1 = upd_relay (upd_entry sub (te_conn entry) (\<lambda>e. e\<lparr>te_ddos := ddos\<rparr>)) app;
               peer_ip = show_ip (sa_ip (hi_peer hi))
           in if \<not> pass
              then (Answered (if challenge_mode ddos then challenge_response (get_rps ddos)
                      else error_response ''429 Too Many Requests'' (''rate limit exceeded'' @ [LF]) (hi_https hi)),
                    upd_relay (audit (hi_unix hi) ''ddos.blocked''
                      [(''tunnel_id'', JStr sub), (''client_ip'', JStr peer_ip)]) app1)
              else let is_ws = is_websocket_upgrade head;
                       app2 = push_log (hi_unix hi) method path host (''tunnel:'' @ sub) 0
                                (upd_relay (upd_metrics inc_connections) app1);
                       fwd_head = inject_forwarding_headers head peer_ip (hi_https hi);
                       n = word_of_nat (length fwd_head) :: u64
                   in if \<not> hi_newconn_write hi then (IngressErr, app2)
                      else if head \<noteq> [] \<and> \<not> hi_head_write hi then (IngressErr, app2)
                      else let app3 = (if head = [] then app2
                                 else upd_relay (upd_metrics (inc_bytes_in n) \<circ>
                                        upd_entry sub (te_conn entry) (\<lambda>e. e\<lparr>te_bytes_in := te_bytes_in e + n\<rparr>)) app2);
                               app4 = (if is_ws then upd_relay (upd_metrics inc_ws_connections) app3 else app3)
                           in (Tunnelling \<lparr>tc_sub = sub, tc_conn = te_conn entry, tc_is_ws = is_ws,
                                 tc_method = method, tc_path = path, tc_ip = peer_ip, tc_start = hi_now hi,
                                 tc_frame = NewConn (show_sockaddr (hi_peer hi)), tc_sent = (if head = [] then [] else fwd_head)\<rparr>, app4))"

text \<open>Step 3: nothing to route to.\<close>

definition route_none ::
  "HttpInput \<Rightarrow> string \<Rightarrow> string \<Rightarrow> string \<Rightarrow> AppState \<Rightarrow> ingress_result \<times> AppState" where
  "route_none hi method path host app =
     (Answered (error_response ''502 Bad Gateway'' (''seamless: no route for '' @ quoted host @ [LF]) (hi_https hi)),
      push_log (hi_unix hi) method path host ''none'' 502 app)"

definition route_host ::
  "HttpInput \<Rightarrow> string \<Rightarrow> string \<Rightarrow> string \<Rightarrow> string \<Rightarrow> AppState \<Rightarrow> ingress_result \<times> AppState" where
  "route_host hi head method path host app =
     (case find_route host (ss_store (app_store app)) of
        Some url \<Rightarrow> route_proxy hi head method path host url app
      | None \<Rightarrow>
          (case Option.bind (tunnel_name host app) (\<lambda>sub. map_option (Pair sub) (lookup_tunnel sub app)) of
             Some (sub, entry) \<Rightarrow> route_tunnel hi head method path host sub entry app
           | None \<Rightarrow> route_none hi method path host app))"

text \<open>The request with its complete header block.\<close>

definition route_request :: "HttpInput \<Rightarrow> string \<Rightarrow> AppState \<Rightarrow> ingress_result \<times> AppState" where
  "route_request hi head app =
     (case parse_host_header head of
        None \<Rightarrow>
          (Answered (error_response ''400 Bad Request'' (''missing Host: header'' @ [LF]) (hi_https hi)), app)
      | Some host \<Rightarrow>
          let (method, path) = parse_request_line head
          in if method = ''GET'' \<and> (path = ''/health'' \<or> path = ''/health/'')
             then (Answered (health_response
                     (health_body (length (tunnels (app_relay app)))
                        ((hi_now hi - start_time app) div 1000000000)
                        (m_ws_connections_active (r_metrics (app_relay app))) (hi_https hi)) (hi_https hi)), app)
             else (case (if max_body_bytes app > 0 then parse_content_length head else None) of
               Some cl \<Rightarrow>
                 if cl > max_body_bytes app
                 then (Answered (error_response ''413 Content Too Large''
                         (''seamless: request body too large ('' @ show_word cl @ '' bytes, limit ''
                          @ show_word (max_body_bytes app) @ '' bytes)'' @ [LF]) (hi_https hi)), app)
                 else route_host hi head method path host app
             | None \<Rightarrow> route_host hi head method path host app))"

text \<open>The whole of \<open>route_http\<close> up to the copy.\<close>

definition route_http :: "HttpInput \<Rightarrow> AppState \<Rightarrow> ingress_result \<times> AppState" where
  "route_http hi app =
     (let addr = sa_ip (hi_peer hi);
          (blocked, n) = geoip_is_blocked (geoip app) addr (geoip_blocked app);
          app1 = app\<lparr>geoip_blocked := n\<rparr>
      in if blocked
         then (Dropped, upd_relay (audit (hi_unix hi) ''http.geo_blocked''
                [(''peer'', JStr (show_sockaddr (hi_peer hi))),
                 (''country'', JStr (case country_code (geoip app) addr of Some c \<Rightarrow> c | None \<Rightarrow> ''unknown''))]) app1)
         else (case read_head [] (hi_reads hi) of
                 (Elapsed, head) \<Rightarrow> (Dropped, app1)
               | (HeadError, head) \<Rightarrow> (IngressErr, app1)
               | (HeadOk False, head) \<Rightarrow>
                   if length head > 64 * 1024
                   then (Answered (error_response ''431 Request Header Fields Too Large'' [] (hi_https hi)), app1)
                   else (Dropped, app1)
               | (HeadOk True, head) \<Rightarrow> route_request hi head app1))"

section \<open>After the copy\<close>

definition finish_proxy :: "proxy_copy \<Rightarrow> AppState \<Rightarrow> AppState" where
  "finish_proxy pc app = (if pc_is_ws pc then upd_relay (upd_metrics dec_ws_connections) app else app)"

text \<open>\<open>copy_bidirectional_counted\<close>: \<open>None\<close> is a copy that ended with an error.\<close>

definition copied :: "(u64 \<times> u64) option \<Rightarrow> u64 \<times> u64" where
  "copied r = (case r of Some nm \<Rightarrow> nm | None \<Rightarrow> (0, 0))"

definition finish_tunnel :: "tunnel_copy \<Rightarrow> (u64 \<times> u64) option \<Rightarrow> nat \<Rightarrow> u64 \<Rightarrow> AppState \<Rightarrow> AppState" where
  "finish_tunnel tc result now unix app =
     (let (n_in, n_out) = copied result;
          duration = now - tc_start tc;
          app1 = (if tc_is_ws tc then upd_relay (upd_metrics dec_ws_connections) app else app);
          log = \<lparr>rq_timestamp = unix, rq_method = tc_method tc, rq_path = tc_path tc, status_code = 0,
                 duration_ms = word_of_nat (duration div 1000000), rq_client_ip = tc_ip tc,
                 rq_bytes = n_in + n_out\<rparr>
      in upd_relay (upd_entry (tc_sub tc) (tc_conn tc) (\<lambda>e. e\<lparr>te_bytes_in := te_bytes_in e + n_in,
             te_bytes_out := te_bytes_out e + n_out, te_recent_requests := push_request log (te_recent_requests e)\<rparr>)
           \<circ> upd_metrics (inc_bytes_out n_out \<circ> inc_bytes_in n_in \<circ> record_request_duration duration)) app1)"

section \<open>The header block\<close>

lemma read_head_facts:
  assumes "read_head head es = (r, head')" and "\<forall>b. Bytes b \<in> set es \<longrightarrow> length b \<le> 4096"
    and "\<not> contains_str head (CRLF @ CRLF)" and "length head \<le> 64 * 1024"
  shows "length head' \<le> 64 * 1024 + 4096 \<and> (contains_str head' (CRLF @ CRLF) \<longleftrightarrow> r = HeadOk True)
    \<and> (\<exists>n. head' = head @ concat (map (\<lambda>e. case e of Bytes b \<Rightarrow> b | ReadFails \<Rightarrow> []) (take n es)))"
  using assms
proof (induction head es rule: read_head.induct)
  case (1 head)
  then show ?case by auto
next
  case (2 head es)
  then show ?case by (auto intro: exI [of _ 0])
next
  case (3 head b es)
  let ?h = "head @ b"
  have b: "length b \<le> 4096" using 3(3) by simp
  have one: "\<exists>n. ?h = head @ concat (map (\<lambda>e. case e of Bytes b \<Rightarrow> b | ReadFails \<Rightarrow> []) (take n (Bytes b # es)))"
    by (rule exI [of _ 1]) simp
  consider "b = []" | "b \<noteq> []" "contains_str ?h (CRLF @ CRLF)" | "b \<noteq> []" "\<not> contains_str ?h (CRLF @ CRLF)" "length ?h > 64 * 1024"
    | "b \<noteq> []" "\<not> contains_str ?h (CRLF @ CRLF)" "length ?h \<le> 64 * 1024" by linarith
  then show ?case
  proof cases
    case 1
    then show ?thesis using 3 by (auto intro: exI [of _ 0])
  next
    case 2
    then show ?thesis using 3(2,5) b one by (auto simp: Let_def)
  next
    case 3
    then show ?thesis using \<open>read_head head (Bytes b # es) = (r, head')\<close> \<open>length head \<le> 64 * 1024\<close> b one
      by (auto simp: Let_def)
  next
    case 4
    then have "read_head ?h es = (r, head')" using 3(2) by (simp add: Let_def)
    from 3(1) [OF 4(1) refl 4(2) _ this] 3(3) 4(2,3)
    obtain n where "length head' \<le> 64 * 1024 + 4096 \<and> (contains_str head' (CRLF @ CRLF) \<longleftrightarrow> r = HeadOk True)"
      and "head' = ?h @ concat (map (\<lambda>e. case e of Bytes b \<Rightarrow> b | ReadFails \<Rightarrow> []) (take n es))"
      by auto
    then show ?thesis by (auto intro: exI [of _ "Suc n"])
  qed
qed

text \<open>
  The header block a stranger can make the relay hold is bounded: with reads of at most 4096
  bytes, the buffer never exceeds 68 KiB, it is a prefix of what was sent, and routing goes on
  exactly with a buffer that has the end of the headers in it.
\<close>

theorem header_block_bounded:
  assumes "\<forall>b. Bytes b \<in> set es \<longrightarrow> length b \<le> 4096" and "read_head [] es = (r, head)"
  shows "length head \<le> 68 * 1024 \<and> (r = HeadOk True \<longleftrightarrow> contains_str head (CRLF @ CRLF))
    \<and> (\<exists>n. head = concat (map (\<lambda>e. case e of Bytes b \<Rightarrow> b | ReadFails \<Rightarrow> []) (take n es)))"
  using read_head_facts [OF assms(2,1)] by (auto simp: starts_with_def)

theorem header_block_bounded_witness:
  "fst (read_head [] [Bytes ''GET / HTTP/1.1'', Bytes (CRLF @ CRLF)]) = HeadOk True"
proof -
  obtain r h where rh: "read_head [] [Bytes ''GET / HTTP/1.1'', Bytes (CRLF @ CRLF)] = (r, h)" by fastforce
  have h: "h = ''GET / HTTP/1.1'' @ CRLF @ CRLF" using rh by (auto simp: starts_with_def split: if_splits)
  have "contains_str h (CRLF @ CRLF)" unfolding h by code_simp
  then show ?thesis using header_block_bounded [OF _ rh] rh by simp
qed

section \<open>Reaching the routing decision\<close>

lemma route_http_request:
  assumes "fst (geoip_is_blocked (geoip app) (sa_ip (hi_peer hi)) (geoip_blocked app)) = False"
    and "read_head [] (hi_reads hi) = (HeadOk True, head)"
  shows "route_http hi app = route_request hi head app"
proof -
  have "geoip_is_blocked (geoip app) (sa_ip (hi_peer hi)) (geoip_blocked app) = (False, geoip_blocked app)"
    using assms(1) by (auto simp: geoip_is_blocked_def split: option.splits if_splits)
  then show ?thesis using assms(2) by (simp add: route_http_def Let_def)
qed

definition ordinary :: "string \<Rightarrow> AppState \<Rightarrow> bool" where
  "ordinary head app \<longleftrightarrow>
     (fst (parse_request_line head) \<noteq> ''GET'' \<or> snd (parse_request_line head) \<notin> {''/health'', ''/health/''})
     \<and> (max_body_bytes app > 0 \<longrightarrow> (case parse_content_length head of None \<Rightarrow> True | Some cl \<Rightarrow> cl \<le> max_body_bytes app))"

lemma route_request_host:
  assumes "ordinary head app" and "parse_host_header head = Some host"
  shows "route_request hi head app =
    route_host hi head (fst (parse_request_line head)) (snd (parse_request_line head)) host app"
  using assms by (auto simp: ordinary_def route_request_def split: prod.splits option.splits)

lemma route_host_tunnel:
  assumes "find_route host (ss_store (app_store app)) = None" and "tunnel_name host app = Some sub"
    and "lookup_tunnel sub app = Some entry"
  shows "route_host hi head method path host app = route_tunnel hi head method path host sub entry app"
  using assms by (simp add: route_host_def)

lemma tunnel_name_public:
  assumes "CHR '':'' \<notin> set sub" and "CHR '':'' \<notin> set base" and "base_domain (app_ctx app) = base"
    and "host = sub @ ''.'' @ base \<or> host = sub @ ''.'' @ base @ '':'' @ port"
    and "map_of (custom_domains (app_relay app)) (to_lowercase (sub @ ''.'' @ base)) = None"
  shows "tunnel_name host app = Some sub"
proof -
  have "hd (split_char CHR '':'' host) = sub @ ''.'' @ base"
    using assms(1,2,4) split_char_append [of "CHR '':''" "sub @ ''.'' @ base" port]
      split_char_absent [of "CHR '':''" "sub @ ''.'' @ base"] by auto
  then show ?thesis
    using assms(3,5) by (simp add: tunnel_name_def extract_subdomain_def del: append.simps)
qed

lemma route_tunnel_open:
  assumes "\<not> te_paused entry" and "fst (ddos_check (hi_now hi) (te_ddos entry))"
    and "hi_newconn_write hi" and "hi_head_write hi" and "head \<noteq> []"
  shows "\<exists>app'. route_tunnel hi head method path host sub entry app =
    (Tunnelling \<lparr>tc_sub = sub, tc_conn = te_conn entry, tc_is_ws = is_websocket_upgrade head,
       tc_method = method, tc_path = path, tc_ip = show_ip (sa_ip (hi_peer hi)), tc_start = hi_now hi,
       tc_frame = NewConn (show_sockaddr (hi_peer hi)), tc_sent = inject_forwarding_headers head (show_ip (sa_ip (hi_peer hi))) (hi_https hi)\<rparr>, app')"
  using assms by (auto simp: route_tunnel_def Let_def split: prod.splits)

text \<open>What the relay writes to a tunnel, on every path that reaches one.\<close>

lemma route_tunnel_sends:
  "route_tunnel hi head method path host sub entry app = (Tunnelling tc, app') \<Longrightarrow> head \<noteq> [] \<Longrightarrow>
     tc_frame tc = NewConn (show_sockaddr (hi_peer hi))
     \<and> tc_sent tc = inject_forwarding_headers head (show_ip (sa_ip (hi_peer hi))) (hi_https hi)"
  by (auto simp: route_tunnel_def Let_def split: if_splits prod.splits)

lemma route_host_sends:
  "route_host hi head method path host app = (Tunnelling tc, app') \<Longrightarrow> head \<noteq> [] \<Longrightarrow>
     tc_frame tc = NewConn (show_sockaddr (hi_peer hi))
     \<and> tc_sent tc = inject_forwarding_headers head (show_ip (sa_ip (hi_peer hi))) (hi_https hi)"
  by (auto simp: route_host_def route_proxy_def route_none_def Let_def route_tunnel_sends
      split: option.splits connect_result.splits if_splits)

lemma route_http_sends:
  assumes "route_http hi app = (Tunnelling tc, app')"
  shows "\<exists>head. read_head [] (hi_reads hi) = (HeadOk True, head) \<and> tc_frame tc = NewConn (show_sockaddr (hi_peer hi))
     \<and> tc_sent tc = inject_forwarding_headers head (show_ip (sa_ip (hi_peer hi))) (hi_https hi)"
proof -
  obtain head app1 where h: "read_head [] (hi_reads hi) = (HeadOk True, head)" and r: "route_request hi head app1 = (Tunnelling tc, app')"
    using assms by (auto simp: route_http_def Let_def split: prod.splits if_splits head_result.splits bool.splits)
  have e: "parse_host_header [] = None" by code_simp
  then have ne: "head \<noteq> []" using r by (auto simp: route_request_def)
  have "\<exists>method path host. route_host hi head method path host app1 = (Tunnelling tc, app')"
    using r by (auto simp: route_request_def Let_def split: option.splits prod.splits if_splits)
  then show ?thesis using h ne route_host_sends by blast
qed

text \<open>A request is tunnelled only to the entry filed under the name its host stands for.\<close>

lemma route_http_owner:
  assumes "route_http hi app = (Tunnelling tc, app')"
  shows "\<exists>head host e. read_head [] (hi_reads hi) = (HeadOk True, head) \<and> parse_host_header head = Some host
     \<and> find_route host (ss_store (app_store app)) = None \<and> tunnel_name host app = Some (tc_sub tc)
     \<and> lookup_tunnel (tc_sub tc) app = Some e \<and> te_conn e = tc_conn tc \<and> \<not> te_paused e"
proof -
  obtain head n where h: "read_head [] (hi_reads hi) = (HeadOk True, head)"
      and r: "route_request hi head (app\<lparr>geoip_blocked := n\<rparr>) = (Tunnelling tc, app')"
    using assms by (auto simp: route_http_def Let_def split: prod.splits if_splits head_result.splits bool.splits)
  let ?app = "app\<lparr>geoip_blocked := n\<rparr>"
  obtain host verb path where p: "parse_host_header head = Some host"
      and q: "route_host hi head verb path host ?app = (Tunnelling tc, app')"
    using r by (fastforce simp: route_request_def Let_def split: option.splits prod.splits if_splits)
  have n: "tunnel_name host ?app = tunnel_name host app" "lookup_tunnel k ?app = lookup_tunnel k app" for k
    by (simp_all add: tunnel_name_def lookup_tunnel_def split: option.split)
  obtain sub e where "find_route host (ss_store (app_store app)) = None" "tunnel_name host app = Some sub"
      "lookup_tunnel sub app = Some e" and t: "route_tunnel hi head verb path host sub e ?app = (Tunnelling tc, app')"
    using q by (auto simp: route_host_def route_proxy_def route_none_def Let_def n
        split: option.splits connect_result.splits if_splits bind_splits)
  moreover have "tc_sub tc = sub" "te_conn e = tc_conn tc" "\<not> te_paused e"
    using t by (auto simp: route_tunnel_def Let_def split: if_splits prod.splits)
  ultimately show ?thesis using h p by blast
qed

lemma fresh_entry_open: "\<not> te_paused (new_entry ci key)" "fst (ddos_check now (te_ddos (new_entry ci key)))"
  by (simp_all add: new_entry_def ddos_check_def DDoSProtection_new_def)

section \<open>The WebSocket gauge\<close>

definition gauge :: "RelayState \<Rightarrow> u64" where
  "gauge st = m_ws_connections_active (r_metrics st)"

text \<open>The metric updates of the registration path leave the gauge alone.\<close>

lemma gauge_metrics [simp]:
  "gauge (upd_metrics inc_auth_failures st) = gauge st" "gauge (upd_metrics (record_handshake_ms ms) st) = gauge st"
  "gauge (upd_metrics inc_rate_limit_hits st) = gauge st" "gauge (upd_metrics inc_tunnel_per_ip_rejections st) = gauge st"
  "gauge (upd_metrics inc_tunnel_cap_rejections st) = gauge st" "gauge (upd_metrics inc_subdomain_invalid st) = gauge st"
  "gauge (upd_metrics inc_connections st) = gauge st" "gauge (upd_metrics (inc_bytes_in n) st) = gauge st"
  "gauge (upd_metrics inc_ws_connections st) = gauge st + 1" "gauge (upd_metrics dec_ws_connections st) = gauge st - 1"
  by (simp_all add: gauge_def upd_metrics_def inc_auth_failures_def record_handshake_ms_def inc_rate_limit_hits_def
      inc_tunnel_per_ip_rejections_def inc_tunnel_cap_rejections_def inc_subdomain_invalid_def
      inc_connections_def inc_bytes_in_def inc_ws_connections_def dec_ws_connections_def)

lemma gauge_frames [simp]:
  "gauge (audit t n kvs st) = gauge st" "gauge (webhook_fire ctx b st) = gauge st"
  "gauge (st\<lparr>r_rate_limiter := rl\<rparr>) = gauge st" "gauge (tunnels_insert k e st) = gauge st"
  "gauge (tunnels_remove k st) = gauge st" "gauge (st\<lparr>tcp_ports := ps\<rparr>) = gauge st"
  "gauge (st\<lparr>custom_domains := cs\<rparr>) = gauge st" "gauge (st\<lparr>tunnels := ts'\<rparr>) = gauge st"
  "gauge (upd_entry key conn f st) = gauge st" "gauge (sigterm st) = gauge st"
  by (auto simp: gauge_def audit_def webhook_fire_def tunnels_insert_def tunnels_remove_def upd_entry_def
      sigterm_def split: option.splits)

lemma gauge_fold_remove: "gauge (fold (\<lambda>(key, e). tunnels_remove key) xs st) = gauge st"
  by (induction xs arbitrary: st) (auto simp: case_prod_beta)

lemma gauge_admit: "gauge (snd (snd (admit ctx ci st))) = gauge st"
  by (auto simp: admit_def Let_def split: sum.splits ControlFrame.splits prod.splits)

lemma gauge_open: "gauge (snd (snd (open_kind ctx ci kind st))) = gauge st"
  by (auto simp: open_kind_def open_http_def open_tcp_def bind_tcp_def Let_def
      split: TunnelKind.splits option.splits sum.splits if_splits)

lemma gauge_close: "gauge (close_session ctx s timeout now bi bo st) = gauge st"
  by (simp add: close_session_def Let_def split: option.splits)

lemma gauge_relay_step: "relay_step ctx K sys sys' \<Longrightarrow> gauge (fst sys') = gauge (fst sys)"
proof (induction rule: relay_step.induct)
  case (step_admit ci st kind out st' pend)
  then show ?case using gauge_admit [of ctx ci st] by simp
next
  case (step_refuse ci st e out st' pend)
  then show ?case using gauge_admit [of ctx ci st] by simp
next
  case (step_open ci kind st r out st' xs ys)
  then show ?case using gauge_open [of ctx ci kind st] by simp
qed (simp_all add: gauge_close expire_tick_def gauge_fold_remove Let_def)

datatype copy = ProxyCopy proxy_copy | TunnelCopy tunnel_copy

fun copies_of :: "ingress_result \<Rightarrow> copy list" where
  "copies_of (Proxying pc) = [ProxyCopy pc]"
| "copies_of (Tunnelling tc) = [TunnelCopy tc]"
| "copies_of _ = []"

fun copy_is_ws :: "copy \<Rightarrow> bool" where
  "copy_is_ws (ProxyCopy pc) = pc_is_ws pc"
| "copy_is_ws (TunnelCopy tc) = tc_is_ws tc"

fun finish_copy :: "(u64 \<times> u64) option \<Rightarrow> nat \<Rightarrow> u64 \<Rightarrow> copy \<Rightarrow> AppState \<Rightarrow> AppState" where
  "finish_copy result now unix (ProxyCopy pc) app = finish_proxy pc app"
| "finish_copy result now unix (TunnelCopy tc) app = finish_tunnel tc result now unix app"

text \<open>The relay with its ingress: connections in registration and byte copies in progress.\<close>

inductive ingress_step :: "ConnCtx \<Rightarrow> nat \<Rightarrow> AppState \<times> (ConnInput \<times> TunnelKind) list \<times> copy list \<Rightarrow>
    AppState \<times> (ConnInput \<times> TunnelKind) list \<times> copy list \<Rightarrow> bool" for ctx K where
  in_open: "route_http hi app = (r, app') \<Longrightarrow> ingress_step ctx K (app, pend, cs) (app', pend, copies_of r @ cs)"
| in_finish: "ingress_step ctx K (app, pend, xs @ c # ys) (finish_copy result now unix c app, pend, xs @ ys)"
| in_relay: "relay_step ctx K (app_relay app, pend) (st', pend') \<Longrightarrow>
    ingress_step ctx K (app, pend, cs) (app\<lparr>app_relay := st'\<rparr>, pend', cs)"

lemma app_relay_frames [simp]:
  "app_relay (push_log now method path host routed status app) = app_relay app"
  "app_relay (upd_relay f app) = f (app_relay app)"
  by (simp_all add: push_log_def upd_relay_def)

lemma gauge_route:
  "route_http hi app = (r, app') \<Longrightarrow>
   gauge (app_relay app') = gauge (app_relay app) + of_nat (length (filter copy_is_ws (copies_of r)))"
  by (auto simp: route_http_def route_request_def route_host_def route_proxy_def route_tunnel_def route_none_def Let_def
      split: prod.splits if_splits head_result.splits bool.splits option.splits connect_result.splits)

lemma gauge_finish:
  "gauge (app_relay (finish_copy result now unix c app)) = gauge (app_relay app) - of_nat (if copy_is_ws c then 1 else 0)"
proof -
  have "gauge (upd_metrics (inc_bytes_out n \<circ> inc_bytes_in m \<circ> record_request_duration d) st) = gauge st" for n m d st
    by (simp add: gauge_def upd_metrics_def inc_bytes_out_def inc_bytes_in_def record_request_duration_def)
  then show ?thesis
    by (cases c) (auto simp: finish_proxy_def finish_tunnel_def Let_def split: prod.splits)
qed

definition ws_balanced :: "AppState \<times> (ConnInput \<times> TunnelKind) list \<times> copy list \<Rightarrow> bool" where
  "ws_balanced sys \<longleftrightarrow> gauge (app_relay (fst sys)) = of_nat (length (filter copy_is_ws (snd (snd sys))))"

lemma ws_balanced_step: "ingress_step ctx K sys sys' \<Longrightarrow> ws_balanced sys \<Longrightarrow> ws_balanced sys'"
proof (induction rule: ingress_step.induct)
  case (in_open hi app r app' pend cs)
  then show ?case using gauge_route [OF in_open(1)] by (simp add: ws_balanced_def add.commute)
next
  case (in_finish app pend xs c ys result now unix)
  then show ?case by (simp add: ws_balanced_def gauge_finish)
next
  case (in_relay app pend st' pend' cs)
  then show ?case using gauge_relay_step [OF in_relay(1)] by (simp add: ws_balanced_def)
qed

interpretation ws: invariant "ingress_step ctx K" ws_balanced for ctx K
  by unfold_locales (rule ws_balanced_step)

text \<open>
  The gauge of active WebSocket connections is exact: in every interleaving of requests, ends of
  copies, registrations and closes it is the number of WebSocket copies in progress, whether
  they go to a proxy upstream or a tunnel and however they end, so it never drifts or wraps below zero.
\<close>

theorem ws_gauge_exact:
  assumes "(ingress_step ctx K)\<^sup>*\<^sup>* (app, [], []) (app', pend, cs)" and "gauge (app_relay app) = 0"
  shows "gauge (app_relay app') = of_nat (length (filter copy_is_ws cs))"
  using ws.reachable [OF assms(1)] assms(2) by (simp add: ws_balanced_def)

text \<open>A running relay with one tunnel, and a WebSocket request to it.\<close>

definition demo_app :: "RelayState \<Rightarrow> AppState" where
  "demo_app st =
     \<lparr>app_ctx = demo_ctx, app_relay = st, app_store = demo_store_state, log_buffer = new_buffer,
      stats_history = StatsHistory_new, start_time = 0, admin_token = Some ''secret'', app_admin_cidrs = [],
      auth_file = None, config_file = None, tunnel_max_age = 0, max_body_bytes = 0, allow_custom_domains = False,
      custom_domain_allowlist = {}, geoip = GeoipFilter_disabled, geoip_blocked = 0, seam_addr = '':7777'',
      relay_x25519 = [], relay_kem = [], cipher = ''chacha20''\<rparr>"

definition demo_tunnel_state :: RelayState where
  "demo_tunnel_state = demo_state\<lparr>tunnels := [(''web'', new_entry (demo_input 1 ''web'') ''web'')]\<rparr>"

definition demo_ws_head :: string where
  "demo_ws_head = ''GET /chat HTTP/1.1'' @ CRLF @ ''Host: web.relay.test:80'' @ CRLF @ ''Connection: Upgrade'' @ CRLF
     @ ''Upgrade: websocket'' @ CRLF @ CRLF"

definition demo_http :: HttpInput where
  "demo_http = \<lparr>hi_peer = \<lparr>sa_ip = V4 1, sa_port = 5000\<rparr>, hi_https = False, hi_reads = [Bytes demo_ws_head],
     hi_now = 1, hi_unix = 1001, hi_connect = (\<lambda>_. Connected), hi_upstream_write = True,
     hi_newconn_write = True, hi_head_write = True\<rparr>"

lemma demo_head_facts:
  "parse_host_header demo_ws_head = Some ''web.relay.test:80''"
  "parse_request_line demo_ws_head = (''GET'', ''/chat'')"
  "is_websocket_upgrade demo_ws_head" "contains_str demo_ws_head (CRLF @ CRLF)" "demo_ws_head \<noteq> []"
  by code_simp+

lemma demo_reads: "read_head [] (hi_reads demo_http) = (HeadOk True, demo_ws_head)"
  using demo_head_facts(4,5) by (simp add: demo_http_def)

lemma demo_geo: "fst (geoip_is_blocked (geoip (demo_app st)) (sa_ip (hi_peer demo_http)) (geoip_blocked (demo_app st))) = False"
  by (simp add: demo_app_def geoip_is_blocked_def GeoipFilter_disabled_def)

lemma demo_ordinary: "ordinary demo_ws_head (demo_app st)"
  by (simp add: ordinary_def demo_head_facts demo_app_def)

lemma demo_no_route: "find_route ''web.relay.test:80'' (ss_store (app_store (demo_app st))) = None"
  by (simp add: demo_app_def demo_store_state_def Store_default_def find_route_def)

lemma demo_tunnel_name:
  "custom_domains st = [] \<Longrightarrow> tunnel_name ''web.relay.test:80'' (demo_app st) = Some ''web''"
  using tunnel_name_public [of "''web''" "''relay.test''" "demo_app st" "''web.relay.test:80''" "''80''"]
  by (simp add: demo_app_def demo_ctx_def)

lemma demo_routed:
  assumes "custom_domains st = []" and "map_of (tunnels st) ''web'' = Some entry"
  shows "route_http demo_http (demo_app st) =
    route_tunnel demo_http demo_ws_head ''GET'' ''/chat'' ''web.relay.test:80'' ''web'' entry (demo_app st)"
proof -
  have l: "lookup_tunnel ''web'' (demo_app st) = Some entry" using assms(2) by (simp add: lookup_tunnel_def demo_app_def)
  show ?thesis
    unfolding route_http_request [OF demo_geo demo_reads] route_request_host [OF demo_ordinary demo_head_facts(1)]
      route_host_tunnel [OF demo_no_route demo_tunnel_name [OF assms(1)] l] demo_head_facts(2) by simp
qed

lemma demo_tunnelled: "\<exists>tc app'. route_http demo_http (demo_app demo_tunnel_state) = (Tunnelling tc, app') \<and> tc_is_ws tc"
proof -
  have m: "map_of (tunnels demo_tunnel_state) ''web'' = Some (new_entry (demo_input 1 ''web'') ''web'')"
    and c: "custom_domains demo_tunnel_state = []"
    by (simp_all add: demo_tunnel_state_def demo_state_def)
  have w: "hi_newconn_write demo_http" "hi_head_write demo_http" by (simp_all add: demo_http_def)
  show ?thesis
    using route_tunnel_open [OF fresh_entry_open w demo_head_facts(5)] demo_head_facts(3)
    unfolding demo_routed [OF c m] by (metis tunnel_copy.select_convs(3))
qed

theorem ws_gauge_exact_witness:
  "\<exists>app' c. ingress_step demo_ctx 1 (demo_app demo_tunnel_state, [], []) (app', [], [c])
     \<and> copy_is_ws c \<and> gauge (app_relay app') = 1"
proof -
  let ?app = "demo_app demo_tunnel_state"
  obtain tc app' where r: "route_http demo_http ?app = (Tunnelling tc, app')" and ws: "tc_is_ws tc"
    using demo_tunnelled by blast
  have s: "ingress_step demo_ctx 1 (?app, [], []) (app', [], [TunnelCopy tc])"
    using ingress_step.in_open [OF r] by force
  have z: "gauge (app_relay ?app) = 0"
    by (simp add: demo_app_def demo_tunnel_state_def demo_state_def gauge_def new_metrics_def)
  have "gauge (app_relay app') = 1"
    using ws_gauge_exact [OF r_into_rtranclp [of "ingress_step demo_ctx 1", OF s] z] ws by simp
  then show ?thesis using s ws by (metis copy_is_ws.simps(2))
qed

section \<open>Paused tunnels and the request limit\<close>



end
