(* ===== verification/Admin_Api.thy ===== *)
theory Admin_Api
  imports App_State Ingress
begin

text \<open>
  The admin interface, \<open>admin.rs\<close>: the address filter in front of all handlers, the Bearer token
  check the handlers start with, and the handlers on tunnels, custom domains, backends, the rate
  limit, the logs and the audit ring. Every handler is a function of the request, of what the
  outside contributes (\<open>AdminInput\<close>) and of the shared state. The router and the decoding of
  requests are \<open>axum\<close>'s: a request that reached a handler is a value of \<open>admin_req\<close>. The
  handlers that only forward to the Cloudflare API are not here.
\<close>

section \<open>Guards\<close>

record AdminInput =
  ai_peer :: ipaddr
  ai_headers :: "(string \<times> string) list"
  ai_unix :: int
  ai_now :: nat
  ai_uuid :: string
  ai_env :: SaveEnv
  ai_tcp_check :: "sockaddr \<Rightarrow> bool"
  ai_connect :: "string \<Rightarrow> bool"

type_synonym reply = "response \<times> AppState"

fun unauthorized :: "AdminReply \<Rightarrow> response" where
  "unauthorized (Unauthorized e hint) = (401, JsonBody (JObj [(''error'', JStr e), (''hint'', JStr hint)]))"

definition with_auth :: "AdminInput \<Rightarrow> AppState \<Rightarrow> reply \<Rightarrow> reply" where
  "with_auth ai app k =
     (case check_admin_auth (ct_eq_impl (app_ctx app)) (ai_headers ai) (admin_token app) of
        Some deny \<Rightarrow> (unauthorized deny, app)
      | None \<Rightarrow> k)"

definition with_tunnel :: "string \<Rightarrow> AppState \<Rightarrow> (TunnelEntry \<Rightarrow> reply) \<Rightarrow> reply" where
  "with_tunnel i app k = (case lookup_tunnel i app of None \<Rightarrow> (not_found, app) | Some entry \<Rightarrow> k entry)"

definition ok_json :: "json \<Rightarrow> AppState \<Rightarrow> reply" where
  "ok_json j app = ((200, JsonBody j), app)"

definition no_content :: response where
  "no_content = (204, JsonBody JNull)"

abbreviation JWord :: "'a::len word \<Rightarrow> json" where
  "JWord w \<equiv> JInt (uint w)"

section \<open>Tunnels\<close>

definition is_tcp :: "TunnelEntry \<Rightarrow> bool" where
  "is_tcp e = starts_with (te_subdomain e) ''tcp:''"

definition tcp_url :: "ConnCtx \<Rightarrow> TunnelEntry \<Rightarrow> string" where
  "tcp_url ctx e = ''tcp://'' @ base_domain ctx @ '':'' @ trim_start_matches (te_subdomain e) ''tcp:''"

definition http_json :: "ConnCtx \<Rightarrow> int \<Rightarrow> TunnelEntry \<Rightarrow> json" where
  "http_json ctx now e = JObj [(''subdomain'', JStr (te_subdomain e)), (''url'', JStr (public_url ctx (te_subdomain e))),
     (''paused'', JBool (te_paused e)), (''connected_at'', JInt (te_connected_at e)),
     (''uptime_secs'', JInt (now - te_connected_at e)), (''duration_secs'', JInt (now - te_connected_at e)),
     (''client_ip'', JStr (te_client_ip e)), (''bytes_in'', JWord (te_bytes_in e)), (''bytes_out'', JWord (te_bytes_out e)),
     (''ddos_enabled'', JBool (ddos_enabled (te_ddos e))), (''ddos_blocked'', JWord (blocked_count (te_ddos e)))]"

definition tcp_json :: "ConnCtx \<Rightarrow> int \<Rightarrow> TunnelEntry \<Rightarrow> json" where
  "tcp_json ctx now e = JObj [(''key'', JStr (te_subdomain e)), (''url'', JStr (tcp_url ctx e)),
     (''connected_at'', JInt (te_connected_at e)), (''duration_secs'', JInt (now - te_connected_at e)),
     (''client_ip'', JStr (te_client_ip e)), (''bytes_in'', JWord (te_bytes_in e)), (''bytes_out'', JWord (te_bytes_out e))]"

definition list_seamless_tunnels :: "AdminInput \<Rightarrow> AppState \<Rightarrow> reply" where
  "list_seamless_tunnels ai app = with_auth ai app
     (let es = map snd (tunnels (app_relay app)); now = ai_unix ai; ctx = app_ctx app
      in ok_json (JObj [(''http'', JArr (map (http_json ctx now) (filter (\<lambda>e. \<not> is_tcp e) es))),
                        (''tcp'', JArr (map (tcp_json ctx now) (filter is_tcp es)))]) app)"

definition get_seamless_tunnel :: "AdminInput \<Rightarrow> string \<Rightarrow> AppState \<Rightarrow> reply" where
  "get_seamless_tunnel ai i app = with_auth ai app (with_tunnel i app (\<lambda>e.
     let now = ai_unix ai;
         common = [(''connected_at'', JInt (te_connected_at e)), (''uptime_secs'', JInt (now - te_connected_at e)),
           (''client_ip'', JStr (te_client_ip e)), (''bytes_in'', JWord (te_bytes_in e)),
           (''bytes_out'', JWord (te_bytes_out e)), (''paused'', JBool (te_paused e))]
     in ok_json (JObj (if is_tcp e
          then [(''id'', JStr (te_subdomain e)), (''tunnel_type'', JStr ''tcp''), (''url'', JStr (tcp_url (app_ctx app) e))] @ common
          else [(''id'', JStr (te_subdomain e)), (''tunnel_type'', JStr ''http''), (''subdomain'', JStr (te_subdomain e)),
                (''url'', JStr (public_url (app_ctx app) (te_subdomain e)))] @ common
               @ [(''ddos_enabled'', JBool (ddos_enabled (te_ddos e))), (''ddos_blocked'', JWord (blocked_count (te_ddos e))),
                  (''ddos_rps'', JWord (get_rps (te_ddos e)))])) app))"

text \<open>
  Taking the \<open>disconnect_tx\<close> of an entry and sending on it. The entry stays in the map until its
  task has cleaned up.
\<close>

definition send_disconnect :: "string \<Rightarrow> TunnelEntry \<Rightarrow> RelayState \<Rightarrow> RelayState" where
  "send_disconnect key e st =
     (let st1 = upd_entry key (te_conn e) (\<lambda>e. e\<lparr>te_disconnect_tx := False\<rparr>) st
      in if te_disconnect_tx e then st1\<lparr>signalled := insert (te_conn e) (signalled st1)\<rparr> else st1)"

definition disconnect_with :: "string \<Rightarrow> ConnCtx \<Rightarrow> int \<Rightarrow> string \<times> TunnelEntry \<Rightarrow> RelayState \<Rightarrow> RelayState" where
  "disconnect_with event ctx now ke st =
     (let (key, e) = ke; duration = now - te_connected_at e
      in send_disconnect key e
           (webhook_fire ctx (JObj [(''event'', JStr event), (''subdomain'', JStr (te_subdomain e)),
              (''client_ip'', JStr (te_client_ip e)), (''duration_secs'', JInt duration)])
           (audit now event [(''subdomain'', JStr (te_subdomain e)), (''client_ip'', JStr (te_client_ip e)),
              (''duration_secs'', JInt duration), (''bytes_in'', JWord (te_bytes_in e)),
              (''bytes_out'', JWord (te_bytes_out e))] st)))"

definition admin_disconnect_tunnel :: "AdminInput \<Rightarrow> string \<Rightarrow> AppState \<Rightarrow> reply" where
  "admin_disconnect_tunnel ai i app = with_auth ai app (with_tunnel i app (\<lambda>e.
     (no_content, upd_relay (disconnect_with ''tunnel.admin_disconnect'' (app_ctx app) (ai_unix ai) (i, e)) app)))"

definition admin_tunnel_stats :: "AdminInput \<Rightarrow> string \<Rightarrow> AppState \<Rightarrow> reply" where
  "admin_tunnel_stats ai i app = with_auth ai app (with_tunnel i app (\<lambda>e.
     ok_json (JObj [(''subdomain'', JStr (te_subdomain e)), (''client_ip'', JStr (te_client_ip e)),
       (''connected_at'', JInt (te_connected_at e)), (''duration_secs'', JInt (ai_unix ai - te_connected_at e)),
       (''bytes_in'', JWord (te_bytes_in e)), (''bytes_out'', JWord (te_bytes_out e)),
       (''paused'', JBool (te_paused e))]) app))"

definition admin_pause_tunnel :: "AdminInput \<Rightarrow> string \<Rightarrow> AppState \<Rightarrow> reply" where
  "admin_pause_tunnel ai i app = with_auth ai app (with_tunnel i app (\<lambda>e.
     (no_content, upd_relay (upd_entry i (te_conn e) (\<lambda>e. e\<lparr>te_paused := True\<rparr>)) app)))"

definition admin_resume_tunnel :: "AdminInput \<Rightarrow> string \<Rightarrow> AppState \<Rightarrow> reply" where
  "admin_resume_tunnel ai i app = with_auth ai app (with_tunnel i app (\<lambda>e.
     (no_content, upd_relay (upd_entry i (te_conn e) (\<lambda>e. e\<lparr>te_paused := False\<rparr>)) app)))"

definition admin_bulk_disconnect :: "AdminInput \<Rightarrow> string \<Rightarrow> AppState \<Rightarrow> reply" where
  "admin_bulk_disconnect ai client_ip app = with_auth ai app
     (let target_ip = trim client_ip
      in if target_ip = [] then (bad_request ''client_ip is required'', app)
         else let matching = filter (\<lambda>(k, e). te_client_ip e = target_ip) (tunnels (app_relay app))
              in if matching = []
                 then ((404, JsonBody (JObj [(''error'', JStr (''no active tunnels found for IP '' @ target_ip)),
                                             (''disconnected'', JInt 0)])), app)
                 else ok_json (JObj [(''disconnected'', JInt (int (length matching))), (''client_ip'', JStr target_ip)])
                        (upd_relay (fold (disconnect_with ''tunnel.admin_bulk_disconnect'' (app_ctx app) (ai_unix ai)) matching) app))"

section \<open>Custom domains\<close>

definition list_custom_domains :: "AdminInput \<Rightarrow> AppState \<Rightarrow> reply" where
  "list_custom_domains ai app = with_auth ai app
     (let es = map (\<lambda>(d, t). JObj [(''custom_domain'', JStr d), (''tunnel_id'', JStr t)]) (custom_domains (app_relay app))
      in ok_json (JObj [(''custom_domains'', JArr es), (''count'', JInt (int (length es)))]) app)"

definition set_custom_domain :: "AdminInput \<Rightarrow> string \<Rightarrow> string \<Rightarrow> AppState \<Rightarrow> reply" where
  "set_custom_domain ai tunnel_id req_domain app = with_auth ai app
     (let domain = to_lowercase (trim req_domain)
      in if domain = [] \<or> CHR ''.'' \<notin> set domain then (bad_request ''domain must be a valid FQDN'', app)
         else with_tunnel tunnel_id app (\<lambda>_.
           if \<not> allow_custom_domains app \<and> domain \<notin> custom_domain_allowlist app
           then ((403, JsonBody (JObj [(''error'', JStr (''domain '' @ quoted domain @ '' is not in the allowlist''))])), app)
           else ((201, JsonBody (JObj [(''custom_domain'', JStr domain), (''tunnel_id'', JStr tunnel_id)])),
                 upd_relay (audit (ai_unix ai) ''custom_domain.registered''
                     [(''domain'', JStr domain), (''tunnel_id'', JStr tunnel_id)]
                   \<circ> (\<lambda>st. st\<lparr>custom_domains := AList.update domain tunnel_id (custom_domains st)\<rparr>)) app)))"

definition remove_custom_domain :: "AdminInput \<Rightarrow> string \<Rightarrow> AppState \<Rightarrow> reply" where
  "remove_custom_domain ai tunnel_id app = with_auth ai app
     (let removed = map fst (filter (\<lambda>(d, t). t = tunnel_id) (custom_domains (app_relay app)));
          app1 = upd_relay (\<lambda>st. st\<lparr>custom_domains := fold AList.delete removed (custom_domains st)\<rparr>) app
      in if removed = [] then (not_found, app1) else ((204, NoBody), app1))"

section \<open>Rate limit of a tunnel\<close>

fun as_str :: "json \<Rightarrow> string option" where
  "as_str (JStr s) = Some s"
| "as_str _ = None"

definition ddos_block_of :: "string \<Rightarrow> json \<Rightarrow> bool" where
  "ddos_block_of i e \<longleftrightarrow> Option.bind (json_get e ''event'') as_str = Some ''ddos.blocked''
     \<and> Option.bind (json_get e ''tunnel_id'') as_str = Some i"

definition get_ddos_config :: "AdminInput \<Rightarrow> string \<Rightarrow> AppState \<Rightarrow> reply" where
  "get_ddos_config ai i app = with_auth ai app (with_tunnel i app (\<lambda>e.
     let d = te_ddos e;
         recent = filter (ddos_block_of i) (AuditRing_query (Some (ai_unix ai - 3600)) 1024 (ring (r_audit (app_relay app))))
     in ok_json (JObj [(''tunnel_id'', JStr i), (''enabled'', JBool (ddos_enabled d)),
          (''requests_per_second_limit'', JWord (get_rps d)), (''burst_size'', JWord (get_burst d)),
          (''challenge_mode'', JBool (challenge_mode d)), (''blocked_count'', JWord (blocked_count d)),
          (''blocked_last_hour'', JInt (int (length recent)))]) app))"

record DdosConfigReq =
  rq_enabled :: "bool option"
  rq_rps :: "u32 option"
  rq_burst :: "u32 option"
  rq_challenge :: "bool option"

definition on_some :: "('a \<Rightarrow> 's \<Rightarrow> 's) \<Rightarrow> 'a option \<Rightarrow> 's \<Rightarrow> 's" where
  "on_some f v s = (case v of None \<Rightarrow> s | Some x \<Rightarrow> f x s)"

definition apply_ddos_config :: "DdosConfigReq \<Rightarrow> DDoSProtection \<Rightarrow> DDoSProtection" where
  "apply_ddos_config req d =
     on_some (\<lambda>v d. d\<lparr>challenge_mode := v\<rparr>) (rq_challenge req)
      (on_some (\<lambda>v. set_burst (max v 1)) (rq_burst req)
       (on_some (\<lambda>v. set_rps (max v 1)) (rq_rps req)
        (on_some (\<lambda>v d. d\<lparr>ddos_enabled := v\<rparr>) (rq_enabled req) d)))"

definition set_ddos_config :: "AdminInput \<Rightarrow> string \<Rightarrow> DdosConfigReq \<Rightarrow> AppState \<Rightarrow> reply" where
  "set_ddos_config ai i req app = with_auth ai app (with_tunnel i app (\<lambda>e.
     let d = apply_ddos_config req (te_ddos e)
     in ok_json (JObj [(''tunnel_id'', JStr i), (''enabled'', JBool (ddos_enabled d)),
          (''requests_per_second_limit'', JWord (get_rps d)), (''burst_size'', JWord (get_burst d)),
          (''challenge_mode'', JBool (challenge_mode d)), (''blocked_count'', JWord (blocked_count d))])
        (upd_relay (audit (ai_unix ai) ''ddos.config_updated''
            [(''tunnel_id'', JStr i), (''enabled'', JBool (ddos_enabled d)), (''rps'', JWord (get_rps d)),
             (''burst'', JWord (get_burst d))]
          \<circ> upd_entry i (te_conn e) (\<lambda>e. e\<lparr>te_ddos := d\<rparr>)) app)))"

section \<open>Request log, access log, statistics, audit\<close>

definition request_json :: "RequestLog \<Rightarrow> json" where
  "request_json r = JObj [(''timestamp'', JWord (rq_timestamp r)), (''method'', JStr (rq_method r)),
     (''path'', JStr (rq_path r)), (''status_code'', JWord (status_code r)), (''duration_ms'', JWord (duration_ms r)),
     (''client_ip'', JStr (rq_client_ip r)), (''bytes'', JWord (rq_bytes r))]"

definition get_tunnel_requests :: "AdminInput \<Rightarrow> string \<Rightarrow> nat option \<Rightarrow> AppState \<Rightarrow> reply" where
  "get_tunnel_requests ai i limit app = with_auth ai app (with_tunnel i app (\<lambda>e.
     let n = min (case limit of Some l \<Rightarrow> l | None \<Rightarrow> 20) 100;
         requests = take n (rev (te_recent_requests e))
     in ok_json (JObj [(''tunnel_id'', JStr i), (''count'', JInt (int (length requests))),
          (''requests'', JArr (map request_json requests))]) app))"

definition log_json :: "LogEntry \<Rightarrow> json" where
  "log_json l = JObj [(''ts'', JInt (ts l)), (''method'', JStr (log_method l)), (''path'', JStr (log_path l)),
     (''host'', JStr (log_host l)), (''routed_to'', JStr (routed_to l)), (''status'', JWord (log_status l))]"

definition get_logs :: "AdminInput \<Rightarrow> AppState \<Rightarrow> reply" where
  "get_logs ai app = with_auth ai app (ok_json (JArr (map log_json (rev (log_buffer app)))) app)"

definition snapshot_json :: "StatsSnapshot \<Rightarrow> json" where
  "snapshot_json s = JObj [(''ts'', JInt (snap_ts s)), (''active_tunnels'', JWord (active_tunnels s)),
     (''total_connections'', JWord (total_connections s))]"

definition stats_history_handler :: "AdminInput \<Rightarrow> AppState \<Rightarrow> reply" where
  "stats_history_handler ai app = with_auth ai app
     (ok_json (JObj [(''history'', JArr (map snapshot_json (StatsHistory_snapshot (stats_history app))))]) app)"

definition admin_audit_query :: "AdminInput \<Rightarrow> int option \<Rightarrow> nat option \<Rightarrow> AppState \<Rightarrow> reply" where
  "admin_audit_query ai since limit app = with_auth ai app
     (let n = min (case limit of Some l \<Rightarrow> l | None \<Rightarrow> 100) 1024;
          events = AuditRing_query since n (ring (r_audit (app_relay app)))
      in ok_json (JObj [(''count'', JInt (int (length events))), (''events'', JArr events)]) app)"

section \<open>Backends\<close>

definition backend_json :: "BackendEntry \<Rightarrow> json" where
  "backend_json b = JObj [(''id'', JStr (be_id b)), (''addr'', JStr (show_sockaddr (be_addr b))),
     (''weight'', JWord (be_weight b)), (''healthy'', JBool (be_healthy b)), (''requests'', JWord (be_requests b)),
     (''errors'', JWord (be_errors b))]"

definition list_backends :: "AdminInput \<Rightarrow> string \<Rightarrow> AppState \<Rightarrow> reply" where
  "list_backends ai i app = with_auth ai app (with_tunnel i app (\<lambda>e.
     ok_json (JObj [(''backends'', JArr (map backend_json (te_backends e))),
       (''count'', JInt (int (length (te_backends e))))]) app))"

definition upd_backends :: "string \<Rightarrow> TunnelEntry \<Rightarrow> (BackendEntry list \<Rightarrow> BackendEntry list) \<Rightarrow> AppState \<Rightarrow> AppState" where
  "upd_backends i e f app = upd_relay (upd_entry i (te_conn e) (\<lambda>e. e\<lparr>te_backends := f (te_backends e)\<rparr>)) app"

text \<open>The task \<open>spawn_backend_health_check\<close> starts is \<open>health_rounds\<close> of \<open>Backends\<close>, one per backend added.\<close>

definition add_backend :: "AdminInput \<Rightarrow> string \<Rightarrow> string \<Rightarrow> u32 \<Rightarrow> AppState \<Rightarrow> reply" where
  "add_backend ai i req_addr req_weight app = with_auth ai app
     (case parse_sockaddr req_addr of
        None \<Rightarrow> (bad_request (''invalid addr '' @ EM_DASH @ '' expected host:port''), app)
      | Some addr \<Rightarrow> with_tunnel i app (\<lambda>e.
          let b = BackendEntry_new (ai_uuid ai) addr (max req_weight 1)
          in ((201, JsonBody (backend_json b)), upd_backends i e (push_backend b) app)))"

definition remove_backend :: "AdminInput \<Rightarrow> string \<Rightarrow> string \<Rightarrow> AppState \<Rightarrow> reply" where
  "remove_backend ai i backend_id app = with_auth ai app (with_tunnel i app (\<lambda>e.
     case retain_backends backend_id (te_backends e) of
       None \<Rightarrow> (not_found, app)
     | Some bs \<Rightarrow> ((204, NoBody), upd_backends i e (\<lambda>_. bs) app)))"

definition force_health_check :: "AdminInput \<Rightarrow> string \<Rightarrow> string \<Rightarrow> AppState \<Rightarrow> reply" where
  "force_health_check ai i backend_id app = with_auth ai app (with_tunnel i app (\<lambda>e.
     case find (\<lambda>b. be_id b = backend_id) (te_backends e) of
       None \<Rightarrow> (not_found, app)
     | Some b \<Rightarrow>
         let healthy = ai_tcp_check ai (be_addr b)
         in ok_json (JObj [(''id'', JStr (be_id b)), (''addr'', JStr (show_sockaddr (be_addr b))), (''healthy'', JBool healthy)])
              (upd_backends i e (update_backend backend_id (be_healthy_update (\<lambda>_. healthy))) app)))"

section \<open>Public and unprotected handlers\<close>

definition health_check :: "AdminInput \<Rightarrow> AppState \<Rightarrow> reply" where
  "health_check ai app = ok_json (JObj [(''status'', JStr ''ok''), (''version'', JStr VERSION),
     (''uptime_seconds'', JInt (int ((ai_now ai - start_time app) div 1000000000))),
     (''tunnels_active'', JInt (int (length (tunnels (app_relay app))))),
     (''ws_connections_active'', JWord (m_ws_connections_active (r_metrics (app_relay app)))),
     (''tls_version'', JStr (if https_port (app_ctx app) = None then ''none'' else ''TLS1.3'')),
     (''fips_mode'', JBool False)]) app"

definition ready_check :: "AdminInput \<Rightarrow> AppState \<Rightarrow> reply" where
  "ready_check ai app = health_check ai app"

definition json_opt :: "string option \<Rightarrow> json" where
  "json_opt s = (case s of None \<Rightarrow> JNull | Some t \<Rightarrow> JStr t)"

definition get_status :: "AdminInput \<Rightarrow> AppState \<Rightarrow> reply" where
  "get_status ai app = ok_json (JObj [(''seam_addr'', JStr (seam_addr app)), (''x25519_pubkey'', JStr (relay_x25519 app)),
     (''kem_pubkey'', JStr (relay_kem app)), (''base_domain'', JStr (base_domain (app_ctx app))), (''cipher'', JStr (cipher app)),
     (''https'', JBool (https_port (app_ctx app) \<noteq> None)), (''auth_enabled'', JBool (auth_file app \<noteq> None)),
     (''auth_file'', json_opt (auth_file app)), (''config_file'', json_opt (config_file app)),
     (''uptime_secs'', JInt (int ((ai_now ai - start_time app) div 1000000000))), (''version'', JStr VERSION),
     (''max_tunnels'', JWord (max_tunnels (app_ctx app))),
     (''max_tunnels_per_ip'', JWord (max_tunnels_per_ip (app_ctx app)))]) app"

definition route_health :: "(string \<Rightarrow> bool) \<Rightarrow> ProxyRoute \<Rightarrow> string" where
  "route_health connect r =
     (case parse_upstream_addr (pr_upstream_url r) of
        None \<Rightarrow> ''unknown''
      | Some addr \<Rightarrow> if connect addr then ''up'' else ''down'')"

definition health_routes :: "AdminInput \<Rightarrow> AppState \<Rightarrow> reply" where
  "health_routes ai app = ok_json (JObj (fold (\<lambda>r. json_insert (pr_id r) (JStr (route_health (ai_connect ai) r)))
     (routes (ss_store (app_store app))) [])) app"

section \<open>Requests\<close>

text \<open>
  A request that reached a handler, with the parts \<open>axum\<close> extracted from it. \<open>admin_handle\<close> is the
  router behind the address filter \<open>require_admin_ip\<close>; a panic of \<open>get_settings\<close> ends the
  connection without an answer (\<open>None\<close>).
\<close>

datatype admin_req =
    Health | Ready | ListRoutes | CreateRoute RouteReq | UpdateRoute string RouteReq | DeleteRoute string
  | ListTunnels | GetTunnel string | GetDdos string | SetDdos string DdosConfigReq | GetRequests string "nat option"
  | GetStatsHistory | BulkDisconnect string | DisconnectTunnel string | TunnelStats string | PauseTunnel string
  | ResumeTunnel string | AuditQuery "int option" "nat option" | ListCustomDomains | SetCustomDomain string string
  | RemoveCustomDomain string | ListBackends string | AddBackend string string u32 | RemoveBackend string string
  | ForceHealth string string | GetLogs | HealthRoutes | GetStatus | GetSettings | SaveSettings "string option" string

definition on_store :: "(StoreState \<Rightarrow> response \<times> StoreState) \<Rightarrow> AppState \<Rightarrow> reply" where
  "on_store f app = (let (r, ss) = f (app_store app) in (r, app\<lparr>app_store := ss\<rparr>))"

fun admin_route :: "AdminInput \<Rightarrow> admin_req \<Rightarrow> AppState \<Rightarrow> reply option" where
  "admin_route ai Health app = Some (health_check ai app)"
| "admin_route ai Ready app = Some (ready_check ai app)"
| "admin_route ai ListRoutes app = Some (list_routes (app_store app), app)"
| "admin_route ai (CreateRoute req) app = Some (on_store (create_route (ai_env ai) (ai_uuid ai) (ai_unix ai) req) app)"
| "admin_route ai (UpdateRoute i req) app = Some (on_store (update_route (ai_env ai) i req) app)"
| "admin_route ai (DeleteRoute i) app = Some (on_store (delete_route (ai_env ai) i) app)"
| "admin_route ai ListTunnels app = Some (list_seamless_tunnels ai app)"
| "admin_route ai (GetTunnel i) app = Some (get_seamless_tunnel ai i app)"
| "admin_route ai (GetDdos i) app = Some (get_ddos_config ai i app)"
| "admin_route ai (SetDdos i req) app = Some (set_ddos_config ai i req app)"
| "admin_route ai (GetRequests i limit) app = Some (get_tunnel_requests ai i limit app)"
| "admin_route ai GetStatsHistory app = Some (stats_history_handler ai app)"
| "admin_route ai (BulkDisconnect a) app = Some (admin_bulk_disconnect ai a app)"
| "admin_route ai (DisconnectTunnel i) app = Some (admin_disconnect_tunnel ai i app)"
| "admin_route ai (TunnelStats i) app = Some (admin_tunnel_stats ai i app)"
| "admin_route ai (PauseTunnel i) app = Some (admin_pause_tunnel ai i app)"
| "admin_route ai (ResumeTunnel i) app = Some (admin_resume_tunnel ai i app)"
| "admin_route ai (AuditQuery since limit) app = Some (admin_audit_query ai since limit app)"
| "admin_route ai ListCustomDomains app = Some (list_custom_domains ai app)"
| "admin_route ai (SetCustomDomain i d) app = Some (set_custom_domain ai i d app)"
| "admin_route ai (RemoveCustomDomain i) app = Some (remove_custom_domain ai i app)"
| "admin_route ai (ListBackends i) app = Some (list_backends ai i app)"
| "admin_route ai (AddBackend i a w) app = Some (add_backend ai i a w app)"
| "admin_route ai (RemoveBackend i b) app = Some (remove_backend ai i b app)"
| "admin_route ai (ForceHealth i b) app = Some (force_health_check ai i b app)"
| "admin_route ai GetLogs app = Some (get_logs ai app)"
| "admin_route ai HealthRoutes app = Some (health_routes ai app)"
| "admin_route ai GetStatus app = Some (get_status ai app)"
| "admin_route ai GetSettings app = map_option (\<lambda>r. (r, app)) (get_settings (app_store app))"
| "admin_route ai (SaveSettings tok acct) app = Some (on_store (save_settings (ai_env ai) tok acct) app)"

definition require_admin_ip :: "AdminInput \<Rightarrow> AppState \<Rightarrow> reply option \<Rightarrow> reply option" where
  "require_admin_ip ai app next =
     (if \<not> ip_in_cidr (ai_peer ai) (app_admin_cidrs app)
      then Some ((403, TextBody (''Admin access denied from your IP'' @ [LF])), app)
      else next)"

definition admin_handle :: "AdminInput \<Rightarrow> admin_req \<Rightarrow> AppState \<Rightarrow> reply option" where
  "admin_handle ai req app = require_admin_ip ai app (admin_route ai req app)"

end
