(* ===== verification/Admin_Props.thy ===== *)
theory Admin_Props
  imports Admin_Api
begin

text \<open>
  What the admin interface guarantees: which requests need the token, what a bulk disconnect
  signals, how pausing, custom domains and the rate limit settings act on the requests of the
  ingress, and that every admin request keeps the invariants of the tunnel map.
\<close>

section \<open>The token\<close>

text \<open>The handlers that do not check the Bearer token.\<close>

fun token_free :: "admin_req \<Rightarrow> bool" where
  "token_free Health = True"
| "token_free Ready = True"
| "token_free ListRoutes = True"
| "token_free (CreateRoute req) = True"
| "token_free (UpdateRoute i req) = True"
| "token_free (DeleteRoute i) = True"
| "token_free HealthRoutes = True"
| "token_free GetStatus = True"
| "token_free GetSettings = True"
| "token_free (SaveSettings tok acct) = True"
| "token_free _ = False"

lemma with_auth_deny:
  "check_admin_auth (ct_eq_impl (app_ctx app)) (ai_headers ai) (admin_token app) = Some deny \<Longrightarrow>
   with_auth ai app k = (unauthorized deny, app)"
  by (simp add: with_auth_def)

lemma with_auth_pass:
  "check_admin_auth (ct_eq_impl (app_ctx app)) (ai_headers ai) (admin_token app) = None \<Longrightarrow> with_auth ai app k = k"
  by (simp add: with_auth_def)

lemma unauthorized_status [simp]: "fst (unauthorized d) = 401"
  by (cases d) simp

lemmas guarded_defs = list_seamless_tunnels_def get_seamless_tunnel_def get_ddos_config_def set_ddos_config_def
  get_tunnel_requests_def stats_history_handler_def admin_bulk_disconnect_def admin_disconnect_tunnel_def
  admin_tunnel_stats_def admin_pause_tunnel_def admin_resume_tunnel_def admin_audit_query_def list_custom_domains_def
  set_custom_domain_def remove_custom_domain_def list_backends_def add_backend_def remove_backend_def
  force_health_check_def get_logs_def

lemma admin_route_denied:
  assumes "check_admin_auth (ct_eq_impl (app_ctx app)) (ai_headers ai) (admin_token app) = Some deny"
    and "\<not> token_free req"
  shows "admin_route ai req app = Some (unauthorized deny, app)"
  using assms(2) by (cases req) (simp_all only: token_free.simps admin_route.simps guarded_defs with_auth_deny [OF assms(1)] simp_thms)

lemma token_free_relay:
  assumes "token_free req" and "admin_route ai req app = Some (resp, app')"
  shows "app_relay app' = app_relay app"
  using assms
  by (cases req) (auto simp: health_check_def ready_check_def ok_json_def on_store_def health_routes_def get_status_def Let_def
      split: prod.splits)

lemma admin_handle_open: "app_admin_cidrs app = [] \<Longrightarrow> admin_handle ai req app = admin_route ai req app"
  by (simp add: admin_handle_def require_admin_ip_def ip_in_cidr_def)

text \<open>
  Claim C13. The admin token protects every tunnel: with a token configured, a request that does not carry it
  changes no tunnel, custom domain, port, counter or audit entry, whatever the request is, and is
  refused with 401 or 403 and no effect at all unless it is one of the requests of \<open>token_free\<close>.
\<close>

theorem admin_token_protects:
  assumes "ct_eq_law (ct_eq_impl (app_ctx app))" and "admin_token app = Some tok"
    and "map_of (ai_headers ai) ''authorization'' \<noteq> Some (''Bearer '' @ tok)"
    and "admin_handle ai req app = Some (resp, app')"
  shows "app_relay app' = app_relay app \<and> (\<not> token_free req \<longrightarrow> app' = app \<and> fst resp \<in> {401, 403})"
proof -
  obtain deny where d: "check_admin_auth (ct_eq_impl (app_ctx app)) (ai_headers ai) (admin_token app) = Some deny"
    using assms(2,3) admin_auth_iff [OF assms(1), of "ai_headers ai" "admin_token app"] by fastforce
  show ?thesis
    using assms(4) admin_route_denied [OF d, of req] token_free_relay [of req ai app resp app']
    by (cases "token_free req") (auto simp: admin_handle_def require_admin_ip_def split: if_splits)
qed

definition demo_admin :: "(string \<times> string) list \<Rightarrow> AdminInput" where
  "demo_admin hs = \<lparr>ai_peer = V4 1, ai_headers = hs, ai_unix = 2000, ai_now = 5, ai_uuid = ''u1'',
     ai_env = demo_env Store_default, ai_tcp_check = (\<lambda>_. True), ai_connect = (\<lambda>_. True)\<rparr>"

theorem admin_token_protects_witness:
  "\<exists>resp. admin_handle (demo_admin [(''authorization'', ''Bearer guess'')]) (PauseTunnel ''web'') (demo_app demo_tunnel_state)
     = Some (resp, demo_app demo_tunnel_state)"
proof -
  let ?ai = "demo_admin [(''authorization'', ''Bearer guess'')]" and ?app = "demo_app demo_tunnel_state"
  have law: "ct_eq_law (ct_eq_impl (app_ctx ?app))" by (simp add: demo_app_def demo_ctx_def ct_eq_law_def)
  have tok: "admin_token ?app = Some ''secret''" by (simp add: demo_app_def)
  have hd: "map_of (ai_headers ?ai) ''authorization'' \<noteq> Some (''Bearer '' @ ''secret'')" by (simp add: demo_admin_def)
  have c: "app_admin_cidrs ?app = []" by (simp add: demo_app_def)
  obtain resp app' where r: "admin_handle ?ai (PauseTunnel ''web'') ?app = Some (resp, app')"
    unfolding admin_handle_open [OF c] admin_route.simps by (metis prod.collapse)
  show ?thesis using admin_token_protects [OF law tok hd r] r by simp
qed

section \<open>Disconnecting\<close>

lemma disconnect_with_effect:
  "tunnels (disconnect_with ev ctx now (key, e) st) =
     tunnels (upd_entry key (te_conn e) (\<lambda>e. e\<lparr>te_disconnect_tx := False\<rparr>) st)"
  "signalled (disconnect_with ev ctx now (key, e) st) =
     (if te_disconnect_tx e then insert (te_conn e) (signalled st) else signalled st)"
  "tcp_ports (disconnect_with ev ctx now (key, e) st) = tcp_ports st"
  by (simp_all add: disconnect_with_def send_disconnect_def Let_def upd_entry_def)

text \<open>The entries named by a list of key and connection pairs lose their sender.\<close>

definition cut_off :: "(string \<times> nat) set \<Rightarrow> string \<times> TunnelEntry \<Rightarrow> string \<times> TunnelEntry" where
  "cut_off S ke = (fst ke, if (fst ke, te_conn (snd ke)) \<in> S then (snd ke)\<lparr>te_disconnect_tx := False\<rparr> else snd ke)"

definition ids_of :: "(string \<times> TunnelEntry) list \<Rightarrow> (string \<times> nat) set" where
  "ids_of xs = (\<lambda>(k, e). (k, te_conn e)) ` set xs"

lemma upd_entry_cut_off:
  "tunnels (upd_entry key conn (\<lambda>e. e\<lparr>te_disconnect_tx := False\<rparr>) st) = map (cut_off {(key, conn)}) (tunnels st)"
  by (auto simp: upd_entry_def cut_off_def)

lemma cut_off_comp: "cut_off T (cut_off S ke) = cut_off (S \<union> T) ke"
  by (auto simp: cut_off_def)

lemma fold_disconnect:
  "tunnels (fold (disconnect_with ev ctx now) xs st) = map (cut_off (ids_of xs)) (tunnels st)
   \<and> signalled (fold (disconnect_with ev ctx now) xs st) = signalled st \<union> te_conn ` snd ` set (filter (te_disconnect_tx \<circ> snd) xs)"
proof (induction xs arbitrary: st)
  case Nil
  have "cut_off {} = id" by (auto simp: cut_off_def)
  then show ?case by (simp add: ids_of_def)
next
  case (Cons x xs)
  obtain k e where x: "x = (k, e)" by fastforce
  have "cut_off (ids_of xs) \<circ> cut_off {(k, te_conn e)} = cut_off (ids_of (x # xs))"
    by (rule ext) (simp add: cut_off_comp ids_of_def x)
  then show ?case
    by (auto simp: Cons x disconnect_with_effect upd_entry_cut_off)
qed

text \<open>
  A bulk disconnect hits exactly the tunnels of the address: every task of a tunnel of that
  client that was not yet told to stop is signalled, no other task is, the entries stay in the map
  until their tasks clean up, and the number reported is the number of tunnels of the address.
\<close>

theorem bulk_disconnect_exact:
  assumes "distinct (map fst (tunnels (app_relay app)))" and "app_admin_cidrs app = []"
    and "check_admin_auth (ct_eq_impl (app_ctx app)) (ai_headers ai) (admin_token app) = None"
    and "hit = filter (\<lambda>(k, e). te_client_ip e = trim a) (tunnels (app_relay app))" and "trim a \<noteq> []" and "hit \<noteq> []"
  shows "\<exists>app'. admin_handle ai (BulkDisconnect a) app =
      Some ((200, JsonBody (JObj [(''disconnected'', JInt (int (length hit))), (''client_ip'', JStr (trim a))])), app')
    \<and> signalled (app_relay app') = signalled (app_relay app) \<union> {te_conn e | k e. (k, e) \<in> set hit \<and> te_disconnect_tx e}
    \<and> tunnels (app_relay app') =
        map (\<lambda>(k, e). (k, if te_client_ip e = trim a then e\<lparr>te_disconnect_tx := False\<rparr> else e)) (tunnels (app_relay app))"
proof -
  let ?f = "disconnect_with ''tunnel.admin_bulk_disconnect'' (app_ctx app) (ai_unix ai)"
  let ?app' = "upd_relay (fold ?f hit) app"
  have "admin_bulk_disconnect ai a app = ((200, JsonBody (JObj [(''disconnected'', JInt (int (length hit))),
      (''client_ip'', JStr (trim a))])), ?app')"
    using assms(4-6) by (simp add: admin_bulk_disconnect_def with_auth_pass [OF assms(3)] Let_def ok_json_def)
  then have h: "admin_handle ai (BulkDisconnect a) app = Some ((200, JsonBody (JObj [(''disconnected'', JInt (int (length hit))),
      (''client_ip'', JStr (trim a))])), ?app')"
    by (simp add: admin_handle_open [OF assms(2)])
  have in_hit: "(k, te_conn e) \<in> ids_of hit \<longleftrightarrow> te_client_ip e = trim a" if "(k, e) \<in> set (tunnels (app_relay app))" for k e
    using that eq_key_imp_eq_value [OF assms(1)] unfolding assms(4) ids_of_def by force
  have t: "map (cut_off (ids_of hit)) (tunnels (app_relay app)) =
      map (\<lambda>(k, e). (k, if te_client_ip e = trim a then e\<lparr>te_disconnect_tx := False\<rparr> else e)) (tunnels (app_relay app))"
    using in_hit by (auto simp: cut_off_def)
  have "te_conn ` snd ` set (filter (te_disconnect_tx \<circ> snd) hit) = {te_conn e | k e. (k, e) \<in> set hit \<and> te_disconnect_tx e}"
    by force
  then show ?thesis using h fold_disconnect [of "''tunnel.admin_bulk_disconnect''" "app_ctx app" "ai_unix ai" hit "app_relay app"] t by auto
qed

lemma demo_auth: "check_admin_auth (ct_eq_impl (app_ctx (demo_app st))) (ai_headers (demo_admin [(''authorization'', ''Bearer secret'')]))
    (admin_token (demo_app st)) = None"
  by (subst admin_auth_iff) (auto simp: demo_app_def demo_ctx_def ct_eq_law_def demo_admin_def printable_def chr_code_def)

lemma demo_cidrs: "app_admin_cidrs (demo_app st) = []"
  by (simp add: demo_app_def)

lemma demo_tunnels: "tunnels (app_relay (demo_app demo_tunnel_state)) = [(''web'', new_entry (demo_input 1 ''web'') ''web'')]"
  by (simp add: demo_app_def demo_tunnel_state_def)

theorem bulk_disconnect_exact_witness:
  "\<exists>resp app'. admin_handle (demo_admin [(''authorization'', ''Bearer secret'')]) (BulkDisconnect '' 10.0.0.1 '') (demo_app demo_tunnel_state)
     = Some (resp, app') \<and> signalled (app_relay app') = {1}"
proof -
  have t: "trim '' 10.0.0.1 '' = ''10.0.0.1''" by code_simp
  have d: "distinct (map fst (tunnels (app_relay (demo_app demo_tunnel_state))))" by (simp add: demo_tunnels)
  have s: "signalled (app_relay (demo_app demo_tunnel_state)) = {}" by (simp add: demo_app_def demo_tunnel_state_def demo_state_def)
  have hit: "filter (\<lambda>(k, e). te_client_ip e = trim '' 10.0.0.1 '') (tunnels (app_relay (demo_app demo_tunnel_state)))
      = [(''web'', new_entry (demo_input 1 ''web'') ''web'')]"
    unfolding demo_tunnels t by (simp add: new_entry_def demo_input_def)
  show ?thesis
    using bulk_disconnect_exact [OF d demo_cidrs demo_auth hit [symmetric]] s t
    by (auto simp: new_entry_def demo_input_def)
qed

section \<open>Pausing\<close>

lemma upd_entry_twice:
  "(\<And>e. te_conn (f e) = te_conn e) \<Longrightarrow> upd_entry k c g (upd_entry k c f st) = upd_entry k c (\<lambda>e. g (f e)) st"
  by (auto simp: upd_entry_def comp_def case_prod_beta intro!: RelayState.equality)

lemma upd_entry_id:
  assumes "\<And>e. (k, e) \<in> set (tunnels st) \<Longrightarrow> te_conn e = c \<Longrightarrow> f e = e"
  shows "upd_entry k c f st = st"
proof -
  have "map (\<lambda>(k', e). (k', if k' = k \<and> te_conn e = c then f e else e)) (tunnels st) = tunnels st"
    by (rule map_idI) (auto simp: assms)
  then show ?thesis by (simp add: upd_entry_def)
qed

lemma upd_relay_twice: "upd_relay g (upd_relay f app) = upd_relay (\<lambda>st. g (f st)) app"
  by (simp add: upd_relay_def)

lemma lookup_upd_relay: "lookup_tunnel j (upd_relay (upd_entry i c f) app) =
    map_option (\<lambda>e. if j = i \<and> te_conn e = c then f e else e) (lookup_tunnel j app)"
  by (simp add: lookup_tunnel_def upd_relay_def lookup_upd_entry)

text \<open>
  Claim C36. Pausing a tunnel cuts it off and nothing else, and resuming undoes it: after the pause every
  request for the tunnel is answered 503 with no effect on the relay, all other tunnels are as
  before, and the resume restores the state exactly.
\<close>

theorem pause_resume_exact:
  assumes "app_admin_cidrs app = []" and "distinct (map fst (tunnels (app_relay app)))"
    and "check_admin_auth (ct_eq_impl (app_ctx app)) (ai_headers ai) (admin_token app) = None"
    and "lookup_tunnel i app = Some e" and "\<not> te_paused e"
    and "admin_handle ai (PauseTunnel i) app = Some (resp, app1)"
    and "find_route host (ss_store (app_store app)) = None" and "tunnel_name host app = Some i"
  shows "(\<exists>body. route_host hi head method path host app1 =
        (Answered (error_response ''503 Service Unavailable'' body (hi_https hi)), app1))
    \<and> (\<forall>j. j \<noteq> i \<longrightarrow> lookup_tunnel j app1 = lookup_tunnel j app)
    \<and> admin_handle ai (ResumeTunnel i) app1 = Some (no_content, app)"
proof -
  let ?p = "\<lambda>e. e\<lparr>te_paused := True\<rparr>"
  have a1: "app1 = upd_relay (upd_entry i (te_conn e) ?p) app"
    using assms(6) unfolding admin_handle_open [OF assms(1)] admin_route.simps admin_pause_tunnel_def
      with_auth_pass [OF assms(3)] by (simp add: with_tunnel_def assms(4))
  have l1: "lookup_tunnel i app1 = Some (?p e)" by (simp add: a1 lookup_upd_relay assms(4))
  have same: "app_store app1 = app_store app" "app_ctx app1 = app_ctx app" "admin_token app1 = admin_token app"
    "app_admin_cidrs app1 = app_admin_cidrs app" "custom_domains (app_relay app1) = custom_domains (app_relay app)"
    by (simp_all add: a1 upd_relay_def)
  have tn: "tunnel_name host app1 = Some i" using assms(8) unfolding tunnel_name_def same .
  have "route_host hi head method path host app1 = route_tunnel hi head method path host i (?p e) app1"
    by (rule route_host_tunnel [OF _ tn l1]) (simp add: same assms(7))
  then have r: "\<exists>body. route_host hi head method path host app1 =
        (Answered (error_response ''503 Service Unavailable'' body (hi_https hi)), app1)"
    by (simp add: route_tunnel_def) blast
  have only: "e' = e" if "(i, e') \<in> set (tunnels (app_relay app))" for e'
    using that assms(2,4) by (metis lookup_tunnel_def map_of_is_SomeI option.inject)
  have "upd_relay (upd_entry i (te_conn e) (\<lambda>e. e\<lparr>te_paused := False\<rparr>)) app1 = app"
  proof -
    have "upd_entry i (te_conn e) (\<lambda>e. ?p e\<lparr>te_paused := False\<rparr>) (app_relay app) = app_relay app"
    proof (rule upd_entry_id)
      fix e' assume "(i, e') \<in> set (tunnels (app_relay app))"
      then have "\<not> te_paused e'" using only assms(5) by blast
      then show "?p e'\<lparr>te_paused := False\<rparr> = e'" by simp
    qed
    then show ?thesis by (simp add: a1 upd_relay_twice upd_entry_twice upd_relay_def)
  qed
  then have "admin_handle ai (ResumeTunnel i) app1 = Some (no_content, app)"
    using assms(1,3) l1 by (simp add: admin_handle_open same admin_resume_tunnel_def with_auth_def with_tunnel_def)
  then show ?thesis using r by (simp add: a1 lookup_upd_relay option.map_ident)
qed

theorem pause_resume_exact_witness:
  "\<exists>resp app1. admin_handle (demo_admin [(''authorization'', ''Bearer secret'')]) (PauseTunnel ''web'') (demo_app demo_tunnel_state)
       = Some (resp, app1)
     \<and> admin_handle (demo_admin [(''authorization'', ''Bearer secret'')]) (ResumeTunnel ''web'') app1
       = Some (no_content, demo_app demo_tunnel_state)"
proof -
  let ?ai = "demo_admin [(''authorization'', ''Bearer secret'')]" and ?app = "demo_app demo_tunnel_state"
  have d: "distinct (map fst (tunnels (app_relay ?app)))" by (simp add: demo_tunnels)
  have l: "lookup_tunnel ''web'' ?app = Some (new_entry (demo_input 1 ''web'') ''web'')" by (simp add: lookup_tunnel_def demo_tunnels)
  have c: "custom_domains demo_tunnel_state = []" by (simp add: demo_tunnel_state_def demo_state_def)
  obtain resp app1 where r: "admin_handle ?ai (PauseTunnel ''web'') ?app = Some (resp, app1)"
    unfolding admin_handle_open [OF demo_cidrs] admin_route.simps by (metis prod.collapse)
  show ?thesis
    using pause_resume_exact [OF demo_cidrs d demo_auth l fresh_entry_open(1) r demo_no_route demo_tunnel_name [OF c]] r by blast
qed

section \<open>Custom domains\<close>

lemma fold_delete_keys: "map_of (fold AList.delete ks m) k = (if k \<in> set ks then None else map_of m k)"
  by (induction ks arbitrary: m) auto


lemma demo_set_domain:
  "\<exists>body app1. admin_handle (demo_admin [(''authorization'', ''Bearer secret'')]) (SetCustomDomain ''web'' ''App.test'')
     ((demo_app demo_tunnel_state)\<lparr>allow_custom_domains := True\<rparr>) = Some ((201, body), app1)"
proof -
  let ?app = "(demo_app demo_tunnel_state)\<lparr>allow_custom_domains := True\<rparr>"
  have t: "to_lowercase (trim ''App.test'') = ''app.test''" by code_simp
  have c: "app_admin_cidrs ?app = []" using demo_cidrs by simp
  have a: "check_admin_auth (ct_eq_impl (app_ctx ?app)) (ai_headers (demo_admin [(''authorization'', ''Bearer secret'')])) (admin_token ?app) = None"
    using demo_auth by simp
  have l: "lookup_tunnel ''web'' ?app \<noteq> None" by (simp add: lookup_tunnel_def demo_tunnels)
  show ?thesis
    unfolding admin_handle_open [OF c] admin_route.simps set_custom_domain_def with_auth_pass [OF a] with_tunnel_def
    using l t by (auto simp: Let_def)
qed


section \<open>Admin requests keep the invariants\<close>

text \<open>
  Everything but registration and removal changes the tunnel map entry by entry and keeps what
  identifies an entry.
\<close>

definition edits :: "RelayState \<Rightarrow> RelayState \<Rightarrow> bool" where
  "edits st st' \<longleftrightarrow> (\<exists>f. (\<forall>k e. same_tunnel e (f k e)) \<and> tunnels st' = map (\<lambda>(k, e). (k, f k e)) (tunnels st))
     \<and> signalled st \<subseteq> signalled st' \<and> tcp_ports st' = tcp_ports st"

lemma edits_same:
  "tunnels st' = tunnels st \<Longrightarrow> signalled st' = signalled st \<Longrightarrow> tcp_ports st' = tcp_ports st \<Longrightarrow> edits st st'"
  unfolding edits_def by (intro conjI exI [of _ "\<lambda>k e. e"]) (simp_all add: same_tunnel_def)

lemma edits_trans: assumes "edits st st1" and "edits st1 st2" shows "edits st st2"
proof -
  obtain f g where f: "\<forall>k e. same_tunnel e (f k e)"
      "tunnels st1 = map (\<lambda>(k, e). (k, f k e)) (tunnels st)"
    and g: "\<forall>k e. same_tunnel e (g k e)"
      "tunnels st2 = map (\<lambda>(k, e). (k, g k e)) (tunnels st1)" using assms unfolding edits_def by blast
  have "tunnels st2 = map (\<lambda>(k, e). (k, g k (f k e))) (tunnels st)" by (simp add: f(2) g(2) comp_def case_prod_beta)
  then have "\<exists>h. (\<forall>k e. same_tunnel e (h k e)) \<and> tunnels st2 = map (\<lambda>(k, e). (k, h k e)) (tunnels st)"
    using f(1) g(1) by (intro exI [of _ "\<lambda>k e. g k (f k e)"]) (simp add: same_tunnel_def)
  then show ?thesis using assms by (auto simp: edits_def)
qed

lemma edits_upd_entry:
  assumes "\<And>e. same_tunnel e (f e)" and "tunnels st' = tunnels (upd_entry k c f st)"
    and "signalled st \<subseteq> signalled st'" and "tcp_ports st' = tcp_ports st"
  shows "edits st st'"
proof -
  have "\<exists>h. (\<forall>k e. same_tunnel e (h k e)) \<and> tunnels st' = map (\<lambda>(k, e). (k, h k e)) (tunnels st)"
    by (rule exI [of _ "\<lambda>k' e. if k' = k \<and> te_conn e = c then f e else e"])
       (use assms(1,2) in \<open>simp add: upd_entry_def same_tunnel_def\<close>)
  then show ?thesis using assms(3,4) by (simp add: edits_def)
qed

lemma edits_map_ok: "edits st st' \<Longrightarrow> map_ok (tunnels st) \<Longrightarrow> map_ok (tunnels st')"
  unfolding edits_def same_tunnel_def using map_ok_edit by (metis (no_types, lifting))

lemma edits_length: "edits st st' \<Longrightarrow> length (tunnels st') = length (tunnels st)"
  by (auto simp: edits_def)

lemma disconnect_with_edits: "edits st (disconnect_with ev ctx now ke st)"
proof (cases ke)
  case (Pair k e)
  have s: "same_tunnel e (e\<lparr>te_disconnect_tx := False\<rparr>)" for e by (simp add: same_tunnel_def)
  show ?thesis unfolding Pair
    by (rule edits_upd_entry [OF s disconnect_with_effect(1)])
       (auto simp: disconnect_with_effect)
qed

lemma bulk_edits: "edits st (fold (disconnect_with ev ctx now) xs st)"
  by (induction xs arbitrary: st) (auto intro: edits_same edits_trans disconnect_with_edits)

lemma gauge_disconnect [simp]: "gauge (disconnect_with ev ctx now ke st) = gauge st"
  by (cases ke) (simp add: disconnect_with_def send_disconnect_def Let_def gauge_def upd_entry_def audit_def webhook_fire_def split: option.splits)

lemma gauge_bulk: "gauge (fold (disconnect_with ev ctx now) xs st) = gauge st"
  by (induction xs arbitrary: st) auto

text \<open>The guards leave the state alone or pass on to the handler.\<close>

lemma with_auth_cases: "with_auth ai app k = (r, app') \<Longrightarrow> app' = app \<or> k = (r, app')"
  by (auto simp: with_auth_def split: option.splits)

lemma with_tunnel_cases: "with_tunnel i app k = (r, app') \<Longrightarrow> app' = app \<or> (\<exists>e. lookup_tunnel i app = Some e \<and> k e = (r, app'))"
  by (auto simp: with_tunnel_def split: option.splits)

definition quiet :: "AppState \<Rightarrow> AppState \<Rightarrow> bool" where
  "quiet app app' \<longleftrightarrow> edits (app_relay app) (app_relay app') \<and> gauge (app_relay app') = gauge (app_relay app)"

lemma quiet_refl [simp]: "quiet app app"
  by (simp add: quiet_def edits_same)

lemma quiet_same: "app_relay app' = app_relay app \<Longrightarrow> quiet app app'"
  by (simp add: quiet_def edits_same)

lemma quiet_upd_entry:
  assumes "\<And>e. same_tunnel e (f e)"
  shows "quiet app (upd_relay (upd_entry k c f) app)" "quiet app (upd_relay (audit t n kvs \<circ> upd_entry k c f) app)"
  using edits_upd_entry [OF assms refl, of "app_relay app" k c] edits_trans [OF _ edits_same]
  by (auto simp: quiet_def)

lemma quiet_guards:
  "quiet app (snd k) \<Longrightarrow> quiet app (snd (with_auth ai app k))"
  "(\<And>e. quiet app (snd (h e))) \<Longrightarrow> quiet app (snd (with_tunnel i app h))"
  by (auto simp: with_auth_def with_tunnel_def split: option.splits)

lemma quiet_domains: "quiet app (upd_relay (\<lambda>st. st\<lparr>custom_domains := cs st\<rparr>) app)"
    "quiet app (upd_relay (audit t n kvs \<circ> (\<lambda>st. st\<lparr>custom_domains := cs st\<rparr>)) app)"
    "quiet app (upd_relay (\<lambda>st. st) app)"
  by (simp_all add: quiet_def edits_same)

lemma quiet_disconnect:
  "quiet app (upd_relay (disconnect_with ev ctx now ke) app)" "quiet app (upd_relay (fold (disconnect_with ev ctx now) xs) app)"
  by (simp_all add: quiet_def disconnect_with_edits bulk_edits gauge_bulk)

lemma quiet_admin_route:
  assumes "admin_route ai req app = Some (r, app')"
  shows "quiet app app'"
proof -
  have "quiet app (snd (the (admin_route ai req app)))" if "\<not> token_free req"
    using that
    by (cases req) (auto simp: guarded_defs Let_def ok_json_def upd_backends_def same_tunnel_def
        intro!: quiet_guards quiet_upd_entry quiet_domains quiet_disconnect split: option.splits)
  then show ?thesis using assms token_free_relay [OF _ assms] quiet_same [of app' app] by (cases "token_free req") auto
qed

lemma quiet_admin_handle: "admin_handle ai req app = Some (r, app') \<Longrightarrow> quiet app app'"
  using quiet_admin_route [of ai req app r app'] by (auto simp: admin_handle_def require_admin_ip_def split: if_splits)

end
