(* ===== verification/Passthrough.thy ===== *)
theory Passthrough
  imports App_State
begin

text \<open>
  Raw TCP passthrough, \<open>tcp_passthrough.rs\<close>: the option syntax, the gates in front of a listener
  and the life of a forwarded connection. \<open>passthrough_accept\<close> is one turn of the accept loop; the
  spawned task is a small state machine (\<open>pt_step\<close>), so that the two copy directions end in any
  order and any number of connections run side by side. The static gauge
  \<open>TCP_PASSTHROUGH_CONNECTIONS_ACTIVE\<close> is part of the state.
\<close>

section \<open>Options\<close>

record TcpPassthroughConfig =
  listen_port :: u16
  backend_host :: string
  backend_port :: u16

datatype passthrough_error = InvalidFormat string | InvalidListenPort string | InvalidBackendPort string

definition parse_passthrough :: "string \<Rightarrow> passthrough_error + TcpPassthroughConfig" where
  "parse_passthrough s =
     (case splitn 3 CHR '':'' s of
        [p, h, q] \<Rightarrow>
          (case parse_u16 p of
             None \<Rightarrow> Inl (InvalidListenPort p)
           | Some lp \<Rightarrow>
               (case parse_u16 q of
                  None \<Rightarrow> Inl (InvalidBackendPort q)
                | Some bp \<Rightarrow> Inr \<lparr>listen_port = lp, backend_host = h, backend_port = bp\<rparr>))
      | _ \<Rightarrow> Inl (InvalidFormat s))"

section \<open>The accept loop\<close>

datatype accept_result = Refused | Spawn string

definition backend_addr :: "TcpPassthroughConfig \<Rightarrow> string" where
  "backend_addr cfg = backend_host cfg @ '':'' @ show_word (backend_port cfg)"

definition audit_passthrough :: "TcpPassthroughConfig \<Rightarrow> int \<Rightarrow> sockaddr \<Rightarrow> string \<Rightarrow> (string \<times> json) list \<Rightarrow> AppState \<Rightarrow> AppState" where
  "audit_passthrough cfg unix peer name kvs =
     upd_relay (audit unix name ([(''peer'', JStr (show_sockaddr peer)), (''listen_port'', JInt (uint (listen_port cfg)))] @ kvs))"

definition geo_gate :: "GeoipFilter \<Rightarrow> ipaddr \<Rightarrow> u64 \<Rightarrow> string option \<times> u64" where
  "geo_gate g addr n =
     (case country_code g addr of
        Some cc \<Rightarrow> (let (b, n') = geoip_is_blocked g addr n in (if b then Some cc else None, n'))
      | None \<Rightarrow> (let (b, n') = geoip_is_blocked g addr n in (if b then Some ''unknown'' else None, n')))"

definition passthrough_accept :: "TcpPassthroughConfig \<Rightarrow> nat \<Rightarrow> int \<Rightarrow> sockaddr \<Rightarrow> AppState \<Rightarrow> accept_result \<times> AppState" where
  "passthrough_accept cfg now unix peer app =
     (let peer_ip = sa_ip peer
      in if is_denied (ip_denylist (app_ctx app)) peer_ip
         then (Refused, audit_passthrough cfg unix peer ''tcp_passthrough.denied'' [(''reason'', JStr ''ip_denylist'')] app)
         else let (blocked, n) = geo_gate (geoip app) peer_ip (geoip_blocked app);
                  app1 = app\<lparr>geoip_blocked := n\<rparr>
         in case blocked of
              Some cc \<Rightarrow> (Refused, audit_passthrough cfg unix peer ''tcp_passthrough.geo_blocked'' [(''country'', JStr cc)] app1)
            | None \<Rightarrow>
                let (allowed_now, rl) = check_and_record now (show_ip peer_ip) (r_rate_limiter (app_relay app1));
                    app2 = upd_relay (\<lambda>st. st\<lparr>r_rate_limiter := rl\<rparr>) app1
                in if \<not> allowed_now
                   then (Refused, upd_relay (upd_metrics inc_rate_limit_hits)
                           (audit_passthrough cfg unix peer ''tcp_passthrough.rate_limited'' [] app2))
                   else (Spawn (backend_addr cfg), app2))"

section \<open>A forwarded connection\<close>

text \<open>
  The phases of the spawned task. In \<open>Copying\<close> each direction is still running (\<open>None\<close>) or has
  ended with its result (an error is \<open>Some None\<close>).
\<close>

datatype pt_phase = Spawned | Connecting | Copying "u64 option option" "u64 option option"

record pt_task =
  pt_cfg :: TcpPassthroughConfig
  pt_peer :: sockaddr
  pt_backend :: string
  pt_phase :: pt_phase

definition unwrap_or_0 :: "u64 option \<Rightarrow> u64" where
  "unwrap_or_0 r = (case r of Some n \<Rightarrow> n | None \<Rightarrow> 0)"

text \<open>The value of \<open>forward\<close>, once it returns: \<open>join!\<close> waits for both copies.\<close>

definition forward_result :: "bool \<Rightarrow> u64 option option \<Rightarrow> u64 option option \<Rightarrow> (u64 \<times> u64) option" where
  "forward_result conn_ok c2b b2c =
     (if \<not> conn_ok then Some (0, 0)
      else case (c2b, b2c) of
             (Some r1, Some r2) \<Rightarrow> Some (unwrap_or_0 r1, unwrap_or_0 r2)
           | _ \<Rightarrow> None)"

definition pt_connect :: "int \<Rightarrow> pt_task \<Rightarrow> AppState \<times> u64 \<Rightarrow> AppState \<times> u64" where
  "pt_connect unix t s =
     (audit_passthrough (pt_cfg t) unix (pt_peer t) ''tcp_passthrough.connect'' [(''backend'', JStr (pt_backend t))] (fst s),
      snd s + 1)"

definition pt_disconnect :: "int \<Rightarrow> pt_task \<Rightarrow> u64 \<times> u64 \<Rightarrow> AppState \<times> u64 \<Rightarrow> AppState \<times> u64" where
  "pt_disconnect unix t bytes s =
     (audit_passthrough (pt_cfg t) unix (pt_peer t) ''tcp_passthrough.disconnect''
        [(''backend'', JStr (pt_backend t)), (''bytes_in'', JInt (uint (fst bytes))), (''bytes_out'', JInt (uint (snd bytes)))] (fst s),
      snd s - 1)"

inductive pt_step :: "(AppState \<times> u64) \<times> pt_task list \<Rightarrow> (AppState \<times> u64) \<times> pt_task list \<Rightarrow> bool" where
  pt_refuse: "passthrough_accept cfg now unix peer app = (Refused, app') \<Longrightarrow> pt_step ((app, n), tasks) ((app', n), tasks)"
| pt_spawn: "passthrough_accept cfg now unix peer app = (Spawn b, app') \<Longrightarrow>
    pt_step ((app, n), tasks) ((app', n), \<lparr>pt_cfg = cfg, pt_peer = peer, pt_backend = b, pt_phase = Spawned\<rparr> # tasks)"
| pt_start: "pt_phase t = Spawned \<Longrightarrow>
    pt_step (s, xs @ t # ys) (pt_connect unix t s, xs @ t\<lparr>pt_phase := Connecting\<rparr> # ys)"
| pt_connected: "pt_phase t = Connecting \<Longrightarrow>
    pt_step (s, xs @ t # ys) (s, xs @ t\<lparr>pt_phase := Copying None None\<rparr> # ys)"
| pt_no_backend: "pt_phase t = Connecting \<Longrightarrow> forward_result False None None = Some bytes \<Longrightarrow>
    pt_step (s, xs @ t # ys) (pt_disconnect unix t bytes s, xs @ ys)"
| pt_in_done: "pt_phase t = Copying None o2 \<Longrightarrow>
    pt_step (s, xs @ t # ys) (s, xs @ t\<lparr>pt_phase := Copying (Some r) o2\<rparr> # ys)"
| pt_out_done: "pt_phase t = Copying o1 None \<Longrightarrow>
    pt_step (s, xs @ t # ys) (s, xs @ t\<lparr>pt_phase := Copying o1 (Some r)\<rparr> # ys)"
| pt_finish: "pt_phase t = Copying o1 o2 \<Longrightarrow> forward_result True o1 o2 = Some bytes \<Longrightarrow>
    pt_step (s, xs @ t # ys) (pt_disconnect unix t bytes s, xs @ ys)"

inductive_cases pt_stepE: "pt_step s t"

section \<open>Option syntax\<close>

lemma split_once_iff: "split_once c s = Some (a, b) \<longleftrightarrow> c \<notin> set a \<and> s = a @ c # b"
  using split_once_Some split_once_append by blast

lemma splitn3: "splitn 3 c s = [a, b, r] \<longleftrightarrow> c \<notin> set a \<and> c \<notin> set b \<and> s = a @ c # b @ c # r"
proof -
  have "splitn 3 c s = [a, b, r] \<longleftrightarrow> (\<exists>rest. split_once c s = Some (a, rest) \<and> split_once c rest = Some (b, r))"
    by (auto simp: numeral_3_eq_3 split: option.splits)
  then show ?thesis by (auto simp: split_once_iff)
qed

text \<open>
  The syntax of \<open>--tcp-passthrough\<close>: exactly the strings \<open>port:host:port\<close> with two 16-bit decimal
  ports and no colon in the host are accepted, and they are read as written.
\<close>

theorem passthrough_syntax:
  "parse_passthrough s = Inr cfg \<longleftrightarrow>
     (\<exists>p q. s = p @ '':'' @ backend_host cfg @ '':'' @ q \<and> CHR '':'' \<notin> set p \<and> CHR '':'' \<notin> set (backend_host cfg)
        \<and> parse_u16 p = Some (listen_port cfg) \<and> parse_u16 q = Some (backend_port cfg))"
proof -
  have "parse_passthrough s = Inr cfg \<longleftrightarrow> (\<exists>p h q. splitn 3 CHR '':'' s = [p, h, q] \<and> backend_host cfg = h
      \<and> parse_u16 p = Some (listen_port cfg) \<and> parse_u16 q = Some (backend_port cfg))"
    by (cases cfg) (auto simp: parse_passthrough_def split: list.splits option.splits)
  then show ?thesis unfolding splitn3 by auto
qed

section \<open>The gates\<close>

lemma unknown_country_passes: "country_code g addr = None \<Longrightarrow> geoip_is_blocked g addr n = (False, n)"
  by (auto simp: country_code_def geoip_is_blocked_def split: option.splits)

lemma geo_gate_eq:
  "geo_gate g addr n = (let (b, n') = geoip_is_blocked g addr n in (if b then country_code g addr else None, n'))"
  by (cases "country_code g addr") (auto simp: geo_gate_def unknown_country_passes split: prod.splits)

lemma geo_gate_blocks: "fst (geo_gate g addr n) \<noteq> None \<longleftrightarrow> fst (geoip_is_blocked g addr n)"
  by (auto simp: geo_gate_eq unknown_country_passes split: prod.splits) (metis option.exhaust prod.inject unknown_country_passes)

definition passes_gates :: "AppState \<Rightarrow> sockaddr \<Rightarrow> bool" where
  "passes_gates app peer \<longleftrightarrow>
     \<not> is_denied (ip_denylist (app_ctx app)) (sa_ip peer) \<and> \<not> fst (geoip_is_blocked (geoip app) (sa_ip peer) 0)"

lemma geoip_decision_pure: "fst (geoip_is_blocked g addr n) = fst (geoip_is_blocked g addr m)"
  by (auto simp: geoip_is_blocked_def split: option.splits)

lemma accept_decision:
  "case passthrough_accept cfg now unix peer app of (r, app') \<Rightarrow>
     (let rl = check_and_record now (show_ip (sa_ip peer)) (r_rate_limiter (app_relay app))
      in (if passes_gates app peer \<and> fst rl then r = Spawn (backend_host cfg @ '':'' @ show_word (backend_port cfg)) else r = Refused)
         \<and> r_rate_limiter (app_relay app') = (if passes_gates app peer then snd rl else r_rate_limiter (app_relay app))
         \<and> tunnels (app_relay app') = tunnels (app_relay app) \<and> app_ctx app' = app_ctx app \<and> geoip app' = geoip app)"
proof -
  obtain b n where g: "geo_gate (geoip app) (sa_ip peer) (geoip_blocked app) = (b, n)" by fastforce
  have b: "b = None \<longleftrightarrow> \<not> fst (geoip_is_blocked (geoip app) (sa_ip peer) 0)"
    using geo_gate_blocks [of "geoip app" "sa_ip peer" "geoip_blocked app"] g geoip_decision_pure by (metis fst_conv)
  obtain al rl where c: "check_and_record now (show_ip (sa_ip peer)) (r_rate_limiter (app_relay app)) = (al, rl)" by fastforce
  show ?thesis
    using b by (auto simp: passthrough_accept_def passes_gates_def g c audit_passthrough_def upd_relay_def upd_metrics_def audit_def
        backend_addr_def Let_def split: option.splits)
qed

text \<open>
  Claim C29. A passthrough connection is forwarded exactly when its address is neither denied nor from a
  blocked country and the rate limiter lets it in, and then to the configured backend; the
  limiter is consulted, and charged, only for a connection that passed the first two gates, and
  no tunnel is touched in any case.
\<close>

theorem passthrough_gates:
  "case passthrough_accept cfg now unix peer app of (r, app') \<Rightarrow>
     (let rl = check_and_record now (show_ip (sa_ip peer)) (r_rate_limiter (app_relay app))
      in (if passes_gates app peer \<and> fst rl then r = Spawn (backend_host cfg @ '':'' @ show_word (backend_port cfg)) else r = Refused)
         \<and> r_rate_limiter (app_relay app') = (if passes_gates app peer then snd rl else r_rate_limiter (app_relay app))
         \<and> tunnels (app_relay app') = tunnels (app_relay app) \<and> app_ctx app' = app_ctx app \<and> geoip app' = geoip app)"
  by (rule accept_decision)

section \<open>The gauge\<close>

definition started :: "pt_task \<Rightarrow> bool" where
  "started t \<longleftrightarrow> pt_phase t \<noteq> Spawned"

definition pt_inv :: "ConnCtx \<Rightarrow> GeoipFilter \<Rightarrow> (AppState \<times> u64) \<times> pt_task list \<Rightarrow> bool" where
  "pt_inv ctx g s \<longleftrightarrow> (case s of ((app, n), tasks) \<Rightarrow>
     app_ctx app = ctx \<and> geoip app = g \<and> n = of_nat (length (filter started tasks))
     \<and> (\<forall>t \<in> set tasks. passes_gates app (pt_peer t) \<and> pt_backend t = backend_addr (pt_cfg t)))"

lemma passes_gates_cong: "app_ctx a = app_ctx b \<Longrightarrow> geoip a = geoip b \<Longrightarrow> passes_gates a p = passes_gates b p"
  by (simp add: passes_gates_def)

lemma audit_passthrough_frame [simp]:
  "app_ctx (audit_passthrough cfg u p nm kvs app) = app_ctx app" "geoip (audit_passthrough cfg u p nm kvs app) = geoip app"
  "passes_gates (audit_passthrough cfg u p nm kvs app) = passes_gates app"
  by (simp_all add: audit_passthrough_def upd_relay_def passes_gates_def fun_eq_iff)

lemma pt_inv_step: "pt_step s s' \<Longrightarrow> pt_inv ctx g s \<Longrightarrow> pt_inv ctx g s'"
proof (induction rule: pt_step.induct)
  case (pt_refuse cfg now unix peer app app' n tasks)
  then have "app_ctx app' = app_ctx app" "geoip app' = geoip app"
    using accept_decision [where cfg = cfg and now = now and unix = unix and peer = peer and app = app] by (simp_all add: Let_def)
  then show ?case using pt_refuse passes_gates_cong [of app app'] by (simp add: pt_inv_def)
next
  case (pt_spawn cfg now unix peer app b app' n tasks)
  then have "app_ctx app' = app_ctx app" "geoip app' = geoip app" "passes_gates app peer" "b = backend_addr cfg"
    using accept_decision [where cfg = cfg and now = now and unix = unix and peer = peer and app = app] by (auto simp: Let_def backend_addr_def split: if_splits)
  then show ?case using pt_spawn passes_gates_cong [of app app'] by (simp add: pt_inv_def started_def)
next
  case (pt_start t s xs ys unix)
  then show ?case by (cases s) (auto simp: pt_inv_def pt_connect_def started_def)
next
  case (pt_no_backend t bytes s xs ys unix)
  then show ?case by (cases s) (auto simp: pt_inv_def pt_disconnect_def started_def)
next
  case (pt_finish t o1 o2 bytes s xs ys unix)
  then show ?case by (cases s) (auto simp: pt_inv_def pt_disconnect_def started_def)
qed (auto simp: pt_inv_def started_def)

interpretation pt: invariant pt_step "pt_inv ctx g" for ctx g
  by unfold_locales (rule pt_inv_step)

text \<open>
  In every interleaving of passthrough connections, the gauge is the number of forwarding tasks
  that have begun and not ended (modulo 2^64), every task serves an address that is not denied
  and not from a blocked country, and a task goes to the backend of its own listener.
\<close>

theorem passthrough_gauge_exact:
  assumes "pt_step\<^sup>*\<^sup>* ((app, 0), []) ((app', n), tasks)"
  shows "n = of_nat (length (filter started tasks))
    \<and> (\<forall>t \<in> set tasks. passes_gates app (pt_peer t) \<and> pt_backend t = backend_addr (pt_cfg t))"
  using pt.reachable [OF assms, of "app_ctx app" "geoip app"] passes_gates_cong [of app app'] by (auto simp: pt_inv_def)

text \<open>
  A connection whose one direction has ended keeps its task, and its unit of the gauge, until the
  other direction ends as well: the copies are joined, neither cancels the other.
\<close>

theorem half_open_waits:
  assumes "pt_phase t = Copying (Some r) None"
  shows "forward_result True (Some r) None = None \<and> pt_step (s, xs @ t # ys) (s, xs @ t\<lparr>pt_phase := Copying (Some r) (Some r2)\<rparr> # ys)
    \<and> (\<forall>bytes. forward_result True (Some r) (Some r2) = Some bytes \<longleftrightarrow> bytes = (unwrap_or_0 r, unwrap_or_0 r2))"
  using pt_out_done [OF assms] by (auto simp: forward_result_def)

end
