(* ===== verification/Relay_System.thy ===== *)
theory Relay_System
  imports Admin_Props Passthrough
begin

text \<open>
  The relay as a whole: the steps of client connections, of the public ingress, of the admin
  interface, of the passthrough listeners and of the background tasks, in any order, over one
  shared state. Its invariant puts
  together those of the parts.
\<close>

section \<open>The ingress edits entries only\<close>

lemma edits_intros:
  "edits st st"
  "edits st st' \<Longrightarrow> edits st (upd_metrics m st')"
  "edits st st' \<Longrightarrow> edits st (audit t n kvs st')"
  "edits st st' \<Longrightarrow> (\<And>e. same_tunnel e (f e)) \<Longrightarrow> edits st (upd_entry k c f st')"
proof -
  show "edits st st" by (simp add: edits_same)
  show "edits st st' \<Longrightarrow> edits st (upd_metrics m st')" by (erule edits_trans) (simp add: edits_same)
  show "edits st st' \<Longrightarrow> edits st (audit t n kvs st')" by (erule edits_trans) (simp add: edits_same)
  assume f: "\<And>e. same_tunnel e (f e)"
  show "edits st st' \<Longrightarrow> edits st (upd_entry k c f st')" by (erule edits_trans) (rule edits_upd_entry [OF f refl], simp_all)
qed

lemma edits_route_tunnel: "edits (app_relay app) (app_relay (snd (route_tunnel hi head method path host sub entry app)))"
  by (auto simp: route_tunnel_def Let_def same_tunnel_def intro!: edits_intros split: prod.splits)

lemma edits_route: "edits (app_relay app) (app_relay (snd (route_http hi app)))"
proof -
  have proxy: "edits (app_relay a) (app_relay (snd (route_proxy hi head mth path host url a)))" for head mth path host url a
    by (auto simp: route_proxy_def Let_def intro!: edits_intros split: option.splits connect_result.splits)
  have host: "edits (app_relay a) (app_relay (snd (route_host hi head mth path host a)))" for head mth path host a
    by (auto simp: route_host_def route_none_def edits_intros edits_route_tunnel proxy split: option.splits)
  have "edits (app_relay a) (app_relay (snd (route_request hi head a)))" for head a
    by (auto simp: route_request_def Let_def edits_intros host split: option.splits prod.splits)
  then have "edits (app_relay app) (app_relay (snd (route_request hi head (app\<lparr>geoip_blocked := n\<rparr>))))" for head n
    by (metis AppState.select_convs(2) AppState.surjective AppState.update_convs(16))
  then show ?thesis
    by (auto simp: route_http_def Let_def intro!: edits_intros split: prod.splits head_result.splits bool.splits)
qed

lemma edits_finish: "edits (app_relay app) (app_relay (finish_copy result now unix c app))"
  by (cases c) (auto simp: finish_proxy_def finish_tunnel_def Let_def same_tunnel_def intro!: edits_intros split: prod.splits)

section \<open>All steps\<close>

type_synonym relay_sys = "AppState \<times> (ConnInput \<times> TunnelKind) list \<times> copy list"

text \<open>One turn of the task that records statistics every minute (\<open>main.rs\<close>).\<close>

definition stats_tick :: "int \<Rightarrow> AppState \<Rightarrow> AppState" where
  "stats_tick unix app =
     app\<lparr>stats_history := StatsHistory_push
       \<lparr>snap_ts = unix, active_tunnels = word_of_nat (length (tunnels (app_relay app))),
        total_connections = m_connections_total (r_metrics (app_relay app))\<rparr> (stats_history app)\<rparr>"

inductive system_step :: "ConnCtx \<Rightarrow> nat \<Rightarrow> relay_sys \<Rightarrow> relay_sys \<Rightarrow> bool" for ctx K where
  sys_traffic: "ingress_step ctx K sys sys' \<Longrightarrow> system_step ctx K sys sys'"
| sys_admin: "admin_handle ai req app = Some (resp, app') \<Longrightarrow> system_step ctx K (app, pend, cs) (app', pend, cs)"
| sys_passthrough: "passthrough_accept cfg now unix peer app = (r, app') \<Longrightarrow> system_step ctx K (app, pend, cs) (app', pend, cs)"
| sys_forwarding: "system_step ctx K (app, pend, cs) (audit_passthrough cfg unix peer name kvs app, pend, cs)"
| sys_stats: "system_step ctx K (app, pend, cs) (stats_tick unix app, pend, cs)"

definition system_ok :: "relay_sys \<Rightarrow> bool" where
  "system_ok sys \<longleftrightarrow> map_inv (app_relay (fst sys), fst (snd sys)) \<and> ws_balanced sys"

lemma map_inv_edits: "edits st st' \<Longrightarrow> map_inv (st, pend) \<Longrightarrow> map_inv (st', pend)"
  using edits_map_ok by (auto simp: map_inv_def)

lemma quiet_upd:
  assumes "quiet app a" and "\<And>st. core (g st) = core st" and "\<And>st. gauge (g st) = gauge st"
  shows "quiet app (upd_relay g a)"
  using assms(1,3) edits_trans [OF _ edits_same [OF core_fields(1,4,2) [OF assms(2)]], of "app_relay app"]
  by (auto simp: quiet_def upd_relay_def)

lemma quiet_audit_passthrough: "quiet app a \<Longrightarrow> quiet app (audit_passthrough cfg unix peer name kvs a)"
  unfolding audit_passthrough_def by (erule quiet_upd) (simp, simp add: gauge_def audit_def)

lemma quiet_passthrough:
  assumes "passthrough_accept cfg now unix peer app = (r, app')"
  shows "quiet app app'"
proof -
  have l: "quiet app (upd_relay (\<lambda>st. st\<lparr>r_rate_limiter := rl\<rparr>) (app\<lparr>geoip_blocked := n\<rparr>))"
    "quiet app (app\<lparr>geoip_blocked := n\<rparr>)" for rl n
    by (simp_all add: quiet_def upd_relay_def edits_same gauge_def)
  have m: "quiet app a \<Longrightarrow> quiet app (upd_relay (upd_metrics inc_rate_limit_hits) a)" for a
    by (erule quiet_upd) (simp, simp add: upd_metrics_def inc_rate_limit_hits_def gauge_def)
  show ?thesis
    using assms by (auto simp: passthrough_accept_def Let_def intro!: quiet_audit_passthrough l m
        split: if_splits prod.splits option.splits)
qed

lemma system_ok_quiet: "quiet app app' \<Longrightarrow> system_ok (app, pend, cs) \<Longrightarrow> system_ok (app', pend, cs)"
  using map_inv_edits by (auto simp: system_ok_def quiet_def ws_balanced_def)

lemma system_ok_step: "system_step ctx K sys sys' \<Longrightarrow> system_ok sys \<Longrightarrow> system_ok sys'"
proof (induction rule: system_step.induct)
  case (sys_traffic sys sys')
  have ws: "ws_balanced sys'" using ws_balanced_step [OF sys_traffic.hyps] sys_traffic.prems by (simp add: system_ok_def)
  have "map_inv (app_relay (fst sys'), fst (snd sys'))"
    using sys_traffic.hyps
  proof cases
    case (in_open hi app r app' pend cs)
    then show ?thesis using edits_route [of app hi] sys_traffic.prems map_inv_edits by (simp add: system_ok_def)
  next
    case (in_finish app pend xs c ys result now unix)
    then show ?thesis using map_inv_edits [OF edits_finish] sys_traffic.prems by (simp add: system_ok_def)
  next
    case (in_relay app pend st' pend' cs)
    then show ?thesis using map_inv_step [OF in_relay(3)] sys_traffic.prems by (simp add: system_ok_def)
  qed
  with ws show ?case by (simp add: system_ok_def)
next
  case (sys_admin ai req app resp app' pend cs)
  then have q: "quiet app app'" by (auto intro: quiet_admin_handle)
  then show ?case using sys_admin.prems by (rule system_ok_quiet)
next
  case (sys_passthrough cfg now unix peer app r app' pend cs)
  then show ?case using system_ok_quiet [OF quiet_passthrough] by blast
next
  case (sys_forwarding app pend cs cfg unix peer name kvs)
  then show ?case using system_ok_quiet [OF quiet_audit_passthrough [OF quiet_refl]] by blast
next
  case (sys_stats app pend cs unix)
  then show ?case using system_ok_quiet [OF quiet_same, of "stats_tick unix app" app] by (simp add: stats_tick_def)
qed

interpretation relay: invariant "system_step ctx K" system_ok for ctx K
  by unfold_locales (rule system_ok_step)

text \<open>
  The invariants of the parts hold of the relay as a whole: from a fresh start, after any
  interleaving of client registrations and closes, expiries, public requests, ends of copies,
  admin requests of any kind, passthrough connections and statistics snapshots, the tunnel map has one entry per key, filed under the entry's own
  name, no key of an HTTP tunnel looks like one of a TCP tunnel, and the WebSocket gauge is the
  number of WebSocket copies in progress.
\<close>

theorem relay_invariant:
  assumes "(system_step ctx K)\<^sup>*\<^sup>* (app, [], []) (app', pend, cs)"
    and "tunnels (app_relay app) = []" and "r_metrics (app_relay app) = new_metrics"
  shows "distinct (map fst (tunnels (app_relay app')))
    \<and> (\<forall>(k, e) \<in> set (tunnels (app_relay app')). te_subdomain e = k \<and> key_shape k)
    \<and> m_ws_connections_active (r_metrics (app_relay app')) = of_nat (length (filter copy_is_ws cs))"
proof -
  have "system_ok (app, [], [])"
    using assms(2,3) by (simp add: system_ok_def map_inv_def map_ok_def ws_balanced_def gauge_def new_metrics_def)
  then have "system_ok (app', pend, cs)" by (rule relay.reachable [OF assms(1)])
  then show ?thesis by (auto simp: system_ok_def map_inv_def map_ok_def ws_balanced_def gauge_def)
qed

text \<open>A run: a client registers, and a WebSocket request is copied through its tunnel.\<close>

lemma demo_register:
  "\<exists>st1 st2. system_step demo_ctx 1 (demo_app demo_state, [], []) (demo_app st1, [(demo_input 1 ''web'', Http (Some ''web''))], [])
     \<and> system_step demo_ctx 1 (demo_app st1, [(demo_input 1 ''web'', Http (Some ''web''))], []) (demo_app st2, [], [])
     \<and> custom_domains st2 = [] \<and> map_of (tunnels st2) ''web'' = Some (new_entry (demo_input 1 ''web'') ''web'')"
proof -
  let ?ci = "demo_input 1 ''web''"
  have app: "demo_app st\<lparr>app_relay := st'\<rparr> = demo_app st'" "app_relay (demo_app st) = st" for st st' by (simp_all add: demo_app_def)
  obtain st1 where a: "admit demo_ctx ?ci demo_state = (Inr (Http (Some ''web'')), [], st1)" "tunnels st1 = []"
    using demo_admit_any [of demo_state 1 "''web''"] by (auto simp: demo_state_def RateLimiter_new_def)
  obtain s out st2 where o: "open_http demo_ctx ?ci (Some ''web'') st1 = (Inr s, out, st2)"
      "tunnels st2 = AList.update ''web'' (new_entry ?ci ''web'') (tunnels st1)"
    using open_http_free [OF demo_name_allowed(1), of st1 ?ci] a(2) by (auto simp: demo_input_def)
  have "custom_domains st1 = []" using admit_core [of demo_ctx ?ci demo_state] a(1) by (simp add: core_def demo_state_def)
  then have c: "custom_domains st2 = []" using open_http_ok [OF o(1)] by (simp add: core_def tunnels_insert_def)
  have "relay_step demo_ctx 1 (demo_state, []) (st1, [] @ [(?ci, Http (Some ''web''))])"
    by (rule relay_step.step_admit [OF a(1) demo_gen]) simp
  then have s1: "system_step demo_ctx 1 (demo_app demo_state, [], []) (demo_app st1, [(?ci, Http (Some ''web''))], [])"
    using system_step.sys_traffic [OF ingress_step.in_relay, of demo_ctx 1 "demo_app demo_state" "[]" st1 "[(?ci, Http (Some ''web''))]" "[]"]
    by (simp add: app)
  have "relay_step demo_ctx 1 (st1, [] @ (?ci, Http (Some ''web'')) # []) (st2, [] @ [])"
    by (rule relay_step.step_open, unfold open_kind_def TunnelKind.case, rule o(1))
  then have "system_step demo_ctx 1 (demo_app st1, [(?ci, Http (Some ''web''))], []) (demo_app st2, [], [])"
    using system_step.sys_traffic [OF ingress_step.in_relay, of demo_ctx 1 "demo_app st1" "[(?ci, Http (Some ''web''))]" st2 "[]" "[]"]
    by (simp add: app)
  moreover have "map_of (tunnels st2) ''web'' = Some (new_entry ?ci ''web'')" by (simp add: o(2) a(2))
  ultimately show ?thesis using s1 c by blast
qed

theorem relay_invariant_witness:
  "\<exists>app' c. (system_step demo_ctx 1)\<^sup>*\<^sup>* (demo_app demo_state, [], []) (app', [], [c]) \<and> copy_is_ws c
     \<and> m_ws_connections_active (r_metrics (app_relay app')) = 1"
proof -
  obtain st1 st2 where s1: "system_step demo_ctx 1 (demo_app demo_state, [], []) (demo_app st1, [(demo_input 1 ''web'', Http (Some ''web''))], [])"
    and s2: "system_step demo_ctx 1 (demo_app st1, [(demo_input 1 ''web'', Http (Some ''web''))], []) (demo_app st2, [], [])"
    and c: "custom_domains st2 = []" and m: "map_of (tunnels st2) ''web'' = Some (new_entry (demo_input 1 ''web'') ''web'')"
    using demo_register by blast
  have w: "hi_newconn_write demo_http" "hi_head_write demo_http" by (simp_all add: demo_http_def)
  obtain tc app' where r: "route_http demo_http (demo_app st2) = (Tunnelling tc, app')" and ws: "tc_is_ws tc"
    using route_tunnel_open [OF fresh_entry_open w demo_head_facts(5)] demo_head_facts(3)
    unfolding demo_routed [OF c m] by (metis tunnel_copy.select_convs(3))
  have s3: "system_step demo_ctx 1 (demo_app st2, [], []) (app', [], [TunnelCopy tc])"
    using system_step.sys_traffic [OF ingress_step.in_open [OF r, of demo_ctx 1 "[]" "[]"]] by simp
  have run: "(system_step demo_ctx 1)\<^sup>*\<^sup>* (demo_app demo_state, [], []) (app', [], [TunnelCopy tc])"
    using s1 s2 s3 by (meson converse_rtranclp_into_rtranclp r_into_rtranclp)
  have z: "tunnels (app_relay (demo_app demo_state)) = []" "r_metrics (app_relay (demo_app demo_state)) = new_metrics"
    by (simp_all add: demo_app_def demo_state_def)
  show ?thesis
    by (rule exI [of _ app'], rule exI [of _ "TunnelCopy tc"]) (use relay_invariant [OF run z] run ws in simp)
qed

end
