(* ===== verification/Acme.thy ===== *)
theory Acme
  imports Calendar Http Store
begin

text \<open>
  The ACME client, \<open>acme.rs\<close>: reading the expiry date out of the stored certificate, the renewal
  decision, the HTTP-01 challenge responder, and the order protocol of \<open>obtain_certificate\<close>.

  Base64 decoding, the ACME library with the certificate authority behind it, and the Cloudflare
  API are parameters. A slice that is out of range or not on a character boundary panics: such a
  function returns \<open>Inl SlicePanic\<close>. The loop that waits for the certificate has no bound in the
  source, so it is a partial function: \<open>None\<close> is a call that never returns.
\<close>

section \<open>Certificate expiry\<close>

datatype fault = SlicePanic

definition slice :: "string \<Rightarrow> nat \<Rightarrow> nat \<Rightarrow> string option" where
  "slice s a b =
     (if a \<le> b \<and> b \<le> length s \<and> is_char_boundary s a \<and> is_char_boundary s b
      then Some (take (b - a) (drop a s)) else None)"

abbreviation BEGIN_CERT :: string where "BEGIN_CERT \<equiv> ''-----BEGIN CERTIFICATE-----''"
abbreviation END_CERT :: string where "END_CERT \<equiv> ''-----END CERTIFICATE-----''"

definition pem_body :: "string \<Rightarrow> string" where
  "pem_body pem =
     concat (takeWhile (\<lambda>l. \<not> starts_with l END_CERT)
       (drop 1 (dropWhile (\<lambda>l. \<not> starts_with l BEGIN_CERT) (str_lines pem))))"

text \<open>The search for the first two values with the tag of a time.\<close>

definition is_time_tag :: "u8 \<Rightarrow> bool" where
  "is_time_tag tag \<longleftrightarrow> tag = 0x17 \<or> tag = 0x18"

function scan_times :: "u8 list \<Rightarrow> nat \<Rightarrow> u8 list list \<Rightarrow> u8 list list" where
  "scan_times der i found =
     (if i + 2 < length der \<and> length found < 2
      then if is_time_tag (der ! i)
           then let len = unat (der ! (i + 1))
                in scan_times der (i + 2 + len)
                     (if i + 2 + len \<le> length der then found @ [take len (drop (i + 2) der)] else found)
           else scan_times der (i + 1) found
      else found)"
  by pat_completeness auto
termination
  by (relation "measure (\<lambda>(der, i, found). length der - i)") auto

declare scan_times.simps [simp del]

text \<open>\<open>s[a..b].parse::<i64>().ok()?\<close>: a panic, an early return, or the number.\<close>

definition slice_parse :: "string \<Rightarrow> nat \<Rightarrow> nat \<Rightarrow> fault + int option" where
  "slice_parse s a b = (case slice s a b of None \<Rightarrow> Inl SlicePanic | Some t \<Rightarrow> Inr (parse_i64 t))"

definition try_then :: "fault + 'a option \<Rightarrow> ('a \<Rightarrow> fault + 'b option) \<Rightarrow> fault + 'b option" where
  "try_then r k = (case r of Inl e \<Rightarrow> Inl e | Inr None \<Rightarrow> Inr None | Inr (Some x) \<Rightarrow> k x)"

definition parse_time :: "string \<Rightarrow> fault + (int \<times> int \<times> int) option" where
  "parse_time s =
     try_then
       (if length s \<ge> 15
        then try_then (slice_parse s 0 4) (\<lambda>year. Inr (Some (year, drop 4 s)))
        else try_then (slice_parse s 0 2)
               (\<lambda>yy. Inr (Some (if yy < 50 then 2000 + yy else 1900 + yy, drop 2 s))))
       (\<lambda>(year, rest).
          try_then (slice_parse rest 0 2) (\<lambda>month.
            try_then (slice_parse rest 2 4) (\<lambda>day. Inr (Some (year, month, day)))))"

definition bytes_str :: "u8 list \<Rightarrow> string" where
  "bytes_str bs = map (\<lambda>b. char_of (unat b)) bs"

text \<open>\<open>now\<close> is \<open>None\<close> when the clock is before 1970.\<close>

definition days_until_expiry :: "(string \<Rightarrow> u8 list option) \<Rightarrow> nat option \<Rightarrow> string \<Rightarrow> fault + int option" where
  "days_until_expiry base64_decode now pem =
     (let b64 = pem_body pem
      in if b64 = [] then Inr None
         else (case base64_decode b64 of
           None \<Rightarrow> Inr None
         | Some der \<Rightarrow>
             (case scan_times der 0 [] of
                _ # not_after_bytes # _ \<Rightarrow>
                  let s = bytes_str not_after_bytes
                  in if \<not> utf8_valid s then Inr None
                     else try_then (parse_time s) (\<lambda>(year, month, day).
                       case days_since_epoch year month day of
                         None \<Rightarrow> Inr None
                       | Some exp_days \<Rightarrow>
                           (case now of
                              None \<Rightarrow> Inr None
                            | Some secs \<Rightarrow> Inr (Some (exp_days - int (secs div 86400)))))
              | _ \<Rightarrow> Inr None)))"

section \<open>Renewal\<close>

record AcmeConfig =
  ac_email :: string
  ac_domains :: "string list"
  cloudflare_api_token :: "string option"
  acme_dir :: string
  ac_production :: bool

definition cert_paths :: "AcmeConfig \<Rightarrow> (string \<times> string) option" where
  "cert_paths cfg =
     (case ac_domains cfg of
        [] \<Rightarrow> None
      | primary_domain # _ \<Rightarrow>
          Some (path_join (acme_dir cfg) (primary_domain @ ''.crt''), path_join (acme_dir cfg) (primary_domain @ ''.key'')))"

definition needs_renewal ::
  "(string \<Rightarrow> u8 list option) \<Rightarrow> nat option \<Rightarrow> AcmeConfig \<Rightarrow> (string \<Rightarrow> bool) \<Rightarrow> files \<Rightarrow> fault + bool" where
  "needs_renewal base64_decode now cfg readable fs =
     (case ac_domains cfg of
        [] \<Rightarrow> Inr False
      | primary_domain # _ \<Rightarrow>
          let cert_path = path_join (acme_dir cfg) (primary_domain @ ''.crt'')
          in (case fs cert_path of
                None \<Rightarrow> Inr True
              | Some pem \<Rightarrow>
                  if \<not> readable cert_path then Inr True
                  else (case days_until_expiry base64_decode now pem of
                          Inl e \<Rightarrow> Inl e
                        | Inr None \<Rightarrow> Inr True
                        | Inr (Some d) \<Rightarrow> Inr (d < 30))))"

section \<open>The HTTP-01 responder\<close>

fun split_ws_aux :: "string \<Rightarrow> string \<Rightarrow> string list" where
  "split_ws_aux acc [] = (if acc = [] then [] else [rev acc])"
| "split_ws_aux acc (c # cs) =
     (if is_whitespace c then (if acc = [] then split_ws_aux [] cs else rev acc # split_ws_aux [] cs)
      else split_ws_aux (c # acc) cs)"

definition split_whitespace :: "string \<Rightarrow> string list" where
  "split_whitespace s = split_ws_aux [] s"

abbreviation ACME_PREFIX :: string where
  "ACME_PREFIX \<equiv> ''/.well-known/acme-challenge/''"

definition ACME_404 :: string where
  "ACME_404 = ''HTTP/1.1 404 Not Found'' @ CRLF @ ''Content-Length: 0'' @ CRLF @ ''Connection: close'' @ CRLF @ CRLF"

definition acme_200 :: "string \<Rightarrow> string" where
  "acme_200 body = ''HTTP/1.1 200 OK'' @ CRLF @ ''Content-Type: text/plain'' @ CRLF @ ''Content-Length: ''
     @ show_nat (length body) @ CRLF @ ''Connection: close'' @ CRLF @ CRLF @ body"

definition request_path :: "string \<Rightarrow> string" where
  "request_path req =
     (case str_lines req of
        [] \<Rightarrow> ''/''
      | l # _ \<Rightarrow> (case split_whitespace l of _ # p # _ \<Rightarrow> p | _ \<Rightarrow> ''/''))"

text \<open>One connection: the bytes of its single read (\<open>None\<close>: an error) and what is written back.\<close>

definition acme_http_response :: "(string, string) hashmap \<Rightarrow> string option \<Rightarrow> string option" where
  "acme_http_response tokens buf =
     (case buf of
        None \<Rightarrow> None
      | Some req \<Rightarrow>
          if \<not> utf8_valid req then None
          else (case strip_prefix (request_path req) ACME_PREFIX of
                  Some tok \<Rightarrow>
                    let tok = rev (dropWhile (\<lambda>c. c = CHR ''/'') (rev tok))
                    in (case map_of tokens tok of Some key_auth \<Rightarrow> Some (acme_200 key_auth) | None \<Rightarrow> Some ACME_404)
                | None \<Rightarrow> Some ACME_404))"

section \<open>What the scan finds\<close>

lemma scan_shift: "scan_times (pre @ rest) (length pre + j) found = scan_times rest j found"
proof (induction rest j found rule: scan_times.induct)
  case (1 rest j found)
  have nth: "(pre @ rest) ! (length pre + j) = rest ! j" "(pre @ rest) ! (length pre + j + 1) = rest ! (j + 1)"
    by (simp_all add: nth_append)
  have drop: "drop (length pre + j + 2) (pre @ rest) = drop (j + 2) rest" by simp
  let ?go = "j + 2 < length rest \<and> length found < 2" and ?len = "unat (rest ! (j + 1))"
  let ?f = "if j + 2 + ?len \<le> length rest then found @ [take ?len (drop (j + 2) rest)] else found"
  consider (stop) "\<not> ?go" | (tag) ?go "is_time_tag (rest ! j)" | (other) ?go "\<not> is_time_tag (rest ! j)" by blast
  then show ?case
  proof cases
    case stop
    then show ?thesis by (subst (1 2) scan_times.simps) auto
  next
    case tag
    have "scan_times (pre @ rest) (length pre + j) found = scan_times (pre @ rest) (length pre + (j + 2 + ?len)) ?f"
      using tag nth drop by (subst scan_times.simps) (simp add: Let_def add.assoc)
    also have "\<dots> = scan_times rest (j + 2 + ?len) ?f" by (rule 1(1) [OF tag refl])
    also have "\<dots> = scan_times rest j found" using tag by (subst (2) scan_times.simps) (simp add: Let_def)
    finally show ?thesis .
  next
    case other
    have "scan_times (pre @ rest) (length pre + j) found = scan_times (pre @ rest) (length pre + (j + 1)) found"
      using other nth by (subst scan_times.simps) simp
    also have "\<dots> = scan_times rest (j + 1) found" by (rule 1(2) [OF other])
    also have "\<dots> = scan_times rest j found" using other by (subst (2) scan_times.simps) simp
    finally show ?thesis .
  qed
qed

lemma scan_skip:
  assumes "\<forall>b \<in> set pre. \<not> is_time_tag b" and "2 < length rest" and "length found < 2"
  shows "scan_times (pre @ rest) 0 found = scan_times rest 0 found"
  using assms(1)
proof (induction pre)
  case Nil
  then show ?case by simp
next
  case (Cons b pre)
  have "scan_times ((b # pre) @ rest) 0 found = scan_times ([b] @ (pre @ rest)) (length [b] + 0) found"
    using Cons.prems assms(2,3) by (subst scan_times.simps) simp
  then show ?case using Cons scan_shift [of "[b]" "pre @ rest" 0 found] by simp
qed

definition tlv :: "u8 \<Rightarrow> u8 list \<Rightarrow> u8 list" where
  "tlv tag v = tag # word_of_nat (length v) # v"

lemma scan_tlv:
  assumes "is_time_tag tag" and "length v < 256" and "v @ rest \<noteq> []" and "length found < 2"
  shows "scan_times (tlv tag v @ rest) 0 found = scan_times rest 0 (found @ [v])"
proof -
  have len: "unat (word_of_nat (length v) :: u8) = length v" using assms(2) by (intro unat_of_nat_small) simp
  have "scan_times (tlv tag v @ rest) 0 found = scan_times (tlv tag v @ rest) (length (tlv tag v) + 0) (found @ [v])"
    using assms by (subst scan_times.simps) (simp add: tlv_def Let_def len)
  then show ?thesis using scan_shift [of "tlv tag v" rest 0 "found @ [v]"] by simp
qed

lemma scan_done: "length found = 2 \<Longrightarrow> scan_times der i found = found"
  by (subst scan_times.simps) simp

lemma scan_validity:
  assumes "\<forall>b \<in> set pre. \<not> is_time_tag b" and "is_time_tag tag1" and "is_time_tag tag2"
    and "length t1 < 256" and "length t2 < 256" and "t2 @ rest \<noteq> []"
  shows "scan_times (pre @ tlv tag1 t1 @ tlv tag2 t2 @ rest) 0 [] = [t1, t2]"
proof -
  have "2 < length (tlv tag1 t1 @ tlv tag2 t2 @ rest)" by (simp add: tlv_def)
  then have "scan_times (pre @ tlv tag1 t1 @ tlv tag2 t2 @ rest) 0 [] = scan_times (tlv tag1 t1 @ tlv tag2 t2 @ rest) 0 []"
    by (intro scan_skip [OF assms(1)]) simp_all
  also have "\<dots> = scan_times (tlv tag2 t2 @ rest) 0 [t1]"
    using scan_tlv [OF assms(2,4), of "tlv tag2 t2 @ rest" "[]"] by (simp add: tlv_def)
  also have "\<dots> = scan_times rest 0 [t1, t2]" using scan_tlv [OF assms(3,5,6), of "[t1]"] by simp
  finally show ?thesis by (simp add: scan_done)
qed

section \<open>UTC times\<close>

definition two_digits :: "nat \<Rightarrow> string" where
  "two_digits n = pad_left 2 CHR ''0'' (show_nat n)"

lemma two_digits_char: "n < 100 \<Longrightarrow> two_digits n = [digit_char (n div 10), digit_char (n mod 10)]"
proof -
  assume n: "n < 100"
  have "digit_char 0 = CHR ''0''" by code_simp
  moreover have "show_nat n = (if n < 10 then [digit_char n] else [digit_char (n div 10), digit_char (n mod 10)])"
    using n by (subst show_nat.simps, subst show_nat.simps) (auto simp: numeral_2_eq_2)
  ultimately show ?thesis using n by (auto simp: two_digits_def pad_left_def)
qed

lemma length_two_digits: "n < 100 \<Longrightarrow> length (two_digits n) = 2"
  by (simp add: two_digits_char)

lemma digit_char_digit: "d < 10 \<Longrightarrow> is_digit (digit_char d) \<and> digit_val (digit_char d) = d \<and> digit_char d \<noteq> CHR ''+'' \<and> digit_char d \<noteq> CHR ''-''"
  using digit_char_props [of d] by (auto simp: is_digit_def chr_code_def)

lemma parse_two_digits: "n < 100 \<Longrightarrow> parse_i64 (two_digits n) = Some (int n)"
  using digit_char_digit [of "n div 10"] digit_char_digit [of "n mod 10"]
  by (simp add: two_digits_char parse_i64_def parse_uint_def digits_val_def)

text \<open>\<open>YYMMDD\<close> and the time of the day.\<close>

definition utc_time :: "int \<times> int \<times> int \<Rightarrow> string \<Rightarrow> string" where
  "utc_time ymd hms = (case ymd of (y, m, d) \<Rightarrow> two_digits (nat (y mod 100)) @ two_digits (nat m) @ two_digits (nat d) @ hms)"

definition utc_range :: "int \<times> int \<times> int \<Rightarrow> bool" where
  "utc_range ymd = (case ymd of (y, m, d) \<Rightarrow> 1950 \<le> y \<and> y < 2050 \<and> 0 \<le> m \<and> m < 100 \<and> 0 \<le> d \<and> d < 100)"

lemma ascii_boundary: "ascii s \<Longrightarrow> i \<le> length s \<Longrightarrow> is_char_boundary s i"
  by (auto simp: is_char_boundary_def ascii_def)

lemma slice_ascii: "ascii s \<Longrightarrow> a \<le> b \<Longrightarrow> b \<le> length s \<Longrightarrow> slice s a b = Some (take (b - a) (drop a s))"
  by (simp add: slice_def ascii_boundary)

lemma ascii_two_digits: "n < 100 \<Longrightarrow> ascii (two_digits n)"
proof -
  assume n: "n < 100"
  then have "is_digit (digit_char (n div 10))" "is_digit (digit_char (n mod 10))" using digit_char_digit by simp_all
  then show ?thesis using n by (auto simp: ascii_def two_digits_char is_digit_def)
qed

lemma ascii_append: "ascii (a @ b) \<longleftrightarrow> ascii a \<and> ascii b"
  by (auto simp: ascii_def)

lemma parse_utc_time:
  assumes "utc_range (y, m, d)" and "length hms = 7" and "ascii hms"
  shows "parse_time (utc_time (y, m, d) hms) = Inr (Some (y, m, d))"
proof -
  have r: "1950 \<le> y" "y < 2050" "0 \<le> m" "m < 100" "0 \<le> d" "d < 100" using assms(1) by (simp_all add: utc_range_def)
  have yy: "nat (y mod 100) < 100" "nat m < 100" "nat d < 100" using r by auto
  let ?yy = "two_digits (nat (y mod 100))" and ?mm = "two_digits (nat m)" and ?dd = "two_digits (nat d)"
  let ?s = "?yy @ ?mm @ ?dd @ hms"
  have l: "length ?yy = 2" "length ?mm = 2" "length ?dd = 2" using length_two_digits yy by blast+
  have asc: "ascii ?s" "ascii (?mm @ ?dd @ hms)" using ascii_two_digits yy assms(3) by (simp_all add: ascii_append)
  have y: "(if y mod 100 < 50 then 2000 + y mod 100 else 1900 + y mod 100) = y" using r by presburger
  have s1: "slice_parse ?s 0 2 = Inr (Some (y mod 100))"
    using parse_two_digits [OF yy(1)] by (simp add: slice_parse_def slice_ascii [OF asc(1)] l)
  have s2: "slice_parse (?mm @ ?dd @ hms) 0 2 = Inr (Some m)" "slice_parse (?mm @ ?dd @ hms) 2 4 = Inr (Some d)"
    using parse_two_digits [OF yy(2)] parse_two_digits [OF yy(3)] r
    by (simp_all add: slice_parse_def slice_ascii [OF asc(2)] l)
  have "drop 2 ?s = ?mm @ ?dd @ hms" using l(1) by simp
  then show ?thesis
    unfolding utc_time_def parse_time_def prod.case
    using s1 s2 y l assms(2) by (simp add: try_then_def)
qed

definition str_bytes :: "string \<Rightarrow> u8 list" where
  "str_bytes s = map (\<lambda>c. word_of_nat (chr_code c)) s"

lemma bytes_str_bytes: "bytes_str (str_bytes s) = s"
proof -
  have "char_of (unat (word_of_nat (chr_code c) :: u8)) = c" for c
  proof -
    have "chr_code c < 256" by (simp add: chr_code_def)
    then have "unat (word_of_nat (chr_code c) :: u8) = chr_code c" by (intro unat_of_nat_small) simp
    then show ?thesis by simp
  qed
  then show ?thesis by (simp add: bytes_str_def str_bytes_def comp_def)
qed

lemma utc_time_props:
  assumes "utc_range (y, m, d)" and "ascii hms" and "length hms = 7"
  shows "utf8_valid (utc_time (y, m, d) hms)" "length (utc_time (y, m, d) hms) = 13"
proof -
  have n: "nat (y mod 100) < 100" "nat m < 100" "nat d < 100" using assms(1) by (auto simp: utc_range_def)
  then show "utf8_valid (utc_time (y, m, d) hms)"
    using assms(2) by (auto simp: utc_time_def ascii_append ascii_two_digits intro!: utf8_ascii)
  show "length (utc_time (y, m, d) hms) = 13" using n assms(3) by (simp add: utc_time_def length_two_digits)
qed

text \<open>The second time found is what counts, whatever it is the time of.\<close>

lemma expiry_of_second_time:
  assumes "pem_body pem \<noteq> []" and "base64_decode (pem_body pem) = Some der"
    and "scan_times der 0 [] = [t1, str_bytes (utc_time (epoch_to_ymd e) hms)]"
    and "utc_range (epoch_to_ymd e)" and "length hms = 7" and "ascii hms" and "e < 2 ^ 55"
  shows "days_until_expiry base64_decode (Some now) pem = Inr (Some (int (e div 86400) - int (now div 86400)))"
proof -
  obtain y m d where ymd: "epoch_to_ymd e = (y, m, d)" using prod_cases3 by blast
  have "days_since_epoch y m d = Some (int (e div 86400))" using ymd_round_trip [OF assms(7)] ymd by simp
  moreover have "parse_time (utc_time (y, m, d) hms) = Inr (Some (y, m, d))"
    using parse_utc_time assms(4-6) ymd by simp
  moreover have "utf8_valid (utc_time (y, m, d) hms)" using utc_time_props(1) assms(4-6) ymd by simp
  ultimately show ?thesis
    using assms(1-3) ymd by (simp add: days_until_expiry_def bytes_str_bytes try_then_def)
qed


text \<open>A certificate of 90 days, valid from 2024-02-29.\<close>

definition demo_acme :: AcmeConfig where
  "demo_acme = \<lparr>ac_email = [], ac_domains = [''a.test''], cloudflare_api_token = None, acme_dir = ''d'', ac_production = False\<rparr>"

definition demo_der :: "u8 list \<Rightarrow> u8 list" where
  "demo_der serial = [0x30, 0x02] @ serial @ tlv 0x17 (str_bytes (utc_time (epoch_to_ymd 1709164800) ''000000Z''))
     @ tlv 0x17 (str_bytes (utc_time (epoch_to_ymd 1716940800) ''000000Z'')) @ [0x30]"

definition demo_pem :: string where
  "demo_pem = BEGIN_CERT @ [LF] @ ''AAAA'' @ [LF] @ END_CERT @ [LF]"

lemma demo_pem_body: "pem_body demo_pem = ''AAAA''"
  by code_simp

lemma demo_dates: "epoch_to_ymd 1709164800 = (2024, 2, 29)" "epoch_to_ymd 1716940800 = (2024, 5, 29)"
proof -
  have "civil 739250 = (2024, 2, 29)" "civil 739340 = (2024, 5, 29)" by code_simp+
  then show "epoch_to_ymd 1709164800 = (2024, 2, 29)" "epoch_to_ymd 1716940800 = (2024, 5, 29)"
    by (simp_all add: epoch_to_ymd_civil as_i32_def as_u32_def)
qed

lemma demo_hms: "length ''000000Z'' = 7" "ascii ''000000Z''"
  by (simp_all add: ascii_def chr_code_def)

lemma demo_path: "path_join (acme_dir demo_acme) (''a.test'' @ ''.crt'') = ''d/a.test.crt''"
  by code_simp


text \<open>
  The scan does not parse: a byte 0x17 or 0x18 in front of the validity, such as one of a random
  serial number, counts as a time. Then the second time found is the start of the validity, and a
  certificate that has started is renewed at every check, however long it is still valid.
\<close>

theorem serial_byte_forces_renewal:
  assumes "ac_domains cfg = dm # dms" and "fs (path_join (acme_dir cfg) (dm @ ''.crt'')) = Some pem"
    and "pem_body pem \<noteq> []"
    and "base64_decode (pem_body pem) = Some (pre @ tlv tag0 junk @ mid
        @ tlv tag1 (str_bytes (utc_time (epoch_to_ymd start) hms)) @ rest)"
    and "\<forall>b \<in> set pre. \<not> is_time_tag b" and "\<forall>b \<in> set mid. \<not> is_time_tag b"
    and "is_time_tag tag0" and "is_time_tag tag1" and "length junk < 256"
    and "utc_range (epoch_to_ymd start)" and "length hms = 7" and "ascii hms" and "start < 2 ^ 55" and "start \<le> now"
  shows "needs_renewal base64_decode (Some now) cfg readable fs = Inr True"
proof -
  let ?t = "str_bytes (utc_time (epoch_to_ymd start) hms)"
  obtain y m d where ymd: "epoch_to_ymd start = (y, m, d)" using prod_cases3 by blast
  have l: "length ?t = 13" using utc_time_props(2) assms(10-12) ymd by (simp add: str_bytes_def)
  have "scan_times (pre @ tlv tag0 junk @ mid @ tlv tag1 ?t @ rest) 0 [] = scan_times (tlv tag0 junk @ mid @ tlv tag1 ?t @ rest) 0 []"
    by (rule scan_skip [OF assms(5)]) (simp_all add: tlv_def)
  also have "\<dots> = scan_times (mid @ tlv tag1 ?t @ rest) 0 [junk]"
    using scan_tlv [OF assms(7,9), of "mid @ tlv tag1 ?t @ rest" "[]"] by (simp add: tlv_def)
  also have "\<dots> = scan_times (tlv tag1 ?t @ rest) 0 [junk]"
    by (rule scan_skip [OF assms(6)]) (simp_all add: tlv_def l)
  also have "\<dots> = scan_times rest 0 [junk, ?t]" using scan_tlv [OF assms(8), of ?t rest "[junk]"] l by force
  finally have s: "scan_times (pre @ tlv tag0 junk @ mid @ tlv tag1 ?t @ rest) 0 [] = [junk, ?t]" by (simp add: scan_done)
  have "start div 86400 \<le> now div 86400" using assms(14) by (rule div_le_mono)
  then show ?thesis
    using expiry_of_second_time [where base64_decode = base64_decode and now = now, OF assms(3,4) s assms(10-13)] assms(1,2)
    by (simp add: needs_renewal_def Let_def)
qed

end
