(* ===== verification/Cloudflare.thy ===== *)
theory Cloudflare
  imports Store
begin

text \<open>
  The Cloudflare client, \<open>cloudflare.rs\<close>, and the handlers of \<open>admin.rs\<close> that call it. The API is a
  parameter: its answer to a request, or \<open>None\<close> when the request cannot be sent. The derived
  decoders of the wire types are written out over JSON objects: a missing or ill-typed field is an
  error, an unknown one is ignored, \<open>serde(default)\<close> and \<open>Option\<close> fields may be missing.
\<close>

section \<open>Requests\<close>

datatype http_verb = GET | POST | PUT | DELETE

record cf_request =
  cr_verb :: http_verb
  cr_url :: string
  cr_bearer :: string
  cr_body :: "json option"

record cf_reply =
  rp_status :: nat
  rp_text :: string
  rp_json :: "json option"

type_synonym cf_api = "cf_request \<Rightarrow> cf_reply option"

definition CF_API :: string where
  "CF_API = ''https://api.cloudflare.com/client/v4''"

section \<open>Wire types\<close>

record CfZone =
  cz_id :: string
  cz_name :: string
  cz_status :: string

record CfTunnelConn =
  colo_name :: string
  is_pending_reconnect :: bool

record CfTunnel =
  ct_id :: string
  ct_name :: string
  ct_status :: string
  ct_created_at :: string
  ct_deleted_at :: "json option"
  ct_connections :: "CfTunnelConn list"

record CreateDnsRecord =
  dr_name :: string
  dr_type :: string
  dr_content :: string
  dr_proxied :: bool
  dr_ttl :: u32

record CfDnsRecord = CreateDnsRecord +
  dr_id :: string
  dr_modified_on :: "string option"

text \<open>Fields: required, optional (\<open>null\<close> and missing are \<open>None\<close>) and with a default.\<close>

definition req_field :: "(json \<Rightarrow> 'a option) \<Rightarrow> string \<Rightarrow> json \<Rightarrow> 'a option" where
  "req_field dec k j = Option.bind (json_get j k) dec"

definition opt_field :: "(json \<Rightarrow> 'a option) \<Rightarrow> string \<Rightarrow> json \<Rightarrow> 'a option option" where
  "opt_field dec k j =
     (case json_get j k of
        None \<Rightarrow> Some None
      | Some v \<Rightarrow> if v = JNull then Some None else map_option Some (dec v))"

definition def_field :: "'a \<Rightarrow> (json \<Rightarrow> 'a option) \<Rightarrow> string \<Rightarrow> json \<Rightarrow> 'a option" where
  "def_field d dec k j = (case json_get j k of None \<Rightarrow> Some d | Some v \<Rightarrow> dec v)"

fun dec_str :: "json \<Rightarrow> string option" where
  "dec_str (JStr s) = Some s"
| "dec_str _ = None"

fun dec_bool :: "json \<Rightarrow> bool option" where
  "dec_bool (JBool b) = Some b"
| "dec_bool _ = None"

fun dec_u32 :: "json \<Rightarrow> u32 option" where
  "dec_u32 (JInt n) = (if 0 \<le> n \<and> n < 2 ^ 32 then Some (word_of_int n) else None)"
| "dec_u32 _ = None"

fun dec_list :: "(json \<Rightarrow> 'a option) \<Rightarrow> json \<Rightarrow> 'a list option" where
  "dec_list dec (JArr xs) = those (map dec xs)"
| "dec_list dec _ = None"

definition dec_zone :: "json \<Rightarrow> CfZone option" where
  "dec_zone j = do { i \<leftarrow> req_field dec_str ''id'' j; n \<leftarrow> req_field dec_str ''name'' j; s \<leftarrow> req_field dec_str ''status'' j;
     Some \<lparr>cz_id = i, cz_name = n, cz_status = s\<rparr> }"

definition dec_conn :: "json \<Rightarrow> CfTunnelConn option" where
  "dec_conn j = do { c \<leftarrow> def_field [] dec_str ''colo_name'' j; p \<leftarrow> req_field dec_bool ''is_pending_reconnect'' j;
     Some \<lparr>colo_name = c, is_pending_reconnect = p\<rparr> }"

definition dec_tunnel :: "json \<Rightarrow> CfTunnel option" where
  "dec_tunnel j = do { i \<leftarrow> req_field dec_str ''id'' j; n \<leftarrow> req_field dec_str ''name'' j; s \<leftarrow> req_field dec_str ''status'' j;
     c \<leftarrow> req_field dec_str ''created_at'' j; d \<leftarrow> opt_field Some ''deleted_at'' j;
     xs \<leftarrow> def_field [] (dec_list dec_conn) ''connections'' j;
     Some \<lparr>ct_id = i, ct_name = n, ct_status = s, ct_created_at = c, ct_deleted_at = d, ct_connections = xs\<rparr> }"

definition dec_dns :: "json \<Rightarrow> CfDnsRecord option" where
  "dec_dns j = do { i \<leftarrow> req_field dec_str ''id'' j; n \<leftarrow> req_field dec_str ''name'' j; t \<leftarrow> req_field dec_str ''type'' j;
     c \<leftarrow> req_field dec_str ''content'' j; p \<leftarrow> req_field dec_bool ''proxied'' j; l \<leftarrow> req_field dec_u32 ''ttl'' j;
     m \<leftarrow> opt_field dec_str ''modified_on'' j;
     Some \<lparr>dr_name = n, dr_type = t, dr_content = c, dr_proxied = p, dr_ttl = l, dr_id = i, dr_modified_on = m\<rparr> }"

text \<open>Serialization, for the answers of the admin interface and the request bodies.\<close>

definition zone_json :: "CfZone \<Rightarrow> json" where
  "zone_json z = JObj [(''id'', JStr (cz_id z)), (''name'', JStr (cz_name z)), (''status'', JStr (cz_status z))]"

definition conn_json :: "CfTunnelConn \<Rightarrow> json" where
  "conn_json c = JObj [(''colo_name'', JStr (colo_name c)), (''is_pending_reconnect'', JBool (is_pending_reconnect c))]"

definition tunnel_json :: "CfTunnel \<Rightarrow> json" where
  "tunnel_json t = JObj [(''id'', JStr (ct_id t)), (''name'', JStr (ct_name t)), (''status'', JStr (ct_status t)),
     (''created_at'', JStr (ct_created_at t)), (''deleted_at'', case ct_deleted_at t of Some v \<Rightarrow> v | None \<Rightarrow> JNull),
     (''connections'', JArr (map conn_json (ct_connections t)))]"

definition create_dns_json :: "CreateDnsRecord \<Rightarrow> json" where
  "create_dns_json r = JObj [(''name'', JStr (dr_name r)), (''type'', JStr (dr_type r)), (''content'', JStr (dr_content r)),
     (''proxied'', JBool (dr_proxied r)), (''ttl'', JInt (uint (dr_ttl r)))]"

definition dns_json :: "CfDnsRecord \<Rightarrow> json" where
  "dns_json r = JObj [(''id'', JStr (dr_id r)), (''name'', JStr (dr_name r)), (''type'', JStr (dr_type r)),
     (''content'', JStr (dr_content r)), (''proxied'', JBool (dr_proxied r)), (''ttl'', JInt (uint (dr_ttl r))),
     (''modified_on'', case dr_modified_on r of Some s \<Rightarrow> JStr s | None \<Rightarrow> JNull)]"

section \<open>The response envelope\<close>

record 'a CfResp =
  cf_result :: "'a option"
  cf_success :: bool
  cf_errors :: "(u32 \<times> string) list"

definition dec_err :: "json \<Rightarrow> (u32 \<times> string) option" where
  "dec_err j = do { c \<leftarrow> req_field dec_u32 ''code'' j; m \<leftarrow> req_field dec_str ''message'' j; Some (c, m) }"

definition dec_resp :: "(json \<Rightarrow> 'a option) \<Rightarrow> json \<Rightarrow> 'a CfResp option" where
  "dec_resp dec j = do { r \<leftarrow> opt_field dec ''result'' j; s \<leftarrow> req_field dec_bool ''success'' j;
     e \<leftarrow> req_field (dec_list dec_err) ''errors'' j;
     Some \<lparr>cf_result = r, cf_success = s, cf_errors = e\<rparr> }"

definition into_result :: "'a CfResp \<Rightarrow> string + 'a" where
  "into_result r =
     (if \<not> cf_success r
      then Inl (case cf_errors r of (code, msg) # _ \<Rightarrow> show_nat (unat code) @ '': '' @ msg | [] \<Rightarrow> ''unknown CF API error'')
      else case cf_result r of Some x \<Rightarrow> Inr x | None \<Rightarrow> Inl ''CF API returned null result'')"

section \<open>The client\<close>

definition verb_name :: "http_verb \<Rightarrow> string" where
  "verb_name v = (case v of GET \<Rightarrow> ''GET'' | POST \<Rightarrow> ''POST'' | PUT \<Rightarrow> ''PUT'' | DELETE \<Rightarrow> ''DELETE'')"

definition cf_req :: "CfSettings \<Rightarrow> http_verb \<Rightarrow> string \<Rightarrow> json option \<Rightarrow> cf_request" where
  "cf_req c v path body = \<lparr>cr_verb = v, cr_url = CF_API @ path, cr_bearer = api_token c, cr_body = body\<rparr>"

text \<open>\<open>get\<close>, \<open>post\<close> and \<open>put\<close>.\<close>

definition cf_call :: "cf_api \<Rightarrow> (json \<Rightarrow> 'a option) \<Rightarrow> cf_request \<Rightarrow> string + 'a" where
  "cf_call api dec req =
     (case api req of
        None \<Rightarrow> Inl (''CF '' @ verb_name (cr_verb req) @ '' failed'')
      | Some resp \<Rightarrow>
          (case Option.bind (rp_json resp) (dec_resp dec) of
             None \<Rightarrow> Inl ''CF response parse''
           | Some r \<Rightarrow> into_result r))"

definition cf_delete :: "cf_api \<Rightarrow> cf_request \<Rightarrow> string + unit" where
  "cf_delete api req =
     (case api req of
        None \<Rightarrow> Inl ''CF DELETE failed''
      | Some resp \<Rightarrow>
          if 200 \<le> rp_status resp \<and> rp_status resp < 300 then Inr ()
          else Inl (''CF API error: '' @ rp_text resp))"

section \<open>The handlers\<close>

datatype cf_op =
    CfListTunnels | CfCreateTunnel string | CfDeleteTunnel string | CfTunnelToken string | CfListZones
  | CfListDns string | CfCreateDns string CreateDnsRecord | CfUpdateDns string string CreateDnsRecord
  | CfDeleteDns string string

text \<open>The request an operation sends; \<open>secret\<close> is the encoded random secret of a new tunnel.\<close>

fun cf_op_request :: "CfSettings \<Rightarrow> string \<Rightarrow> cf_op \<Rightarrow> cf_request" where
  "cf_op_request c secret CfListTunnels =
     cf_req c GET (''/accounts/'' @ account_id c @ ''/cfd_tunnel?per_page=50&is_deleted=false'') None"
| "cf_op_request c secret (CfCreateTunnel name) =
     cf_req c POST (''/accounts/'' @ account_id c @ ''/cfd_tunnel'')
       (Some (JObj [(''name'', JStr (trim name)), (''tunnel_secret'', JStr secret)]))"
| "cf_op_request c secret (CfDeleteTunnel i) = cf_req c DELETE (''/accounts/'' @ account_id c @ ''/cfd_tunnel/'' @ i) None"
| "cf_op_request c secret (CfTunnelToken i) = cf_req c GET (''/accounts/'' @ account_id c @ ''/cfd_tunnel/'' @ i @ ''/token'') None"
| "cf_op_request c secret CfListZones = cf_req c GET ''/zones?per_page=50&status=active'' None"
| "cf_op_request c secret (CfListDns z) = cf_req c GET (''/zones/'' @ z @ ''/dns_records?per_page=100&order=name'') None"
| "cf_op_request c secret (CfCreateDns z r) = cf_req c POST (''/zones/'' @ z @ ''/dns_records'') (Some (create_dns_json r))"
| "cf_op_request c secret (CfUpdateDns z i r) = cf_req c PUT (''/zones/'' @ z @ ''/dns_records/'' @ i) (Some (create_dns_json r))"
| "cf_op_request c secret (CfDeleteDns z i) = cf_req c DELETE (''/zones/'' @ z @ ''/dns_records/'' @ i) None"

definition err_response :: "string \<Rightarrow> response" where
  "err_response msg = (500, JsonBody (JObj [(''error'', JStr msg)]))"

definition credentials_required :: response where
  "credentials_required = (422, JsonBody (JObj [(''error'',
     JStr (''credentials not configured '' @ [CHR 0xE2, CHR 0x80, CHR 0x94] @ '' set CF API token and account ID in Settings''))]))"

definition answer :: "('a \<Rightarrow> response) \<Rightarrow> string + 'a \<Rightarrow> response" where
  "answer ok r = (case r of Inl e \<Rightarrow> err_response e | Inr x \<Rightarrow> ok x)"

fun cf_op_answer :: "cf_api \<Rightarrow> cf_request \<Rightarrow> cf_op \<Rightarrow> response" where
  "cf_op_answer api req CfListTunnels = answer (\<lambda>ts. (200, JsonBody (JArr (map tunnel_json ts)))) (cf_call api (dec_list dec_tunnel) req)"
| "cf_op_answer api req (CfCreateTunnel _) = answer (\<lambda>t. (201, JsonBody (tunnel_json t))) (cf_call api dec_tunnel req)"
| "cf_op_answer api req (CfDeleteTunnel _) = answer (\<lambda>_. (204, NoBody)) (cf_delete api req)"
| "cf_op_answer api req (CfTunnelToken _) = answer (\<lambda>tok. (200, JsonBody (JObj [(''token'', JStr tok)]))) (cf_call api dec_str req)"
| "cf_op_answer api req CfListZones = answer (\<lambda>zs. (200, JsonBody (JArr (map zone_json zs)))) (cf_call api (dec_list dec_zone) req)"
| "cf_op_answer api req (CfListDns _) = answer (\<lambda>rs. (200, JsonBody (JArr (map dns_json rs)))) (cf_call api (dec_list dec_dns) req)"
| "cf_op_answer api req (CfCreateDns _ _) = answer (\<lambda>r. (201, JsonBody (dns_json r))) (cf_call api dec_dns req)"
| "cf_op_answer api req (CfUpdateDns _ _ _) = answer (\<lambda>r. (200, JsonBody (dns_json r))) (cf_call api dec_dns req)"
| "cf_op_answer api req (CfDeleteDns _ _) = answer (\<lambda>_. (204, NoBody)) (cf_delete api req)"

text \<open>A handler: the answer, and the request that was sent, if any.\<close>

definition cf_handle :: "cf_api \<Rightarrow> string \<Rightarrow> cf_op \<Rightarrow> Store \<Rightarrow> response \<times> cf_request option" where
  "cf_handle api secret op store =
     (case cf_client store of
        None \<Rightarrow> (credentials_required, None)
      | Some c \<Rightarrow> let req = cf_op_request c secret op in (cf_op_answer api req op, Some req))"

section \<open>Properties\<close>

lemma field_simps [simp]:
  "req_field dec k (JObj ((k, v) # m)) = dec v"
  "k \<noteq> k' \<Longrightarrow> req_field dec k (JObj ((k', v) # m)) = req_field dec k (JObj m)"
  "opt_field dec k (JObj ((k, v) # m)) = (if v = JNull then Some None else map_option Some (dec v))"
  "k \<noteq> k' \<Longrightarrow> opt_field dec k (JObj ((k', v) # m)) = opt_field dec k (JObj m)"
  "def_field d dec k (JObj ((k, v) # m)) = dec v"
  "k \<noteq> k' \<Longrightarrow> def_field d dec k (JObj ((k', v) # m)) = def_field d dec k (JObj m)"
  by (simp_all add: req_field_def opt_field_def def_field_def)

lemma u32_bound [simp]: "uint (w :: u32) < 4294967296"
  using unsigned_less [of w, where ?'a = int] by simp

lemma those_map: "(\<And>x. x \<in> set xs \<Longrightarrow> f x = Some (g x)) \<Longrightarrow> those (map f xs) = Some (map g xs)"
  by (induction xs) auto

lemma dec_zone_json: "dec_zone (zone_json z) = Some z"
  by (simp add: dec_zone_def zone_json_def)

lemma dec_conn_json: "dec_conn (conn_json c) = Some c"
  by (simp add: dec_conn_def conn_json_def)

lemma dec_tunnel_json: "ct_deleted_at t \<noteq> Some JNull \<Longrightarrow> dec_tunnel (tunnel_json t) = Some t"
  by (cases "ct_deleted_at t")
     (simp_all add: dec_tunnel_def tunnel_json_def those_map [where g = "\<lambda>c. c"] comp_def dec_conn_json)

lemma dec_dns_json: "dec_dns (dns_json r) = Some r"
  by (cases "dr_modified_on r") (simp_all add: dec_dns_def dns_json_def)

text \<open>
  The wire types survive the round trip through the admin interface: what Cloudflare reports is
  what the answer carries, field by field, for zones, DNS records and tunnels (an explicit null
  for the deletion time is the same as none).
\<close>

theorem cf_wire_round_trip:
  "dec_zone (zone_json z) = Some z \<and> dec_dns (dns_json r) = Some r
   \<and> dec_tunnel (tunnel_json t) = Some (t\<lparr>ct_deleted_at := (if ct_deleted_at t = Some JNull then None else ct_deleted_at t)\<rparr>)"
proof -
  let ?t = "t\<lparr>ct_deleted_at := (if ct_deleted_at t = Some JNull then None else ct_deleted_at t)\<rparr>"
  have "tunnel_json t = tunnel_json ?t" by (cases "ct_deleted_at t") (auto simp: tunnel_json_def)
  moreover have "dec_tunnel (tunnel_json ?t) = Some ?t" by (rule dec_tunnel_json) simp
  ultimately show ?thesis by (simp add: dec_zone_json dec_dns_json)
qed

text \<open>
  Without stored credentials no operation sends anything, and the answer is 422; with them, every
  operation sends one request, to the Cloudflare API and with the stored token, and a failure of
  any kind is answered with 500.
\<close>

theorem cf_request_gate:
  "case cf_handle api secret op store of (resp, sent) \<Rightarrow>
     (case cf_client store of
        None \<Rightarrow> sent = None \<and> fst resp = 422
      | Some c \<Rightarrow> (\<exists>req. sent = Some req \<and> starts_with (cr_url req) CF_API \<and> cr_bearer req = api_token c
          \<and> (api req = None \<longrightarrow> fst resp = 500)))"
proof (cases "cf_client store")
  case None
  then show ?thesis by (simp add: cf_handle_def credentials_required_def)
next
  case (Some c)
  have "starts_with (cr_url (cf_op_request c secret op)) CF_API" "cr_bearer (cf_op_request c secret op) = api_token c"
    by (cases op; simp add: cf_req_def starts_with_iff)+
  moreover have "api (cf_op_request c secret op) = None \<Longrightarrow> fst (cf_op_answer api (cf_op_request c secret op) op) = 500"
    by (cases op) (simp_all add: cf_call_def cf_delete_def answer_def err_response_def)
  ultimately show ?thesis using Some by (simp add: cf_handle_def Let_def)
qed

end
