(* ===== verification/Acme_Order.thy ===== *)
theory Acme_Order
  imports Acme Cloudflare
begin

text \<open>
  The ACME order, \<open>obtain_certificate\<close> of \<open>acme.rs\<close>, with the account file, the Cloudflare DNS-01
  helpers and the renewal task. The certificate authority, the Cloudflare API and the file system
  answer as the record \<open>AcmeEnv\<close> says (\<open>ae_creds_ok\<close> that stored credentials load, \<open>ae_csr\<close> that the
  key and the signing request can be made); the state is the token store of the HTTP-01 responder, the
  files, the DNS records this client has made and not removed, and the audit log.
\<close>

section \<open>State and environment\<close>

datatype AuthorizationStatus = AuthPending | AuthValid | AuthOther
datatype ChallengeType = Dns01 | Http01
datatype LetsEncrypt = Production | Staging
datatype OrderStatus = OrderPending | OrderReady | OrderValid | OrderInvalid | OrderProcessing

record Challenge =
  ch_type :: ChallengeType
  ch_token :: string
  ch_url :: string

record Authz =
  az_status :: AuthorizationStatus
  az_domain :: string
  az_challenges :: "Challenge list"

text \<open>
  \<open>ae_http\<close> is the Cloudflare API. \<open>ae_refresh\<close> and \<open>ae_certificate\<close> give the answer to
  the n-th poll; \<open>None\<close> is an error.
\<close>

record AcmeEnv =
  ae_mkdir :: bool
  ae_creds_ok :: "string \<Rightarrow> bool"
  ae_create :: "string list \<Rightarrow> LetsEncrypt \<Rightarrow> string option"
  ae_creds_write :: write_outcome
  ae_new_order :: "string list \<Rightarrow> bool"
  ae_authzs :: "Authz list option"
  ae_key_auth :: "string \<Rightarrow> string"
  ae_dns_value :: "string \<Rightarrow> string"
  ae_http :: cf_api
  ae_set_ready :: "string \<Rightarrow> bool"
  ae_refresh :: "nat \<Rightarrow> OrderStatus option"
  ae_csr :: "string list \<Rightarrow> bool"
  ae_finalize :: bool
  ae_certificate :: "nat \<Rightarrow> string option option"
  ae_key_pem :: string
  ae_cert_write :: write_outcome
  ae_key_write :: write_outcome
  ae_unix :: int

record AcmeState =
  challenge_tokens :: "(string, string) hashmap"
  acme_files :: files
  dns_live :: "(string \<times> string) list"
  acme_audit :: AuditLog

datatype acme_error = MkdirFailed | AccountError | OrderError | AuthzError | UnexpectedStatus | NoChallenge
  | CfError | ReadyError | RefreshError | OrderInvalidError nat | OrderTimeout | CsrError | FinalizeError
  | CertificateError | NoDomains | CertWriteError | KeyWriteError

definition fs_write :: "write_outcome \<Rightarrow> string \<Rightarrow> string \<Rightarrow> files \<Rightarrow> bool \<times> files" where
  "fs_write w p content fs =
     (case w of OpenFails \<Rightarrow> (False, fs) | FailsAfter n \<Rightarrow> (False, fs(p \<mapsto> take n content))
      | Written \<Rightarrow> (True, fs(p \<mapsto> content)))"

section \<open>Account\<close>

definition load_or_create_account :: "AcmeEnv \<Rightarrow> AcmeConfig \<Rightarrow> files \<Rightarrow> (acme_error + unit) \<times> files" where
  "load_or_create_account env cfg fs =
     (let creds_path = path_join (acme_dir cfg) ''account.json'';
          server = (if ac_production cfg then Production else Staging)
      in case fs creds_path of
           Some creds \<Rightarrow> (if ae_creds_ok env creds then Inr () else Inl AccountError, fs)
         | None \<Rightarrow>
             (case ae_create env [''mailto:'' @ ac_email cfg] server of
                None \<Rightarrow> (Inl AccountError, fs)
              | Some creds \<Rightarrow>
                  let (ok, fs') = fs_write (ae_creds_write env) creds_path creds fs
                  in (if ok then Inr () else Inl AccountError, fs')))"

section \<open>Cloudflare DNS-01\<close>

text \<open>Indexing a JSON value: what is missing is \<open>null\<close>.\<close>

definition json_key :: "string \<Rightarrow> json \<Rightarrow> json" where
  "json_key k j = (case json_get j k of Some v \<Rightarrow> v | None \<Rightarrow> JNull)"

fun json_nth :: "nat \<Rightarrow> json \<Rightarrow> json" where
  "json_nth n (JArr xs) = (if n < length xs then xs ! n else JNull)"
| "json_nth n _ = JNull"

definition zone_name :: "string \<Rightarrow> string" where
  "zone_name domain =
     (let parts = split_char CHR ''.'' domain; n = length parts
      in if n \<ge> 2 then parts ! (n - 2) @ ''.'' @ parts ! (n - 1) else domain)"

definition http_json_of :: "AcmeEnv \<Rightarrow> cf_request \<Rightarrow> json option" where
  "http_json_of env req = Option.bind (ae_http env req) rp_json"

definition cf_get_zone_id :: "AcmeEnv \<Rightarrow> string \<Rightarrow> string \<Rightarrow> string option" where
  "cf_get_zone_id env token domain =
     Option.bind (http_json_of env \<lparr>cr_verb = GET, cr_url = CF_API @ ''/zones?name='' @ zone_name domain,
         cr_bearer = token, cr_body = None\<rparr>)
       (\<lambda>resp. dec_str (json_key ''id'' (json_nth 0 (json_key ''result'' resp))))"

definition cf_create_txt_record :: "AcmeEnv \<Rightarrow> string \<Rightarrow> string \<Rightarrow> string \<Rightarrow> (string \<times> string) option" where
  "cf_create_txt_record env token domain value =
     do { zone_id \<leftarrow> cf_get_zone_id env token domain;
          resp \<leftarrow> http_json_of env \<lparr>cr_verb = POST, cr_url = CF_API @ ''/zones/'' @ zone_id @ ''/dns_records'',
            cr_bearer = token,
            cr_body = Some (JObj [(''type'', JStr ''TXT''), (''name'', JStr (''_acme-challenge.'' @ domain)),
              (''content'', JStr value), (''ttl'', JInt 60)])\<rparr>;
          if json_key ''success'' resp = JBool True
          then map_option (Pair zone_id) (dec_str (json_key ''id'' (json_key ''result'' resp)))
          else None }"

definition cf_delete_txt_record :: "AcmeEnv \<Rightarrow> string \<Rightarrow> string \<Rightarrow> string \<Rightarrow> bool" where
  "cf_delete_txt_record env token zone_id record_id =
     (case ae_http env \<lparr>cr_verb = DELETE, cr_url = CF_API @ ''/zones/'' @ zone_id @ ''/dns_records/'' @ record_id,
          cr_bearer = token, cr_body = None\<rparr> of
        None \<Rightarrow> False
      | Some resp \<Rightarrow> 200 \<le> rp_status resp \<and> rp_status resp < 300)"

section \<open>Challenges\<close>

text \<open>The preparation of one challenge, up to the notification of the authority.\<close>

definition prepare_challenge ::
  "AcmeEnv \<Rightarrow> AcmeConfig \<Rightarrow> string \<Rightarrow> Challenge \<Rightarrow> AcmeState \<Rightarrow> acme_error + AcmeState" where
  "prepare_challenge env cfg domain ch st =
     (case cloudflare_api_token cfg of
        Some cf_token \<Rightarrow>
          (case cf_create_txt_record env cf_token domain (ae_dns_value env (ch_token ch)) of
             None \<Rightarrow> Inl CfError
           | Some rec \<Rightarrow> Inr (st\<lparr>dns_live := dns_live st @ [rec]\<rparr>))
      | None \<Rightarrow>
          Inr (st\<lparr>challenge_tokens := AList.update (ch_token ch) (ae_key_auth env (ch_token ch)) (challenge_tokens st)\<rparr>))"

fun process_authzs :: "AcmeEnv \<Rightarrow> AcmeConfig \<Rightarrow> Authz list \<Rightarrow> AcmeState \<Rightarrow> (acme_error + unit) \<times> AcmeState" where
  "process_authzs env cfg [] st = (Inr (), st)"
| "process_authzs env cfg (authz # rest) st =
     (case az_status authz of
        AuthValid \<Rightarrow> process_authzs env cfg rest st
      | AuthOther \<Rightarrow> (Inl UnexpectedStatus, st)
      | AuthPending \<Rightarrow>
          (case find (\<lambda>c. ch_type c = (if cloudflare_api_token cfg \<noteq> None then Dns01 else Http01)) (az_challenges authz) of
             None \<Rightarrow> (Inl NoChallenge, st)
           | Some ch \<Rightarrow>
               (case prepare_challenge env cfg (az_domain authz) ch st of
                  Inl e \<Rightarrow> (Inl e, st)
                | Inr st1 \<Rightarrow>
                    if \<not> ae_set_ready env (ch_url ch) then (Inl ReadyError, st1)
                    else process_authzs env cfg rest st1)))"

section \<open>Polling\<close>

text \<open>The 24 polls of the order, with \<open>left\<close> to go.\<close>

fun poll_order :: "(nat \<Rightarrow> OrderStatus option) \<Rightarrow> nat \<Rightarrow> nat \<Rightarrow> acme_error + unit" where
  "poll_order refresh attempt 0 = Inr ()"
| "poll_order refresh attempt (Suc left) =
     (case refresh attempt of
        None \<Rightarrow> Inl RefreshError
      | Some OrderReady \<Rightarrow> Inr ()
      | Some OrderValid \<Rightarrow> Inr ()
      | Some OrderInvalid \<Rightarrow> Inl (OrderInvalidError (attempt + 1))
      | Some _ \<Rightarrow> if left = 0 then Inl OrderTimeout else poll_order refresh (attempt + 1) left)"

partial_function (option) fetch_certificate :: "(nat \<Rightarrow> string option option) \<Rightarrow> nat \<Rightarrow> (acme_error + string) option" where
  "fetch_certificate certificate n =
     (case certificate n of
        None \<Rightarrow> Some (Inl CertificateError)
      | Some (Some pem) \<Rightarrow> Some (Inr pem)
      | Some None \<Rightarrow> fetch_certificate certificate (n + 1))"

section \<open>obtain\_certificate\<close>

text \<open>The clean-up of the DNS records; one that cannot be deleted is logged and stays.\<close>

definition clean_dns :: "AcmeEnv \<Rightarrow> AcmeConfig \<Rightarrow> (string \<times> string) list \<Rightarrow> AcmeState \<Rightarrow> AcmeState" where
  "clean_dns env cfg to_clean st =
     (case cloudflare_api_token cfg of
        None \<Rightarrow> st
      | Some cf_token \<Rightarrow>
          fold (\<lambda>(zone_id, record_id) st.
             if cf_delete_txt_record env cf_token zone_id record_id
             then st\<lparr>dns_live := removeAll (zone_id, record_id) (dns_live st)\<rparr> else st) to_clean st)"

text \<open>The end: the two files and the audit entry.\<close>

definition store_certificate ::
  "AcmeEnv \<Rightarrow> AcmeConfig \<Rightarrow> string \<Rightarrow> AcmeState \<Rightarrow> (acme_error + string \<times> string) \<times> AcmeState" where
  "store_certificate env cfg pem st =
     (case cert_paths cfg of
        None \<Rightarrow> (Inl NoDomains, st)
      | Some (cert_path, key_path) \<Rightarrow>
          let (ok1, fs1) = fs_write (ae_cert_write env) cert_path pem (acme_files st);
              st1 = st\<lparr>acme_files := fs1\<rparr>
          in if \<not> ok1 then (Inl CertWriteError, st1)
             else let (ok2, fs2) = fs_write (ae_key_write env) key_path (ae_key_pem env) fs1;
                      st2 = st1\<lparr>acme_files := fs2\<rparr>
                  in if \<not> ok2 then (Inl KeyWriteError, st2)
                     else (Inr (pem, ae_key_pem env),
                           st2\<lparr>acme_audit := audit_event True (ae_unix env) ''acme.cert_obtained''
                             [(''domain'', JStr (hd (ac_domains cfg))), (''cert_path'', JStr cert_path)] (acme_audit st2)\<rparr>))"

definition obtain_certificate ::
  "AcmeEnv \<Rightarrow> AcmeConfig \<Rightarrow> AcmeState \<Rightarrow> ((acme_error + string \<times> string) \<times> AcmeState) option" where
  "obtain_certificate env cfg st =
     (if \<not> ae_mkdir env then Some (Inl MkdirFailed, st)
      else let (acct, fs1) = load_or_create_account env cfg (acme_files st); st1 = st\<lparr>acme_files := fs1\<rparr>
      in case acct of
        Inl e \<Rightarrow> Some (Inl e, st1)
      | Inr _ \<Rightarrow>
          if \<not> ae_new_order env (ac_domains cfg) then Some (Inl OrderError, st1)
          else (case ae_authzs env of
            None \<Rightarrow> Some (Inl AuthzError, st1)
          | Some authzs \<Rightarrow>
              (case process_authzs env cfg authzs st1 of
                 (Inl e, st2) \<Rightarrow> Some (Inl e, st2)
               | (Inr _, st2) \<Rightarrow>
                   (case poll_order (ae_refresh env) 0 24 of
                      Inl e \<Rightarrow> Some (Inl e, st2)
                    | Inr _ \<Rightarrow>
                        if \<not> ae_csr env (ac_domains cfg) then Some (Inl CsrError, st2)
                        else if \<not> ae_finalize env then Some (Inl FinalizeError, st2)
                        else (case fetch_certificate (ae_certificate env) 0 of
                          None \<Rightarrow> None
                        | Some (Inl e) \<Rightarrow> Some (Inl e, st2)
                        | Some (Inr pem) \<Rightarrow>
                            let st3 = clean_dns env cfg (drop (length (dns_live st)) (dns_live st2)) st2;
                                st4 = st3\<lparr>challenge_tokens := []\<rparr>
                            in Some (store_certificate env cfg pem st4))))))"

section \<open>The renewal task\<close>

text \<open>
  One turn of the loop of \<open>spawn_renewal_task\<close>: the outcome is a fault when the expiry check panics
  (the task ends), else whether a certificate was sent on the channel.
\<close>

definition renewal_tick ::
  "(string \<Rightarrow> u8 list option) \<Rightarrow> nat option \<Rightarrow> (string \<Rightarrow> bool) \<Rightarrow> AcmeEnv \<Rightarrow> AcmeConfig \<Rightarrow> AcmeState
     \<Rightarrow> ((fault + (string \<times> string) option) \<times> AcmeState) option" where
  "renewal_tick base64_decode now readable env cfg st =
     (case needs_renewal base64_decode now cfg readable (acme_files st) of
        Inl e \<Rightarrow> Some (Inl e, st)
      | Inr False \<Rightarrow> Some (Inr None, st)
      | Inr True \<Rightarrow>
          (case obtain_certificate env cfg st of
             None \<Rightarrow> None
           | Some (Inl _, st') \<Rightarrow> Some (Inr None, st')
           | Some (Inr pair, st') \<Rightarrow>
               Some (Inr (Some pair),
                 st'\<lparr>acme_audit := audit_event True (ae_unix env) ''acme.cert_renewed'' [(''domain'', JStr [])] (acme_audit st')\<rparr>)))"

section \<open>Waiting for the certificate\<close>

lemma fetch_skips:
  assumes "n \<le> m" and "\<forall>k. n \<le> k \<and> k < m \<longrightarrow> certificate k = Some None"
  shows "fetch_certificate certificate n = fetch_certificate certificate m"
  using assms
proof (induction rule: inc_induct)
  case base
  then show ?case by simp
next
  case (step i)
  then show ?case by (subst fetch_certificate.simps) simp
qed

lemma fetch_forever:
  assumes "fetch_certificate certificate n = Some r"
  shows "\<exists>m\<ge>n. certificate m \<noteq> Some None"
proof (rule fetch_certificate.raw_induct [OF _ assms, of "\<lambda>certificate n r. \<exists>m\<ge>n. certificate m \<noteq> Some None"])
  fix fetch :: "(nat \<Rightarrow> string option option) \<Rightarrow> nat \<Rightarrow> (acme_error + string) option" and c n and y :: "acme_error + string"
  assume ih: "\<And>c n y. fetch c n = Some y \<Longrightarrow> \<exists>m\<ge>n. c m \<noteq> Some None"
    and b: "(case c n of None \<Rightarrow> Some (Inl CertificateError) | Some None \<Rightarrow> fetch c (n + 1) | Some (Some pem) \<Rightarrow> Some (Inr pem)) = Some y"
  show "\<exists>m\<ge>n. c m \<noteq> Some None"
  proof (cases "c n = Some None")
    case True
    then obtain m where "n + 1 \<le> m" "c m \<noteq> Some None" using b ih [of c "n + 1" y] by auto
    then show ?thesis by (intro exI [of _ m]) simp
  qed auto
qed

lemma fetch_first:
  assumes "certificate m \<noteq> Some None" and "n \<le> m" and "\<forall>k. n \<le> k \<and> k < m \<longrightarrow> certificate k = Some None"
  shows "fetch_certificate certificate n = Some (case certificate m of None \<Rightarrow> Inl CertificateError | Some p \<Rightarrow> Inr (the p))"
  using assms(1) by (subst fetch_skips [OF assms(2,3)], subst fetch_certificate.simps) (auto split: option.splits)

lemma fetch_returns: "(\<exists>r. fetch_certificate certificate 0 = Some r) \<longleftrightarrow> (\<exists>m. certificate m \<noteq> Some None)"
proof
  assume "\<exists>m. certificate m \<noteq> Some None"
  then obtain m where "certificate m \<noteq> Some None" "\<forall>k<m. certificate k = Some None"
    using exists_least_iff [of "\<lambda>m. certificate m \<noteq> Some None"] by blast
  then show "\<exists>r. fetch_certificate certificate 0 = Some r" using fetch_first [of certificate m 0] by simp
qed (use fetch_forever in blast)

lemma fetch_ok_polled:
  assumes "fetch_certificate certificate 0 = Some (Inr pem)"
  shows "\<exists>m. certificate m = Some (Some pem) \<and> (\<forall>k<m. certificate k = Some None)"
proof -
  obtain m where m: "certificate m \<noteq> Some None" "\<forall>k<m. certificate k = Some None"
    using fetch_forever [OF assms] exists_least_iff [of "\<lambda>m. certificate m \<noteq> Some None"] by blast
  then show ?thesis using fetch_first [of certificate m 0] assms by (auto split: option.splits)
qed

section \<open>The order, phase by phase\<close>

text \<open>What precedes the wait: account, order, challenges, polling, signing request.\<close>

definition order_placed :: "AcmeEnv \<Rightarrow> AcmeConfig \<Rightarrow> AcmeState \<Rightarrow> AcmeState \<Rightarrow> bool" where
  "order_placed env cfg st st2 \<longleftrightarrow>
     ae_mkdir env \<and> fst (load_or_create_account env cfg (acme_files st)) = Inr () \<and> ae_new_order env (ac_domains cfg)
     \<and> (\<exists>authzs. ae_authzs env = Some authzs
          \<and> process_authzs env cfg authzs (st\<lparr>acme_files := snd (load_or_create_account env cfg (acme_files st))\<rparr>) = (Inr (), st2))
     \<and> poll_order (ae_refresh env) 0 24 = Inr () \<and> ae_csr env (ac_domains cfg) \<and> ae_finalize env"

lemma obtain_placed:
  assumes "order_placed env cfg st st2"
  shows "obtain_certificate env cfg st =
    (case fetch_certificate (ae_certificate env) 0 of
       None \<Rightarrow> None
     | Some (Inl e) \<Rightarrow> Some (Inl e, st2)
     | Some (Inr pem) \<Rightarrow> Some (store_certificate env cfg pem
         ((clean_dns env cfg (drop (length (dns_live st)) (dns_live st2)) st2)\<lparr>challenge_tokens := []\<rparr>)))"
  using assms unfolding order_placed_def obtain_certificate_def
  by (auto simp: Let_def split: prod.splits option.splits sum.splits)

lemma obtain_unplaced:
  assumes "\<forall>st2. \<not> order_placed env cfg st st2"
  shows "\<exists>e st'. obtain_certificate env cfg st = Some (Inl e, st')"
proof -
  obtain acct fs1 where a: "load_or_create_account env cfg (acme_files st) = (acct, fs1)" by fastforce
  show ?thesis
  proof (cases "ae_mkdir env \<and> acct = Inr () \<and> ae_new_order env (ac_domains cfg) \<and> ae_authzs env \<noteq> None")
    case True
    then obtain authzs where z: "ae_authzs env = Some authzs" by blast
    obtain r st2 where p: "process_authzs env cfg authzs (st\<lparr>acme_files := fs1\<rparr>) = (r, st2)" by fastforce
    show ?thesis using True z p a assms
      by (cases r; cases "poll_order (ae_refresh env) 0 24") (auto simp: obtain_certificate_def order_placed_def)
  qed (cases acct; cases "ae_authzs env"; auto simp: obtain_certificate_def a Let_def)
qed

text \<open>
  Claim C26. Termination of the certificate order: everything before the last wait is bounded (at most 24
  polls of the order), and the call never returns exactly when the order went through and the
  authority answers "not yet" to every request for the certificate, since that loop has no limit.
\<close>

theorem obtain_certificate_hangs_iff:
  "obtain_certificate env cfg st = None \<longleftrightarrow>
     (\<exists>st2. order_placed env cfg st st2) \<and> (\<forall>n. ae_certificate env n = Some None)"
proof (cases "\<exists>st2. order_placed env cfg st st2")
  case True
  then obtain st2 where p: "order_placed env cfg st st2" ..
  then have "obtain_certificate env cfg st = None \<longleftrightarrow> fetch_certificate (ae_certificate env) 0 = None"
    by (auto simp: obtain_placed split: option.splits sum.splits)
  then show ?thesis using p fetch_returns [of "ae_certificate env"] by (metis not_None_eq)
next
  case False
  then show ?thesis using obtain_unplaced [of env cfg st] by fastforce
qed

section \<open>What a successful order leaves\<close>

lemma path_join_inj: "path_join d a = path_join d b \<Longrightarrow> \<not> starts_with a ''/'' \<Longrightarrow> \<not> starts_with b ''/'' \<Longrightarrow> a = b"
  by (auto simp: path_join_def split: if_splits)

lemma cert_key_differ:
  assumes "cert_paths cfg = Some (cert_path, key_path)"
  shows "cert_path \<noteq> key_path"
proof -
  have l: "last (path_join d (p @ ''.crt'')) = CHR ''t''" "last (path_join d (p @ ''.key'')) = CHR ''y''" for d p
    by (simp_all add: path_join_def)
  obtain d p where "cert_path = path_join d (p @ ''.crt'')" "key_path = path_join d (p @ ''.key'')"
    using assms by (auto simp: cert_paths_def split: list.splits)
  then have "last cert_path = CHR ''t''" "last key_path = CHR ''y''" by (simp_all only: l)
  then show ?thesis by auto
qed

lemma clean_dns_fields:
  "challenge_tokens (clean_dns env cfg rs st) = challenge_tokens st" "acme_files (clean_dns env cfg rs st) = acme_files st"
  "acme_audit (clean_dns env cfg rs st) = acme_audit st"
proof -
  have "challenge_tokens (fold f rs st) = challenge_tokens st \<and> acme_files (fold f rs st) = acme_files st
      \<and> acme_audit (fold f rs st) = acme_audit st"
    if "f = (\<lambda>(z, r) st. if cf_delete_txt_record env t z r
             then st\<lparr>dns_live := removeAll (z, r) (dns_live st)\<rparr> else st)" for f t
    using that by (induction rs arbitrary: st) (auto split: prod.splits)
  then show "challenge_tokens (clean_dns env cfg rs st) = challenge_tokens st" "acme_files (clean_dns env cfg rs st) = acme_files st"
    "acme_audit (clean_dns env cfg rs st) = acme_audit st"
    by (auto simp: clean_dns_def split: option.splits)
qed

lemma clean_dns_live:
  assumes "cloudflare_api_token cfg = Some t"
  shows "dns_live (clean_dns env cfg rs st) =
    filter (\<lambda>(z, r). \<not> ((z, r) \<in> set rs \<and> cf_delete_txt_record env t z r)) (dns_live st)"
proof -
  have "dns_live (fold (\<lambda>(z, r) st. if cf_delete_txt_record env t z r
             then st\<lparr>dns_live := removeAll (z, r) (dns_live st)\<rparr> else st) rs st) =
    filter (\<lambda>(z, r). \<not> ((z, r) \<in> set rs \<and> cf_delete_txt_record env t z r)) (dns_live st)"
  proof (induction rs arbitrary: st)
    case (Cons p rs)
    show ?case
      by (cases p) (auto simp: Cons.IH removeAll_filter_not_eq intro!: filter_cong)
  qed simp
  then show ?thesis using assms by (simp add: clean_dns_def)
qed

lemma store_ok:
  assumes "store_certificate env cfg pem st = (Inr pair, st')"
  shows "\<exists>cp kp. cert_paths cfg = Some (cp, kp) \<and> pair = (pem, ae_key_pem env)
    \<and> acme_files st' = (acme_files st)(cp \<mapsto> pem, kp \<mapsto> ae_key_pem env)
    \<and> challenge_tokens st' = challenge_tokens st \<and> dns_live st' = dns_live st
    \<and> acme_audit st' = audit_event True (ae_unix env) ''acme.cert_obtained''
         [(''domain'', JStr (hd (ac_domains cfg))), (''cert_path'', JStr cp)] (acme_audit st)"
  using assms
  by (auto simp: store_certificate_def fs_write_def Let_def split: option.splits write_outcome.splits prod.splits if_splits)

lemma obtain_ok:
  assumes "obtain_certificate env cfg st = Some (Inr pair, st')"
  obtains st2 pem where "order_placed env cfg st st2" "fetch_certificate (ae_certificate env) 0 = Some (Inr pem)"
    "store_certificate env cfg pem
       ((clean_dns env cfg (drop (length (dns_live st)) (dns_live st2)) st2)\<lparr>challenge_tokens := []\<rparr>) = (Inr pair, st')"
proof -
  obtain st2 where p: "order_placed env cfg st st2" using obtain_unplaced [of env cfg st] assms by fastforce
  show thesis
    using assms that [OF p] by (auto simp: obtain_placed [OF p] split: option.splits sum.splits)
qed

text \<open>The token of every pending authorization is served before the authority is told.\<close>

lemma prepare_fields:
  assumes "prepare_challenge env cfg dm ch st = Inr st1"
  shows "acme_files st1 = acme_files st \<and> acme_audit st1 = acme_audit st \<and> (\<exists>rs. dns_live st1 = dns_live st @ rs)
    \<and> (cloudflare_api_token cfg = None \<longrightarrow> map_of (challenge_tokens st1) =
         (map_of (challenge_tokens st))(ch_token ch \<mapsto> ae_key_auth env (ch_token ch)))"
  using assms by (auto simp: prepare_challenge_def update_conv' split: option.splits)

lemma process_fields:
  assumes "process_authzs env cfg authzs st = (r, st2)"
  shows "acme_files st2 = acme_files st \<and> acme_audit st2 = acme_audit st \<and> (\<exists>rs. dns_live st2 = dns_live st @ rs)"
  using assms
proof (induction authzs arbitrary: st)
  case (Cons a authzs)
  show ?case
    using Cons.prems
    by (auto split: AuthorizationStatus.splits option.splits sum.splits if_splits
        dest!: Cons.IH dest: prepare_fields)
qed simp

text \<open>
  A certificate that is reported as obtained is the one the authority gave, at the first poll that
  had it; certificate and key are both on disk under the primary domain, no challenge token is left
  to be served, and of the TXT records made for the order exactly those the API refused to delete
  remain.
\<close>

theorem obtained_certificate_stored:
  assumes "obtain_certificate env cfg st = Some (Inr (pem, key), st')"
  shows "(\<exists>m. ae_certificate env m = Some (Some pem) \<and> (\<forall>k<m. ae_certificate env k = Some None))
    \<and> (\<exists>cp kp. cert_paths cfg = Some (cp, kp) \<and> acme_files st' cp = Some pem \<and> acme_files st' kp = Some key)
    \<and> challenge_tokens st' = []
    \<and> (\<forall>t. cloudflare_api_token cfg = Some t \<longrightarrow>
         (\<exists>rs. dns_live st' = filter (\<lambda>(z, r). \<not> ((z, r) \<in> set rs \<and> cf_delete_txt_record env t z r)) (dns_live st @ rs)))"
proof -
  obtain st2 pem' where p: "order_placed env cfg st st2" and f: "fetch_certificate (ae_certificate env) 0 = Some (Inr pem')"
    and s: "store_certificate env cfg pem'
       ((clean_dns env cfg (drop (length (dns_live st)) (dns_live st2)) st2)\<lparr>challenge_tokens := []\<rparr>) = (Inr (pem, key), st')"
    using obtain_ok [OF assms] .
  obtain cp kp where o: "cert_paths cfg = Some (cp, kp)" "pem = pem'" "key = ae_key_pem env"
      "acme_files st' = (acme_files st2)(cp \<mapsto> pem, kp \<mapsto> key)" "challenge_tokens st' = []"
      "dns_live st' = dns_live (clean_dns env cfg (drop (length (dns_live st)) (dns_live st2)) st2)"
    using store_ok [OF s] by (auto simp: clean_dns_fields)
  obtain rs where rs: "dns_live st2 = dns_live st @ rs"
    using p process_fields unfolding order_placed_def by fastforce
  have "dns_live st' = filter (\<lambda>(z, r). \<not> ((z, r) \<in> set rs \<and> cf_delete_txt_record env t z r)) (dns_live st @ rs)"
    if "cloudflare_api_token cfg = Some t" for t
    using o(6) rs clean_dns_live [OF that] by simp
  then show ?thesis using o fetch_ok_polled [OF f] cert_key_differ [OF o(1)] by auto
qed

section \<open>The challenges are served\<close>

lemma process_keeps_token:
  assumes "process_authzs env cfg authzs st = (r, st2)" and "map_of (challenge_tokens st) k = Some (ae_key_auth env k)"
  shows "map_of (challenge_tokens st2) k = Some (ae_key_auth env k)"
  using assms
proof (induction authzs arbitrary: st)
  case (Cons a authzs)
  have "map_of (challenge_tokens st1) k = Some (ae_key_auth env k)" if "prepare_challenge env cfg d ch st = Inr st1" for d ch st1
    using that Cons.prems(2) by (auto simp: prepare_challenge_def update_conv' split: option.splits)
  then show ?case
    using Cons.prems
    by (auto split: AuthorizationStatus.splits option.splits sum.splits if_splits dest: Cons.IH)
qed simp

lemma process_tokens:
  assumes "process_authzs env cfg authzs st = (Inr (), st2)" and "cloudflare_api_token cfg = None"
    and "a \<in> set authzs" and "az_status a = AuthPending"
  shows "\<exists>ch. find (\<lambda>c. ch_type c = Http01) (az_challenges a) = Some ch
    \<and> map_of (challenge_tokens st2) (ch_token ch) = Some (ae_key_auth env (ch_token ch))"
  using assms
proof (induction authzs arbitrary: st)
  case (Cons b authzs)
  show ?case
  proof (cases "az_status b")
    case AuthPending
    obtain ch st1 where ch: "find (\<lambda>c. ch_type c = Http01) (az_challenges b) = Some ch"
      and p: "prepare_challenge env cfg (az_domain b) ch st = Inr st1"
      and r: "process_authzs env cfg authzs st1 = (Inr (), st2)"
      using Cons.prems(1,2) AuthPending by (auto split: option.splits sum.splits if_splits)
    have "map_of (challenge_tokens st1) (ch_token ch) = Some (ae_key_auth env (ch_token ch))"
      using p Cons.prems(2) by (auto simp: prepare_challenge_def update_conv')
    then show ?thesis using Cons.IH [OF r] Cons.prems ch process_keeps_token [OF r] by auto
  qed (use Cons in auto)
qed simp

text \<open>The authority's request for a token, and the characters of a token.\<close>

definition challenge_request :: "string \<Rightarrow> string \<Rightarrow> string" where
  "challenge_request tok rest = ''GET '' @ ACME_PREFIX @ tok @ '' HTTP/1.1'' @ CRLF @ rest"

definition token_chars :: "string \<Rightarrow> bool" where
  "token_chars tok \<longleftrightarrow> ascii tok \<and> (\<forall>c \<in> set tok. \<not> is_whitespace c \<and> c \<noteq> CHR ''/'')"

lemma split_ws_word: "\<forall>c \<in> set w. \<not> is_whitespace c \<Longrightarrow> is_whitespace d \<Longrightarrow> w \<noteq> [] \<or> acc \<noteq> [] \<Longrightarrow>
    split_ws_aux acc (w @ d # s) = (rev acc @ w) # split_ws_aux [] s"
  by (induction w arbitrary: acc) auto

lemma str_lines_first:
  assumes "LF \<notin> set l"
  shows "\<exists>ls. str_lines (l @ LF # rest) = strip_cr l # ls"
  using assms by (simp add: str_lines_def split_char_append Let_def)

lemma strip_cr_snoc: "strip_cr (l @ [CR]) = l"
  by (simp add: strip_cr_def)

lemma challenge_request_path:
  assumes "token_chars tok"
  shows "request_path (challenge_request tok rest) = ACME_PREFIX @ tok"
proof -
  let ?l = "''GET '' @ ACME_PREFIX @ tok @ '' HTTP/1.1''"
  have "is_whitespace LF" by code_simp
  then have lf: "LF \<notin> set tok" using assms unfolding token_chars_def by blast
  then have "LF \<notin> set (?l @ [CR])" by simp
  then obtain ls where "str_lines ((?l @ [CR]) @ LF # rest) = strip_cr (?l @ [CR]) # ls" using str_lines_first by blast
  then have lines: "str_lines (challenge_request tok rest) = ?l # ls"
    unfolding strip_cr_snoc by (simp add: challenge_request_def)
  have sp: "is_whitespace (CHR '' '')" by (simp add: is_whitespace_def chr_code_def)
  have w1: "\<forall>c \<in> set ''GET''. \<not> is_whitespace c" by code_simp
  have "\<forall>c \<in> set ACME_PREFIX. \<not> is_whitespace c" by code_simp
  then have w2: "\<forall>c \<in> set (ACME_PREFIX @ tok). \<not> is_whitespace c"
    using assms unfolding token_chars_def set_append by blast
  have "split_whitespace ?l = ''GET'' # (ACME_PREFIX @ tok) # split_ws_aux [] ''HTTP/1.1''"
    using split_ws_word [OF w1 sp, of "[]" "(ACME_PREFIX @ tok) @ '' HTTP/1.1''"]
      split_ws_word [OF w2 sp, of "[]" "''HTTP/1.1''"] by (simp add: split_whitespace_def)
  then show ?thesis by (simp add: request_path_def lines)
qed

lemma acme_http_answer:
  assumes "token_chars tok" and "utf8_valid rest"
  shows "acme_http_response tokens (Some (challenge_request tok rest)) =
    Some (case map_of tokens tok of Some key_auth \<Rightarrow> acme_200 key_auth | None \<Rightarrow> ACME_404)"
proof -
  have "ascii (''GET '' @ ACME_PREFIX)" "ascii ('' HTTP/1.1'' @ CRLF)" by code_simp+
  then have "ascii (''GET '' @ ACME_PREFIX @ tok @ '' HTTP/1.1'' @ CRLF)"
    using assms(1) by (simp only: ascii_append token_chars_def)
  then have u: "utf8_valid (challenge_request tok rest)"
    using utf8_ascii_append [of "''GET '' @ ACME_PREFIX @ tok @ '' HTTP/1.1'' @ CRLF" rest] assms(2)
    by (simp add: challenge_request_def)
  have "dropWhile (\<lambda>c. c = CHR ''/'') (rev tok) = rev tok"
    using assms(1) by (cases tok rule: rev_cases) (simp_all add: token_chars_def)
  then show ?thesis
    by (simp add: acme_http_response_def u challenge_request_path [OF assms(1)] strip_prefix_def starts_with_iff Let_def split: option.split)
qed

text \<open>
  Claim C28. HTTP-01: once the challenges of an order are announced, the responder answers the authority's
  request for the token of every authorization that was pending with its key authorization.
\<close>

theorem http01_challenge_served:
  assumes "process_authzs env cfg authzs st = (Inr (), st2)" and "cloudflare_api_token cfg = None"
    and "a \<in> set authzs" and "az_status a = AuthPending"
    and "\<forall>ch \<in> set (az_challenges a). token_chars (ch_token ch)" and "utf8_valid rest"
  shows "\<exists>ch \<in> set (az_challenges a). ch_type ch = Http01 \<and>
    acme_http_response (challenge_tokens st2) (Some (challenge_request (ch_token ch) rest)) =
      Some (acme_200 (ae_key_auth env (ch_token ch)))"
proof -
  obtain ch where ch: "find (\<lambda>c. ch_type c = Http01) (az_challenges a) = Some ch"
    and m: "map_of (challenge_tokens st2) (ch_token ch) = Some (ae_key_auth env (ch_token ch))"
    using process_tokens [OF assms(1-4)] by blast
  then have "ch \<in> set (az_challenges a)" "ch_type ch = Http01" by (auto simp: find_Some_iff)
  then show ?thesis using acme_http_answer [of "ch_token ch" rest] assms(5,6) m by (intro bexI [of _ ch]) auto
qed

text \<open>An order for one domain that goes through.\<close>

definition demo_challenge :: Challenge where
  "demo_challenge = \<lparr>ch_type = Http01, ch_token = ''tok-1'', ch_url = ''u''\<rparr>"

definition demo_authz :: Authz where
  "demo_authz = \<lparr>az_status = AuthPending, az_domain = ''a.test'', az_challenges = [demo_challenge]\<rparr>"

definition demo_ca :: AcmeEnv where
  "demo_ca = \<lparr>ae_mkdir = True, ae_creds_ok = (\<lambda>_. True), ae_create = (\<lambda>_ _. Some ''{}''), ae_creds_write = Written,
     ae_new_order = (\<lambda>_. True), ae_authzs = Some [demo_authz], ae_key_auth = (\<lambda>t. t @ ''.k''), ae_dns_value = (\<lambda>t. t),
     ae_http = (\<lambda>_. None), ae_set_ready = (\<lambda>_. True), ae_refresh = (\<lambda>_. Some OrderReady), ae_csr = (\<lambda>_. True),
     ae_finalize = True, ae_certificate = (\<lambda>n. if n < 2 then Some None else Some (Some ''PEM'')), ae_key_pem = ''KEY'',
     ae_cert_write = Written, ae_key_write = Written, ae_unix = 0\<rparr>"

definition demo_acme_state :: AcmeState where
  "demo_acme_state = \<lparr>challenge_tokens = [], acme_files = (\<lambda>_. None), dns_live = [], acme_audit = AuditLog_disabled\<rparr>"

theorem http01_challenge_served_witness:
  "acme_http_response (challenge_tokens (snd (process_authzs demo_ca demo_acme [demo_authz] demo_acme_state)))
     (Some (challenge_request ''tok-1'' CRLF)) = Some (acme_200 ''tok-1.k'')"
proof -
  let ?st = "snd (process_authzs demo_ca demo_acme [demo_authz] demo_acme_state)"
  have n: "cloudflare_api_token demo_acme = None" by (simp add: demo_acme_def)
  have p: "process_authzs demo_ca demo_acme [demo_authz] demo_acme_state = (Inr (), ?st)"
    by (simp add: demo_authz_def demo_challenge_def prepare_challenge_def n demo_ca_def)
  have a: "demo_authz \<in> set [demo_authz]" "az_status demo_authz = AuthPending" by (simp_all add: demo_authz_def)
  have t: "\<forall>ch \<in> set (az_challenges demo_authz). token_chars (ch_token ch)"
    unfolding demo_authz_def demo_challenge_def by (simp add: token_chars_def ascii_def is_whitespace_def chr_code_def)
  have u: "utf8_valid CRLF" by code_simp
  show ?thesis using http01_challenge_served [OF p n a t u] by (simp add: demo_authz_def demo_challenge_def demo_ca_def)
qed

section \<open>What a failed order leaves\<close>

text \<open>
  When the order fails after the challenges, nothing is taken back: the tokens stay in the store of
  the responder and the TXT records stay in the zone.
\<close>

theorem failed_order_leaves_challenges:
  assumes "ae_mkdir env" and "load_or_create_account env cfg (acme_files st) = (Inr (), fs1)"
    and "ae_new_order env (ac_domains cfg)" and "ae_authzs env = Some authzs"
    and "process_authzs env cfg authzs (st\<lparr>acme_files := fs1\<rparr>) = (Inr (), st2)"
    and "poll_order (ae_refresh env) 0 24 = Inl e"
  shows "obtain_certificate env cfg st = Some (Inl e, st2)"
  using assms by (simp add: obtain_certificate_def)

text \<open>
  Certificate and key are two writes. If the second fails, the new certificate is on disk beside
  the old key; and since the renewal check reads the certificate only, a later check that finds
  the new certificate good for 30 days leaves the pair as it is.
\<close>

theorem torn_pair_persists:
  assumes "store_certificate env cfg pem st = (Inl KeyWriteError, st')" and "ae_key_write env = OpenFails"
    and "cert_paths cfg = Some (cp, kp)" and "readable cp"
    and "days_until_expiry base64_decode now pem = Inr (Some d)" and "30 \<le> d"
  shows "acme_files st' cp = Some pem \<and> acme_files st' kp = acme_files st kp
    \<and> renewal_tick base64_decode now readable env' cfg st' = Some (Inr None, st')"
proof -
  have f: "acme_files st' = (acme_files st)(cp \<mapsto> pem)"
    using assms(1-3) by (auto simp: store_certificate_def fs_write_def Let_def split: write_outcome.splits if_splits)
  obtain dm dms where d: "ac_domains cfg = dm # dms" "cp = path_join (acme_dir cfg) (dm @ ''.crt'')"
    using assms(3) by (auto simp: cert_paths_def split: list.splits)
  have "needs_renewal base64_decode now cfg readable (acme_files st') = Inr False"
    using assms(4-6) f d by (simp add: needs_renewal_def Let_def)
  then show ?thesis using f cert_key_differ [OF assms(3)] by (simp add: renewal_tick_def)
qed

end
