(* ===== verification/Tls.thy ===== *)
theory Tls
  imports Store
begin

text \<open>
  TLS configuration, \<open>tls.rs\<close>, and the hot-swappable acceptor of \<open>main.rs\<close>. The PEM reader, the
  checks of \<open>rustls\<close> on keys and roots and the generator of self-signed certificates are the record
  \<open>TlsLib\<close>; an acceptor is the server configuration it is built from. An error is its outermost
  context.
\<close>

type_synonym cert = "u8 list"
type_synonym priv_key = "u8 list"

text \<open>
  \<open>tl_certs\<close>: the certificates of a PEM text (\<open>None\<close>: malformed). \<open>tl_key\<close>: its private key
  (\<open>None\<close>: malformed, \<open>Some None\<close>: there is none). \<open>tl_pair_ok\<close>: \<open>with_single_cert\<close> accepts the pair.
  \<open>tl_root_ok\<close>, \<open>tl_verifier_ok\<close>: a root is accepted, and the verifier can be built. \<open>tl_params_ok\<close>, \<open>tl_generate_key\<close>, \<open>tl_sign\<close>: parameters for
  the domains are accepted; the PEM text of a new key pair; the PEM text of the certificate for the
  domains with that organization, signed by that key.
\<close>

record TlsLib =
  tl_certs :: "string \<Rightarrow> cert list option"
  tl_key :: "string \<Rightarrow> priv_key option option"
  tl_pair_ok :: "cert list \<Rightarrow> priv_key \<Rightarrow> bool"
  tl_root_ok :: "cert \<Rightarrow> bool"
  tl_verifier_ok :: "cert list \<Rightarrow> bool"
  tl_params_ok :: "string list \<Rightarrow> bool"
  tl_generate_key :: "string option"
  tl_sign :: "string list \<Rightarrow> string \<Rightarrow> string \<Rightarrow> string option"

datatype tls_version = TLS12 | TLS13

record ServerConfig =
  sc_versions :: "tls_version list"
  sc_client_roots :: "cert list option"
  sc_certs :: "cert list"
  sc_key :: priv_key

section \<open>Building acceptors\<close>

definition acceptor_from_pem :: "TlsLib \<Rightarrow> string \<Rightarrow> string \<Rightarrow> string + ServerConfig" where
  "acceptor_from_pem lib cert_pem key_pem =
     (case tl_certs lib cert_pem of
        None \<Rightarrow> Inl ''parsing TLS certificate PEM''
      | Some certs \<Rightarrow>
          if certs = [] then Inl ''no certificates found in cert PEM''
          else (case tl_key lib key_pem of
            None \<Rightarrow> Inl ''parsing TLS private key PEM''
          | Some None \<Rightarrow> Inl ''no private key found in key PEM''
          | Some (Some key) \<Rightarrow>
              if \<not> tl_pair_ok lib certs key then Inl ''building TLS 1.3-only server config''
              else Inr \<lparr>sc_versions = [TLS13], sc_client_roots = None, sc_certs = certs, sc_key = key\<rparr>))"

definition acceptor_from_files :: "TlsLib \<Rightarrow> files \<Rightarrow> string \<Rightarrow> string \<Rightarrow> string + ServerConfig" where
  "acceptor_from_files lib fs cert_path key_path =
     (case fs cert_path of
        None \<Rightarrow> Inl (''reading TLS cert '' @ cert_path)
      | Some cert_pem \<Rightarrow>
          (case fs key_path of
             None \<Rightarrow> Inl (''reading TLS key '' @ key_path)
           | Some key_pem \<Rightarrow> acceptor_from_pem lib cert_pem key_pem))"

definition self_signed_acceptor :: "TlsLib \<Rightarrow> string list \<Rightarrow> string + ServerConfig" where
  "self_signed_acceptor lib domains =
     (if \<not> tl_params_ok lib domains then Inl ''building self-signed cert params''
      else case tl_generate_key lib of
             None \<Rightarrow> Inl ''generating TLS key pair''
           | Some key_pem \<Rightarrow>
               (case tl_sign lib domains ''Seamless Relay (self-signed)'' key_pem of
                  None \<Rightarrow> Inl ''signing self-signed cert''
                | Some cert_pem \<Rightarrow> acceptor_from_pem lib cert_pem key_pem))"

definition admin_tls_acceptor :: "TlsLib \<Rightarrow> files \<Rightarrow> string \<Rightarrow> string \<Rightarrow> string option \<Rightarrow> string + ServerConfig" where
  "admin_tls_acceptor lib fs cert_path key_path client_ca_path =
     (case fs cert_path of
        None \<Rightarrow> Inl (''reading admin TLS cert '' @ cert_path)
      | Some cert_pem \<Rightarrow>
     (case fs key_path of
        None \<Rightarrow> Inl (''reading admin TLS key '' @ key_path)
      | Some key_pem \<Rightarrow>
     (case tl_certs lib cert_pem of
        None \<Rightarrow> Inl ''parsing admin TLS certificate PEM''
      | Some server_certs \<Rightarrow>
     if server_certs = [] then Inl ''no certificates found in admin TLS cert PEM'' else
     (case tl_key lib key_pem of
        None \<Rightarrow> Inl ''parsing admin TLS private key PEM''
      | Some None \<Rightarrow> Inl ''no private key found in admin TLS key PEM''
      | Some (Some key) \<Rightarrow>
     (case client_ca_path of
        None \<Rightarrow>
          if \<not> tl_pair_ok lib server_certs key then Inl ''building admin TLS server config''
          else Inr \<lparr>sc_versions = [TLS13], sc_client_roots = None, sc_certs = server_certs, sc_key = key\<rparr>
      | Some ca_path \<Rightarrow>
          (case fs ca_path of
             None \<Rightarrow> Inl (''reading admin client CA '' @ ca_path)
           | Some ca_pem \<Rightarrow>
          (case tl_certs lib ca_pem of
             None \<Rightarrow> Inl ''parsing admin client CA PEM''
           | Some ca_certs \<Rightarrow>
               if ca_certs = [] then Inl ''no certificates found in admin client CA PEM''
               else if \<not> list_all (tl_root_ok lib) ca_certs then Inl ''adding client CA certificate to root store''
               else if \<not> tl_verifier_ok lib ca_certs then Inl ''building mTLS client verifier''
               else if \<not> tl_pair_ok lib server_certs key then Inl ''building admin mTLS server config''
               else Inr \<lparr>sc_versions = [TLS13], sc_client_roots = Some ca_certs, sc_certs = server_certs, sc_key = key\<rparr>)))))))"

section \<open>The HTTPS listener's acceptor\<close>

text \<open>Where its certificate comes from: \<open>None\<close> when the options name neither.\<close>

definition https_acceptor ::
  "TlsLib \<Rightarrow> files \<Rightarrow> bool \<Rightarrow> string option \<Rightarrow> string option \<Rightarrow> string \<Rightarrow> (string + ServerConfig) option" where
  "https_acceptor lib fs self_signed tls_cert tls_key base_domain =
     (if self_signed then Some (self_signed_acceptor lib [base_domain])
      else case (tls_cert, tls_key) of
             (Some cert, Some key) \<Rightarrow> Some (acceptor_from_files lib fs cert key)
           | _ \<Rightarrow> None)"

text \<open>One SIGUSR1: the acceptor for new connections afterwards.\<close>

definition sigusr1 ::
  "TlsLib \<Rightarrow> bool \<Rightarrow> string option \<Rightarrow> string option \<Rightarrow> string \<Rightarrow> files \<Rightarrow> ServerConfig \<Rightarrow> ServerConfig" where
  "sigusr1 lib self_signed cert_path key_path base_domain fs hot =
     (case https_acceptor lib fs self_signed cert_path key_path base_domain of
        None \<Rightarrow> hot
      | Some (Inl _) \<Rightarrow> hot
      | Some (Inr new_acceptor) \<Rightarrow> new_acceptor)"

section \<open>Properties\<close>

lemma acceptor_from_pem_ok:
  "acceptor_from_pem lib cp kp = Inr cfg \<Longrightarrow> sc_versions cfg = [TLS13] \<and> sc_client_roots cfg = None
     \<and> tl_certs lib cp = Some (sc_certs cfg) \<and> sc_certs cfg \<noteq> [] \<and> tl_key lib kp = Some (Some (sc_key cfg))
     \<and> tl_pair_ok lib (sc_certs cfg) (sc_key cfg)"
  by (auto simp: acceptor_from_pem_def split: option.splits if_splits)

text \<open>
  Mutual TLS on the admin port is never weakened: when a client CA is configured, every acceptor
  that is built demands client certificates and trusts exactly the certificates of that CA file,
  at least one; an unreadable, malformed, empty or rejected CA file is an error, never a server
  without client verification. Every acceptor is limited to TLS 1.3 and has a matching pair.
\<close>

theorem admin_mtls_enforced:
  assumes "admin_tls_acceptor lib fs cert_path key_path client_ca_path = Inr cfg"
  shows "sc_versions cfg = [TLS13] \<and> sc_certs cfg \<noteq> [] \<and> tl_pair_ok lib (sc_certs cfg) (sc_key cfg)
    \<and> (case client_ca_path of
         None \<Rightarrow> sc_client_roots cfg = None
       | Some ca_path \<Rightarrow> \<exists>pem roots. fs ca_path = Some pem \<and> tl_certs lib pem = Some roots \<and> roots \<noteq> []
           \<and> list_all (tl_root_ok lib) roots \<and> sc_client_roots cfg = Some roots)"
  using assms by (cases client_ca_path) (auto simp: admin_tls_acceptor_def split: option.splits if_splits)

definition demo_tls :: TlsLib where
  "demo_tls = \<lparr>tl_certs = (\<lambda>pem. Some [[1]]), tl_key = (\<lambda>pem. Some (Some [2])), tl_pair_ok = (\<lambda>_ _. True),
     tl_root_ok = (\<lambda>_. True), tl_verifier_ok = (\<lambda>_. True), tl_params_ok = (\<lambda>_. True), tl_generate_key = Some ''k'', tl_sign = (\<lambda>_ _ _. Some ''c'')\<rparr>"

theorem admin_mtls_enforced_witness:
  "\<exists>cfg. admin_tls_acceptor demo_tls (\<lambda>_. Some ''pem'') ''c'' ''k'' (Some ''ca'') = Inr cfg \<and> sc_client_roots cfg = Some [[1]]"
proof -
  obtain cfg where c: "admin_tls_acceptor demo_tls (\<lambda>_. Some ''pem'') ''c'' ''k'' (Some ''ca'') = Inr cfg"
    by (simp add: admin_tls_acceptor_def demo_tls_def)
  then show ?thesis using admin_mtls_enforced [OF c] by (auto simp: demo_tls_def)
qed

text \<open>
  SIGUSR1 never leaves the listener without a certificate: after any sequence of signals, the
  acceptor is the one of the last signal at which certificate and key could be loaded, and the
  one of the start if there was none.
\<close>

theorem sigusr1_keeps_last_good:
  "fold (sigusr1 lib self_signed cert_path key_path base_domain) fss hot =
     last (hot # List.map_filter (\<lambda>fs. case https_acceptor lib fs self_signed cert_path key_path base_domain of
        Some (Inr a) \<Rightarrow> Some a | _ \<Rightarrow> None) fss)"
proof (induction fss arbitrary: hot)
  case Nil
  then show ?case by (simp add: List.map_filter_def)
next
  case (Cons fs fss)
  then show ?case
    by (auto simp: List.map_filter_def sigusr1_def split: option.splits sum.splits)
qed

end
