(* ===== verification/Config.thy ===== *)
theory Config
  imports Relay_System Passthrough Acme_Order Tls
begin

text \<open>
  The start of the relay, \<open>main.rs\<close>: the configuration file, its merge with the command line, the
  persistent identity and the state the tasks begin with.

  Parameters: the TOML parser, the hex codec and the identity keys of the seam library, the
  constant-time comparison, the MaxMind database. The command line parser is a dependency too:
  its result is the record \<open>Args\<close>, with the defaults \<open>Args_default\<close> of the declarations.
\<close>

section \<open>Configuration file\<close>

record FileConfig =
  fc_seam_addr :: "string option"
  fc_http_addr :: "string option"
  fc_admin_addr :: "string option"
  fc_base_domain :: "string option"
  fc_store :: "string option"
  fc_log_level :: "string option"
  fc_log_format :: "string option"
  fc_cipher :: "string option"
  fc_max_tunnels_per_ip :: "u32 option"
  fc_rate_limit :: "u32 option"
  fc_max_tunnels :: "u32 option"
  fc_tls_self_signed :: "bool option"
  fc_auth_file :: "string option"
  fc_admin_token :: "string option"
  fc_https_addr :: "string option"
  fc_tls_cert :: "string option"
  fc_tls_key :: "string option"
  fc_webhook_url :: "string option"
  fc_admin_allow_cidr :: "string option"
  fc_admin_tls_cert :: "string option"
  fc_admin_tls_key :: "string option"
  fc_admin_client_ca :: "string option"
  fc_reserved_subdomains :: "string option"
  fc_subdomain_prefix :: "string option"
  fc_subdomain_length :: "nat option"
  fc_tunnel_max_age :: "u64 option"
  fc_max_body_size :: "u64 option"
  fc_blocklist_file :: "string option"
  fc_ip_denylist_file :: "string option"
  fc_audit_log :: "string option"
  fc_tunnel_keepalive :: "u64 option"
  fc_acme_email :: "string option"
  fc_acme_domains :: "string option"
  fc_acme_dir :: "string option"
  fc_cloudflare_api_token :: "string option"
  fc_acme_production :: "bool option"
  fc_allow_custom_domains :: "bool option"
  fc_custom_domain_allowlist :: "string option"
  fc_tcp_passthrough :: "string list option"
  fc_geoip_db :: "string option"
  fc_block_countries :: "string option"

definition FileConfig_default :: FileConfig where
  "FileConfig_default =
     \<lparr>fc_seam_addr = None, fc_http_addr = None, fc_admin_addr = None, fc_base_domain = None, fc_store = None, 
      fc_log_level = None, fc_log_format = None, fc_cipher = None, fc_max_tunnels_per_ip = None, fc_rate_limit = None, 
      fc_max_tunnels = None, fc_tls_self_signed = None, fc_auth_file = None, fc_admin_token = None, fc_https_addr = None, 
      fc_tls_cert = None, fc_tls_key = None, fc_webhook_url = None, fc_admin_allow_cidr = None, fc_admin_tls_cert = None, 
      fc_admin_tls_key = None, fc_admin_client_ca = None, fc_reserved_subdomains = None, fc_subdomain_prefix = None, fc_subdomain_length = None, 
      fc_tunnel_max_age = None, fc_max_body_size = None, fc_blocklist_file = None, fc_ip_denylist_file = None, fc_audit_log = None, 
      fc_tunnel_keepalive = None, fc_acme_email = None, fc_acme_domains = None, fc_acme_dir = None, fc_cloudflare_api_token = None, 
      fc_acme_production = None, fc_allow_custom_domains = None, fc_custom_domain_allowlist = None, fc_tcp_passthrough = None, fc_geoip_db = None, 
      fc_block_countries = None\<rparr>"

section \<open>Command line\<close>

record Args =
  arg_config :: "string option"
  arg_seam_addr :: sockaddr
  arg_http_addr :: sockaddr
  arg_admin_addr :: sockaddr
  arg_base_domain :: string
  arg_store :: string
  arg_log_level :: string
  arg_log_format :: string
  arg_cipher :: string
  arg_max_tunnels_per_ip :: u32
  arg_rate_limit :: u32
  arg_max_tunnels :: u32
  arg_tls_self_signed :: bool
  arg_auth_file :: "string option"
  arg_admin_token :: "string option"
  arg_https_addr :: "sockaddr option"
  arg_tls_cert :: "string option"
  arg_tls_key :: "string option"
  arg_webhook_url :: "string option"
  arg_admin_allow_cidr :: "string option"
  arg_admin_tls_cert :: "string option"
  arg_admin_tls_key :: "string option"
  arg_admin_client_ca :: "string option"
  arg_reserved_subdomains :: "string option"
  arg_subdomain_prefix :: "string option"
  arg_subdomain_length :: nat
  arg_tunnel_max_age :: u64
  arg_max_body_size :: u64
  arg_blocklist_file :: "string option"
  arg_ip_denylist_file :: "string option"
  arg_audit_log :: "string option"
  arg_tunnel_keepalive :: u64
  arg_acme_email :: "string option"
  arg_acme_domains :: "string option"
  arg_acme_dir :: "string option"
  arg_cloudflare_api_token :: "string option"
  arg_acme_production :: bool
  arg_allow_custom_domains :: bool
  arg_custom_domain_allowlist :: "string option"
  arg_tcp_passthrough :: "string list"
  arg_geoip_db :: "string option"
  arg_block_countries :: "string option"

text \<open>A required setting is taken from the file if it has the value of its default.\<close>

definition file_over :: "'a \<Rightarrow> 'a option \<Rightarrow> 'a \<Rightarrow> 'a" where
  "file_over dflt file cur = (if cur = dflt then (case file of Some v \<Rightarrow> v | None \<Rightarrow> cur) else cur)"

text \<open>An address of the file that does not parse is ignored.\<close>

definition file_addr :: "string option \<Rightarrow> sockaddr option" where
  "file_addr file = Option.bind file parse_sockaddr"

definition file_opt :: "'a option \<Rightarrow> 'a option \<Rightarrow> 'a option" where
  "file_opt file cur = (case cur of Some v \<Rightarrow> Some v | None \<Rightarrow> file)"

definition the_addr :: "string \<Rightarrow> sockaddr" where
  "the_addr s = the (parse_sockaddr s)"

definition Args_default :: Args where
  "Args_default =
     \<lparr>arg_config = None, arg_seam_addr = the_addr ''0.0.0.0:4443'', arg_http_addr = the_addr ''0.0.0.0:8080'',
      arg_admin_addr = the_addr ''0.0.0.0:8088'', arg_base_domain = ''localhost'', arg_store = ''seamless-relay.json'',
      arg_log_level = ''info'', arg_log_format = ''text'', arg_cipher = ''chacha20poly1305'',
      arg_max_tunnels_per_ip = 10, arg_rate_limit = 10, arg_max_tunnels = 1000,
      arg_tls_self_signed = False, arg_auth_file = None, arg_admin_token = None,
      arg_https_addr = None, arg_tls_cert = None, arg_tls_key = None,
      arg_webhook_url = None, arg_admin_allow_cidr = None, arg_admin_tls_cert = None,
      arg_admin_tls_key = None, arg_admin_client_ca = None, arg_reserved_subdomains = None,
      arg_subdomain_prefix = None, arg_subdomain_length = 8, arg_tunnel_max_age = 0,
      arg_max_body_size = 10 * 1024 * 1024, arg_blocklist_file = None, arg_ip_denylist_file = None,
      arg_audit_log = None, arg_tunnel_keepalive = 30, arg_acme_email = None,
      arg_acme_domains = None, arg_acme_dir = None, arg_cloudflare_api_token = None,
      arg_acme_production = False, arg_allow_custom_domains = False, arg_custom_domain_allowlist = None,
      arg_tcp_passthrough = [], arg_geoip_db = None, arg_block_countries = None\<rparr>"

text \<open>The later part of the merge, which the options of the second half go through.\<close>

definition apply_file_rest :: "FileConfig \<Rightarrow> Args \<Rightarrow> Args" where
  "apply_file_rest cfg args =
     args\<lparr>arg_ip_denylist_file := file_opt (fc_ip_denylist_file cfg) (arg_ip_denylist_file args),
       arg_audit_log := file_opt (fc_audit_log cfg) (arg_audit_log args),
       arg_tunnel_keepalive := file_over 30 (fc_tunnel_keepalive cfg) (arg_tunnel_keepalive args),
       arg_acme_email := file_opt (fc_acme_email cfg) (arg_acme_email args),
       arg_acme_domains := file_opt (fc_acme_domains cfg) (arg_acme_domains args),
       arg_acme_dir := file_opt (fc_acme_dir cfg) (arg_acme_dir args),
       arg_cloudflare_api_token := file_opt (fc_cloudflare_api_token cfg) (arg_cloudflare_api_token args),
       arg_acme_production := file_over False (fc_acme_production cfg) (arg_acme_production args),
       arg_allow_custom_domains := file_over False (fc_allow_custom_domains cfg) (arg_allow_custom_domains args),
       arg_custom_domain_allowlist := file_opt (fc_custom_domain_allowlist cfg) (arg_custom_domain_allowlist args),
       arg_tcp_passthrough := file_over [] (fc_tcp_passthrough cfg) (arg_tcp_passthrough args),
       arg_geoip_db := file_opt (fc_geoip_db cfg) (arg_geoip_db args),
       arg_block_countries := file_opt (fc_block_countries cfg) (arg_block_countries args)\<rparr>"

definition apply_file_config :: "FileConfig \<Rightarrow> Args \<Rightarrow> Args" where
  "apply_file_config cfg args =
     apply_file_rest cfg (args\<lparr>arg_seam_addr := file_over (the_addr ''0.0.0.0:4443'') (file_addr (fc_seam_addr cfg)) (arg_seam_addr args),
       arg_http_addr := file_over (the_addr ''0.0.0.0:8080'') (file_addr (fc_http_addr cfg)) (arg_http_addr args),
       arg_admin_addr := file_over (the_addr ''0.0.0.0:8088'') (file_addr (fc_admin_addr cfg)) (arg_admin_addr args),
       arg_base_domain := file_over ''localhost'' (fc_base_domain cfg) (arg_base_domain args),
       arg_store := file_over ''seamless-relay.json'' (fc_store cfg) (arg_store args),
       arg_log_level := file_over ''info'' (fc_log_level cfg) (arg_log_level args),
       arg_log_format := file_over ''text'' (fc_log_format cfg) (arg_log_format args),
       arg_cipher := file_over ''chacha20poly1305'' (fc_cipher cfg) (arg_cipher args),
       arg_max_tunnels_per_ip := file_over 10 (fc_max_tunnels_per_ip cfg) (arg_max_tunnels_per_ip args),
       arg_rate_limit := file_over 10 (fc_rate_limit cfg) (arg_rate_limit args),
       arg_max_tunnels := file_over 1000 (fc_max_tunnels cfg) (arg_max_tunnels args),
       arg_tls_self_signed := file_over False (fc_tls_self_signed cfg) (arg_tls_self_signed args),
       arg_auth_file := file_opt (fc_auth_file cfg) (arg_auth_file args),
       arg_admin_token := file_opt (fc_admin_token cfg) (arg_admin_token args),
       arg_https_addr := file_opt (file_addr (fc_https_addr cfg)) (arg_https_addr args),
       arg_tls_cert := file_opt (fc_tls_cert cfg) (arg_tls_cert args),
       arg_tls_key := file_opt (fc_tls_key cfg) (arg_tls_key args),
       arg_webhook_url := file_opt (fc_webhook_url cfg) (arg_webhook_url args),
       arg_admin_allow_cidr := file_opt (fc_admin_allow_cidr cfg) (arg_admin_allow_cidr args),
       arg_admin_tls_cert := file_opt (fc_admin_tls_cert cfg) (arg_admin_tls_cert args),
       arg_admin_tls_key := file_opt (fc_admin_tls_key cfg) (arg_admin_tls_key args),
       arg_admin_client_ca := file_opt (fc_admin_client_ca cfg) (arg_admin_client_ca args),
       arg_reserved_subdomains := file_opt (fc_reserved_subdomains cfg) (arg_reserved_subdomains args),
       arg_subdomain_prefix := file_opt (fc_subdomain_prefix cfg) (arg_subdomain_prefix args),
       arg_subdomain_length := file_over 8 (fc_subdomain_length cfg) (arg_subdomain_length args),
       arg_tunnel_max_age := file_over 0 (fc_tunnel_max_age cfg) (arg_tunnel_max_age args),
       arg_max_body_size := file_over (10 * 1024 * 1024) (fc_max_body_size cfg) (arg_max_body_size args),
       arg_blocklist_file := file_opt (fc_blocklist_file cfg) (arg_blocklist_file args)\<rparr>)"

section \<open>Finding the file\<close>

text \<open>
  A given path is the only one tried; otherwise a file in the home directory or under \<open>/etc\<close> that
  can be read and parsed. \<open>read\<close> gives the text of a file that exists and is readable.
\<close>

definition load_file_config ::
  "(string \<Rightarrow> string option) \<Rightarrow> (string \<Rightarrow> FileConfig option) \<Rightarrow> string option \<Rightarrow> string option \<Rightarrow> FileConfig \<times> string option" where
  "load_file_config read from_toml home explicit_path =
     (let try = (\<lambda>p. map_option (\<lambda>cfg. (cfg, Some p)) (Option.bind (read p) from_toml))
      in case explicit_path of
           Some p \<Rightarrow> (case try p of Some r \<Rightarrow> r | None \<Rightarrow> (FileConfig_default, None))
         | None \<Rightarrow>
             (case Option.bind home (\<lambda>h. try (path_join h ''.config/seamless/relay.toml'')) of
                Some r \<Rightarrow> r
              | None \<Rightarrow>
                  (case try ''/etc/seamless/relay.toml'' of Some r \<Rightarrow> r | None \<Rightarrow> (FileConfig_default, None))))"

section \<open>Identity\<close>

text \<open>The key library: identities, their encoding, and the hex of the public keys.\<close>

record 'i KeyLib =
  kl_from_bytes :: "u8 list \<Rightarrow> 'i option"
  kl_to_bytes :: "'i \<Rightarrow> u8 list"
  kl_x25519_hex :: "'i \<Rightarrow> string"
  kl_kem_hex :: "'i \<Rightarrow> string"
  kl_hex_decode :: "string \<Rightarrow> u8 list option"
  kl_hex_encode :: "u8 list \<Rightarrow> string"

datatype start_error = StoreError store_error | BadIdentityHex | CorruptIdentity | AuthFileError LoadError
  | PassthroughError passthrough_error | AdminTlsPair | AdminTlsError string
  | HttpsWithoutCert | HttpsCertError string | SeamBind

definition load_or_create_identity ::
  "'i KeyLib \<Rightarrow> 'i \<Rightarrow> SaveEnv \<Rightarrow> StoreState \<Rightarrow> (start_error + 'i) \<times> StoreState" where
  "load_or_create_identity kl fresh env ss =
     (case identity_hex (ss_store ss) of
        Some h \<Rightarrow>
          (case kl_hex_decode kl h of
             None \<Rightarrow> (Inl BadIdentityHex, ss)
           | Some bytes \<Rightarrow>
               (case kl_from_bytes kl bytes of None \<Rightarrow> (Inl CorruptIdentity, ss) | Some i \<Rightarrow> (Inr i, ss)))
      | None \<Rightarrow>
          let store = (ss_store ss)\<lparr>identity_hex := Some (kl_hex_encode kl (kl_to_bytes kl fresh))\<rparr>;
              (r, states) = store_save env store (ss_path ss) (ss_files ss);
              ss' = ss\<lparr>ss_store := store, ss_files := last states\<rparr>
          in (case r of Inl e \<Rightarrow> (Inl (StoreError e), ss') | Inr _ \<Rightarrow> (Inr fresh, ss')))"

section \<open>Lists in options\<close>

definition opt_list :: "(string \<Rightarrow> string) \<Rightarrow> string option \<Rightarrow> string list" where
  "opt_list clean v = filter (\<lambda>s. s \<noteq> []) (map clean (split_char CHR '','' (case v of Some s \<Rightarrow> s | None \<Rightarrow> [])))"

definition custom_allowlist_of :: "Args \<Rightarrow> string set" where
  "custom_allowlist_of args = set (opt_list (\<lambda>s. to_lowercase (trim s)) (arg_custom_domain_allowlist args))"

definition reserved_of :: "Args \<Rightarrow> ReservedSubdomains" where
  "reserved_of args = ReservedSubdomains_new (opt_list (\<lambda>s. to_lowercase (trim s)) (arg_reserved_subdomains args))"

definition prefix_of :: "Args \<Rightarrow> SubdomainPrefix" where
  "prefix_of args =
     \<lparr>prefix = (case map_option (\<lambda>s. to_lowercase (trim s)) (arg_subdomain_prefix args) of
                  Some p \<Rightarrow> if p \<noteq> [] then Some p else None
                | None \<Rightarrow> None)\<rparr>"

definition blocked_countries_of :: "Args \<Rightarrow> string list" where
  "blocked_countries_of args = opt_list trim (arg_block_countries args)"

definition acme_config_of :: "string option \<Rightarrow> Args \<Rightarrow> AcmeConfig option" where
  "acme_config_of home args =
     (case arg_acme_email args of
        None \<Rightarrow> None
      | Some email \<Rightarrow>
          Some \<lparr>ac_email = email,
            ac_domains = opt_list trim (Some (case arg_acme_domains args of Some d \<Rightarrow> d | None \<Rightarrow> arg_base_domain args)),
            cloudflare_api_token = arg_cloudflare_api_token args,
            acme_dir = (case arg_acme_dir args of
                Some d \<Rightarrow> d
              | None \<Rightarrow> path_join (case home of Some h \<Rightarrow> h | None \<Rightarrow> ''/tmp'') ''.local/share/seamless/acme''),
            ac_production = arg_acme_production args\<rparr>)"

fun parse_passthroughs :: "string list \<Rightarrow> passthrough_error + TcpPassthroughConfig list" where
  "parse_passthroughs [] = Inr []"
| "parse_passthroughs (raw # rest) =
     (case parse_passthrough raw of
        Inl e \<Rightarrow> Inl e
      | Inr cfg \<Rightarrow> (case parse_passthroughs rest of Inl e \<Rightarrow> Inl e | Inr cfgs \<Rightarrow> Inr (cfg # cfgs)))"

section \<open>The state of a started relay\<close>

text \<open>What start-up meets: the file system, the libraries and the clock.\<close>

record 'i StartEnv =
  su_read :: "string \<Rightarrow> string option"
  su_from_toml :: "string \<Rightarrow> FileConfig option"
  su_home :: "string option"
  su_from_json :: "string \<Rightarrow> Store option"
  su_store_readable :: bool
  su_save :: SaveEnv
  su_files :: files
  su_keys :: "'i KeyLib"
  su_fresh :: 'i
  su_geo :: "string \<Rightarrow> geo_reader option"
  su_ct_eq :: "string \<Rightarrow> string \<Rightarrow> u8"
  su_now :: nat
  su_tls :: TlsLib
  su_bind_ok :: bool

definition conn_ctx_of :: "'i StartEnv \<Rightarrow> Args \<Rightarrow> AuthPolicy \<Rightarrow> ConnCtx" where
  "conn_ctx_of env args pol =
     \<lparr>base_domain = arg_base_domain args, http_port = sa_port (arg_http_addr args),
      https_port = map_option sa_port (arg_https_addr args), auth = pol,
      max_tunnels_per_ip = arg_max_tunnels_per_ip args, max_tunnels = arg_max_tunnels args,
      reserved_subdomains = reserved_of args, subdomain_prefix = prefix_of args,
      subdomain_length = max (arg_subdomain_length args) 6,
      blocklist = (case arg_blocklist_file args of Some p \<Rightarrow> blocklist_from_file (su_read env) p | None \<Rightarrow> blocklist_disabled),
      ip_denylist = (case arg_ip_denylist_file args of Some p \<Rightarrow> from_file (su_read env) p | None \<Rightarrow> disabled),
      tunnel_keepalive = arg_tunnel_keepalive args, webhook_url = arg_webhook_url args, ct_eq_impl = su_ct_eq env\<rparr>"

definition relay_state_of :: "Args \<Rightarrow> RelayState" where
  "relay_state_of args =
     \<lparr>tunnels = [], tcp_ports = {}, custom_domains = [], r_metrics = new_metrics,
      r_rate_limiter = RateLimiter_new (arg_rate_limit args) (60 * 1000000000),
      r_audit = (case arg_audit_log args of Some _ \<Rightarrow> AuditLog_start | None \<Rightarrow> AuditLog_disabled),
      r_webhooks = [], signalled = {}\<rparr>"

definition app_state_of :: "'i StartEnv \<Rightarrow> Args \<Rightarrow> string option \<Rightarrow> AuthPolicy \<Rightarrow> 'i \<Rightarrow> StoreState \<Rightarrow> AppState" where
  "app_state_of env args config_path pol identity ss =
     \<lparr>app_ctx = conn_ctx_of env args pol, app_relay = relay_state_of args, app_store = ss, log_buffer = new_buffer,
      stats_history = StatsHistory_new, start_time = su_now env, admin_token = arg_admin_token args,
      app_admin_cidrs = admin_cidrs (arg_admin_allow_cidr args), auth_file = arg_auth_file args,
      config_file = config_path, tunnel_max_age = arg_tunnel_max_age args, max_body_bytes = arg_max_body_size args,
      allow_custom_domains = arg_allow_custom_domains args, custom_domain_allowlist = custom_allowlist_of args,
      geoip = GeoipFilter_new (su_geo env) (arg_geoip_db args) (blocked_countries_of args), geoip_blocked = 0,
      seam_addr = show_sockaddr (arg_seam_addr args), relay_x25519 = kl_x25519_hex (su_keys env) identity,
      relay_kem = kl_kem_hex (su_keys env) identity, cipher = arg_cipher args\<rparr>"

text \<open>The TLS options: of the admin port, and of the HTTPS listener.\<close>

definition admin_tls_of :: "'i StartEnv \<Rightarrow> Args \<Rightarrow> start_error + ServerConfig option" where
  "admin_tls_of env args =
     (case (arg_admin_tls_cert args, arg_admin_tls_key args) of
        (Some cert, Some key) \<Rightarrow>
          (case admin_tls_acceptor (su_tls env) (su_read env) cert key (arg_admin_client_ca args) of
             Inl e \<Rightarrow> Inl (AdminTlsError e)
           | Inr acceptor \<Rightarrow> Inr (Some acceptor))
      | (None, None) \<Rightarrow> Inr None
      | _ \<Rightarrow> Inl AdminTlsPair)"

definition https_of :: "'i StartEnv \<Rightarrow> Args \<Rightarrow> start_error + ServerConfig option" where
  "https_of env args =
     (case arg_https_addr args of
        None \<Rightarrow> Inr None
      | Some _ \<Rightarrow>
          (case https_acceptor (su_tls env) (su_read env) (arg_tls_self_signed args) (arg_tls_cert args) (arg_tls_key args)
                  (arg_base_domain args) of
             None \<Rightarrow> Inl HttpsWithoutCert
           | Some (Inl e) \<Rightarrow> Inl (HttpsCertError e)
           | Some (Inr acceptor) \<Rightarrow> Inr (Some acceptor)))"

definition relay_startup ::
  "'i StartEnv \<Rightarrow> Args \<Rightarrow> (start_error + AppState \<times> TcpPassthroughConfig list) \<times> files" where
  "relay_startup env args0 =
     (let (file_cfg, config_path) = load_file_config (su_read env) (su_from_toml env) (su_home env) (arg_config args0);
          args = apply_file_config file_cfg args0;
          path = arg_store args
      in case store_load (su_from_json env) (su_store_readable env) path (su_files env) of
           Inl e \<Rightarrow> (Inl (StoreError e), su_files env)
         | Inr store \<Rightarrow>
             (let (r, ss) = load_or_create_identity (su_keys env) (su_fresh env) (su_save env)
                              \<lparr>ss_store = store, ss_path = path, ss_files = su_files env\<rparr>
              in case r of
                   Inl e \<Rightarrow> (Inl e, ss_files ss)
                 | Inr identity \<Rightarrow>
                     (case (case arg_auth_file args of
                              Some p \<Rightarrow> AuthPolicy_from_file (su_read env) p
                            | None \<Rightarrow> Inr AuthPolicy_open) of
                        Inl e \<Rightarrow> (Inl (AuthFileError e), ss_files ss)
                      | Inr pol \<Rightarrow>
                          (case parse_passthroughs (arg_tcp_passthrough args) of
                             Inl e \<Rightarrow> (Inl (PassthroughError e), ss_files ss)
                           | Inr cfgs \<Rightarrow>
                               (case (admin_tls_of env args, https_of env args) of
                                  (Inl e, _) \<Rightarrow> (Inl e, ss_files ss)
                                | (Inr _, Inl e) \<Rightarrow> (Inl e, ss_files ss)
                                | (Inr _, Inr _) \<Rightarrow>
                                    (if \<not> su_bind_ok env then Inl SeamBind
                                     else Inr (app_state_of env args config_path pol identity ss, cfgs), ss_files ss))))))"

text \<open>
  The first certificate, which \<open>main\<close> waits for before it binds the seam port: \<open>None\<close> is a start-up
  that never gets there, \<open>Inl\<close> one that ends with a panic.
\<close>

definition initial_certificate ::
  "(string \<Rightarrow> u8 list option) \<Rightarrow> nat option \<Rightarrow> (string \<Rightarrow> bool) \<Rightarrow> AcmeEnv \<Rightarrow> AcmeConfig option \<Rightarrow> AcmeState
     \<Rightarrow> (fault + AcmeState) option" where
  "initial_certificate base64_decode now readable aenv acme_cfg ast =
     (case acme_cfg of
        None \<Rightarrow> Some (Inr ast)
      | Some cfg \<Rightarrow>
          (case needs_renewal base64_decode now cfg readable (acme_files ast) of
             Inl e \<Rightarrow> Some (Inl e)
           | Inr False \<Rightarrow> Some (Inr ast)
           | Inr True \<Rightarrow> map_option (\<lambda>(_, ast'). Inr ast') (obtain_certificate aenv cfg ast)))"

section \<open>What a started relay begins with\<close>

lemma startup_ok:
  assumes "relay_startup env args0 = (Inr (app, cfgs), fs)"
  obtains file_cfg config_path args pol identity ss where
    "args = apply_file_config file_cfg args0" "app = app_state_of env args config_path pol identity ss"
    "parse_passthroughs (arg_tcp_passthrough args) = Inr cfgs" "fs = ss_files ss"
  using assms unfolding relay_startup_def Let_def
  by (auto split: prod.splits sum.splits option.splits if_splits)

lemma opt_list_clean:
  "s \<in> set (opt_list clean v) \<Longrightarrow> s \<noteq> [] \<and> (\<exists>raw. s = clean raw)"
  by (auto simp: opt_list_def)

lemma parse_passthroughs_all:
  "parse_passthroughs raws = Inr cfgs \<Longrightarrow> map parse_passthrough raws = map Inr cfgs"
  by (induction raws arbitrary: cfgs) (auto split: sum.splits)

lemma main_parse_cidr_masked: "main_parse_cidr s = Some (net, m) \<Longrightarrow> net AND m = net"
  by (auto simp: main_parse_cidr_def Let_def and.assoc split: bind_splits prod.splits)

lemma admin_cidrs_masked: "(net, m) \<in> set (admin_cidrs v) \<Longrightarrow> net AND m = net"
  by (auto simp: admin_cidrs_def List.map_filter_def dest: main_parse_cidr_masked)

text \<open>Names as the rest of the relay expects them: not empty, in lower case.\<close>

definition clean_name :: "string \<Rightarrow> bool" where
  "clean_name s \<longleftrightarrow> s \<noteq> [] \<and> to_lowercase s = s"

lemma reserved_clean: "s \<in> set (names (reserved_of args)) \<Longrightarrow> clean_name s"
  by (auto simp: reserved_of_def ReservedSubdomains_new_def clean_name_def dest!: opt_list_clean)

lemma prefix_clean: "prefix (prefix_of args) = Some p \<Longrightarrow> clean_name p"
  by (auto simp: prefix_of_def clean_name_def split: option.splits if_splits)

lemma allowlist_clean: "d \<in> custom_allowlist_of args \<Longrightarrow> clean_name d"
  by (auto simp: custom_allowlist_of_def clean_name_def dest!: opt_list_clean)

lemma countries_clean: "c \<in> blocked_countries (GeoipFilter_new rd p cs) \<Longrightarrow> c \<noteq> [] \<and> to_uppercase c = c"
  by (auto simp: GeoipFilter_new_def)

text \<open>
  Claim C24. A relay that starts is well formed, whatever its options and its configuration file say: random
  names have at least six characters, reserved names, the required prefix and the custom domains
  are non-empty and in lower case (so that the lower-cased lookups can find them), country codes
  are in upper case, every admin network is the base address of its mask, there is one passthrough
  listener per option and in its order, and no tunnel, port or custom domain exists yet.
\<close>

theorem startup_well_formed:
  assumes "relay_startup env args0 = (Inr (app, cfgs), fs)"
  shows "6 \<le> subdomain_length (app_ctx app)
    \<and> (\<forall>s \<in> set (names (reserved_subdomains (app_ctx app))). clean_name s)
    \<and> (\<forall>p. prefix (subdomain_prefix (app_ctx app)) = Some p \<longrightarrow> clean_name p)
    \<and> (\<forall>d \<in> custom_domain_allowlist app. clean_name d)
    \<and> (\<forall>c \<in> blocked_countries (geoip app). c \<noteq> [] \<and> to_uppercase c = c)
    \<and> (\<forall>(net, m) \<in> set (app_admin_cidrs app). net AND m = net)
    \<and> (\<exists>file_cfg. map parse_passthrough (arg_tcp_passthrough (apply_file_config file_cfg args0)) = map Inr cfgs)
    \<and> tunnels (app_relay app) = [] \<and> tcp_ports (app_relay app) = {} \<and> custom_domains (app_relay app) = []"
proof -
  obtain file_cfg config_path args pol identity ss where a: "args = apply_file_config file_cfg args0"
      and app: "app = app_state_of env args config_path pol identity ss"
      and pt: "parse_passthroughs (arg_tcp_passthrough args) = Inr cfgs"
    using startup_ok [OF assms] by metis
  show ?thesis
    unfolding app using reserved_clean [of _ args] prefix_clean [of args] allowlist_clean [of _ args] countries_clean
      admin_cidrs_masked parse_passthroughs_all [OF pt] a
    by (auto simp: app_state_of_def conn_ctx_of_def relay_state_of_def)
qed

section \<open>The identity\<close>

definition key_law :: "'i KeyLib \<Rightarrow> bool" where
  "key_law kl \<longleftrightarrow> (\<forall>i. kl_from_bytes kl (kl_to_bytes kl i) = Some i) \<and> (\<forall>bs. kl_hex_decode kl (kl_hex_encode kl bs) = Some bs)"

lemma store_save_ok:
  assumes "store_save env store path fs = (Inr (), states)" and "serde_law (to_string_pretty env) from_str"
  shows "store_load from_str True path (last states) = Inr store"
  using assms by (auto simp: store_save_def serde_law_def fs_rename_def store_load_def Let_def
      split: option.splits if_splits write_outcome.splits)


section \<open>Precedence\<close>

text \<open>An option of the command line that differs from its default is kept, whatever the file says.\<close>

lemma cli_kept: "cur \<noteq> dflt \<Longrightarrow> file_over dflt file cur = cur" "file_opt file (Some v) = Some v"
  by (simp_all add: file_over_def file_opt_def)

text \<open>
  One that is given but equal to its default is not: the merge cannot tell it from an absent one,
  so the file wins, for limits as for addresses and switches.
\<close>

theorem explicit_default_overridden:
  assumes "arg_max_tunnels args = 1000" and "fc_max_tunnels cfg = Some n"
  shows "arg_max_tunnels (apply_file_config cfg args) = n"
  using assms by (simp add: apply_file_config_def apply_file_rest_def file_over_def)

text \<open>
  A client CA without certificate and key is ignored: the admin port is then served in the clear,
  to clients without a certificate.
\<close>

theorem client_ca_alone_ignored:
  assumes "arg_admin_tls_cert args = None" and "arg_admin_tls_key args = None"
  shows "admin_tls_of env (args\<lparr>arg_admin_client_ca := Some ca\<rparr>) = Inr None"
  using assms by (simp add: admin_tls_of_def)

text \<open>Start-up waits for the first certificate, for ever if the authority never delivers it.\<close>

theorem startup_waits_for_certificate:
  "initial_certificate base64_decode now readable aenv acme_cfg ast = None \<longleftrightarrow>
     (\<exists>cfg. acme_cfg = Some cfg \<and> needs_renewal base64_decode now cfg readable (acme_files ast) = Inr True
        \<and> obtain_certificate aenv cfg ast = None)"
  by (auto simp: initial_certificate_def split: option.splits sum.splits bool.splits)

text \<open>A start with the default options, no configuration file and no store.\<close>

definition demo_keys :: "u8 list KeyLib" where
  "demo_keys = \<lparr>kl_from_bytes = Some, kl_to_bytes = (\<lambda>i. i), kl_x25519_hex = (\<lambda>_. []), kl_kem_hex = (\<lambda>_. []),
     kl_hex_decode = Some \<circ> str_bytes, kl_hex_encode = bytes_str\<rparr>"

definition demo_new_store :: Store where
  "demo_new_store = Store_default\<lparr>identity_hex := Some (bytes_str [7])\<rparr>"

definition demo_save :: SaveEnv where
  "demo_save = \<lparr>to_string_pretty = (\<lambda>s. if s = demo_new_store then Some ''st'' else None), mkdir_ok = True,
     write_out = Written, rename_ok = True\<rparr>"

definition demo_start :: "u8 list StartEnv" where
  "demo_start = \<lparr>su_read = (\<lambda>_. None), su_from_toml = (\<lambda>_. None), su_home = None, su_from_json = (\<lambda>_. Some demo_new_store),
     su_store_readable = True, su_save = demo_save, su_files = (\<lambda>_. None), su_keys = demo_keys, su_fresh = [7],
     su_geo = (\<lambda>_. None), su_ct_eq = (\<lambda>a b. if a = b then 1 else 0), su_now = 0, su_tls = demo_tls,
     su_bind_ok = True\<rparr>"

lemma apply_default: "apply_file_config FileConfig_default args = args"
  by (simp add: apply_file_config_def apply_file_rest_def FileConfig_default_def file_over_def file_opt_def file_addr_def split: option.split)

lemma demo_identity:
  "\<exists>ss'. load_or_create_identity demo_keys [7] demo_save \<lparr>ss_store = Store_default, ss_path = p, ss_files = fs\<rparr> = (Inr [7], ss')
     \<and> ss_store ss' = demo_new_store"
  by (simp add: load_or_create_identity_def demo_keys_def demo_save_def demo_new_store_def Store_default_def store_save_def Let_def)

lemma demo_starts:
  "\<exists>ss. relay_startup demo_start (Args_default\<lparr>arg_base_domain := b\<rparr>) =
     (Inr (app_state_of demo_start (Args_default\<lparr>arg_base_domain := b\<rparr>) None AuthPolicy_open [7] ss, []), ss_files ss)
     \<and> ss_store ss = demo_new_store"
proof -
  let ?args = "Args_default\<lparr>arg_base_domain := b\<rparr>"
  have l: "load_file_config (su_read demo_start) (su_from_toml demo_start) (su_home demo_start) (arg_config ?args) = (FileConfig_default, None)"
    by (simp add: load_file_config_def demo_start_def Args_default_def)
  obtain ss where i: "load_or_create_identity (su_keys demo_start) (su_fresh demo_start) (su_save demo_start)
      \<lparr>ss_store = Store_default, ss_path = arg_store ?args, ss_files = su_files demo_start\<rparr> = (Inr [7], ss)"
      and n: "ss_store ss = demo_new_store"
    using demo_identity by (auto simp: demo_start_def)
  have s: "store_load (su_from_json demo_start) (su_store_readable demo_start) p (su_files demo_start) = Inr Store_default" for p
    by (simp add: store_load_def demo_start_def)
  have o: "arg_auth_file ?args = None" "arg_tcp_passthrough ?args = []"
      "admin_tls_of demo_start ?args = Inr None" "https_of demo_start ?args = Inr None" "su_bind_ok demo_start"
    by (simp_all add: Args_default_def admin_tls_of_def https_of_def demo_start_def)
  show ?thesis
    unfolding relay_startup_def l apply_default Let_def prod.case s sum.case i o option.case parse_passthroughs.simps
    by (rule exI [of _ ss]) (simp add: o n)
qed

lemma demo_starts_default:
  "\<exists>app fs. relay_startup demo_start Args_default = (Inr (app, []), fs) \<and> app_ctx app = conn_ctx_of demo_start Args_default AuthPolicy_open"
  using demo_starts [of "arg_base_domain Args_default"] by (auto simp: app_state_of_def)

theorem startup_well_formed_witness:
  "\<exists>app fs. relay_startup demo_start Args_default = (Inr (app, []), fs) \<and> 6 \<le> subdomain_length (app_ctx app)
     \<and> tunnels (app_relay app) = []"
proof -
  obtain app fs where s: "relay_startup demo_start Args_default = (Inr (app, []), fs)" using demo_starts_default by blast
  then show ?thesis using startup_well_formed [OF s] by blast
qed


end
