(* ===== verification/Tcp_Tunnel.thy ===== *)
theory Tcp_Tunnel
  imports Ingress
begin

text \<open>
  The listeners: the data path of a TCP tunnel (\<open>run_tcp_listener\<close> and \<open>forward_to_tunnel\<close> of
  \<open>tunnel.rs\<close>) and the accept loops of the public ingress (\<open>ingress.rs\<close>). A loop is a function of the
  events it meets; a forwarded connection is cut where the copy begins, so that other tasks run
  while it lasts.
\<close>

section \<open>TCP tunnels\<close>

datatype listen_event = Accepted sockaddr | AcceptError | Shutdown

text \<open>The peers for which a forwarding task is spawned. An accept error is logged and skipped.\<close>

fun run_tcp_listener :: "listen_event list \<Rightarrow> sockaddr list" where
  "run_tcp_listener [] = []"
| "run_tcp_listener (Shutdown # es) = []"
| "run_tcp_listener (AcceptError # es) = run_tcp_listener es"
| "run_tcp_listener (Accepted peer # es) = peer # run_tcp_listener es"

definition count_bytes :: "string \<Rightarrow> nat \<Rightarrow> u64 \<Rightarrow> u64 \<Rightarrow> RelayState \<Rightarrow> RelayState" where
  "count_bytes key conn n_in n_out st =
     upd_metrics (inc_bytes_out n_out \<circ> inc_bytes_in n_in)
       (upd_entry key conn (\<lambda>e. e\<lparr>te_bytes_in := te_bytes_in e + n_in, te_bytes_out := te_bytes_out e + n_out\<rparr>) st)"

text \<open>
  Up to the copy: the announcement (\<open>None\<close> if it cannot be written), then the bytes already read.
\<close>

definition forward_head ::
  "string \<Rightarrow> nat \<Rightarrow> sockaddr \<Rightarrow> string \<Rightarrow> bool \<Rightarrow> bool \<Rightarrow> RelayState \<Rightarrow> (ControlFrame \<times> string) option \<times> RelayState" where
  "forward_head key conn peer already_read frame_ok head_ok st =
     (if \<not> frame_ok then (None, st)
      else if already_read = [] then (Some (NewConn (show_sockaddr peer), []), st)
      else if \<not> head_ok then (None, st)
      else (Some (NewConn (show_sockaddr peer), already_read),
            count_bytes key conn (word_of_nat (length already_read)) 0 st))"

text \<open>The end of the copy: \<open>None\<close> is an error, which counts nothing.\<close>

definition forward_finish :: "string \<Rightarrow> nat \<Rightarrow> (u64 \<times> u64) option \<Rightarrow> RelayState \<Rightarrow> RelayState" where
  "forward_finish key conn result st =
     (case result of None \<Rightarrow> st | Some (n_in, n_out) \<Rightarrow> count_bytes key conn n_in n_out st)"

section \<open>Public ingress\<close>

text \<open>The connections \<open>run_http_ingress\<close> serves: an accept error ends the loop for good.\<close>

fun run_http_ingress :: "listen_event list \<Rightarrow> sockaddr list" where
  "run_http_ingress [] = []"
| "run_http_ingress (Accepted peer # es) = peer # run_http_ingress es"
| "run_http_ingress (_ # es) = []"

text \<open>
  A connection of \<open>run_https_ingress\<close>: \<open>handshake\<close> is the protocol version and cipher suite, if the
  TLS handshake succeeds. The fingerprint is logged, then the request is routed as one over TLS.
\<close>

definition https_connection ::
  "(string option \<times> string option) option \<Rightarrow> int \<Rightarrow> HttpInput \<Rightarrow> AppState \<Rightarrow> (ingress_result \<times> AppState) option" where
  "https_connection handshake unix hi app =
     (case handshake of
        None \<Rightarrow> None
      | Some (version, cipher_suite) \<Rightarrow>
          let fingerprint = tls_connection_fingerprint version cipher_suite;
              app1 = (if fingerprint = [] then app
                      else upd_relay (audit unix ''tls.connection''
                             [(''peer'', JStr (show_sockaddr (hi_peer hi))), (''fingerprint'', JStr fingerprint)]) app)
          in Some (route_http (hi\<lparr>hi_https := True\<rparr>) app1))"

section \<open>Accept errors\<close>

text \<open>
  An accept error costs a TCP tunnel nothing: the connections after it are served as if it had not
  happened. The public ingress is not as robust: the first accept error (out of file descriptors,
  for example) ends its loop, and no later connection is served.
\<close>

theorem accept_error_ends_ingress:
  "run_tcp_listener (es @ AcceptError # later) = run_tcp_listener (es @ later)
   \<and> run_http_ingress (es @ AcceptError # later) = run_http_ingress es"
proof
  show "run_tcp_listener (es @ AcceptError # later) = run_tcp_listener (es @ later)"
    by (induction es rule: run_tcp_listener.induct) auto
  show "run_http_ingress (es @ AcceptError # later) = run_http_ingress es"
    by (induction es rule: run_http_ingress.induct) auto
qed

section \<open>Byte counts\<close>

definition total_in :: "(u64 \<times> u64) option list \<Rightarrow> u64" where
  "total_in rs = sum_list (map (\<lambda>r. case r of Some (n, _) \<Rightarrow> n | None \<Rightarrow> 0) rs)"

definition total_out :: "(u64 \<times> u64) option list \<Rightarrow> u64" where
  "total_out rs = sum_list (map (\<lambda>r. case r of Some (_, n) \<Rightarrow> n | None \<Rightarrow> 0) rs)"

lemma count_bytes_effect:
  assumes "map_of (tunnels st) key = Some e" and "te_conn e = conn"
  shows "map_of (tunnels (count_bytes key conn a b st)) key =
      Some (e\<lparr>te_bytes_in := te_bytes_in e + a, te_bytes_out := te_bytes_out e + b\<rparr>)"
    and "k \<noteq> key \<Longrightarrow> map_of (tunnels (count_bytes key conn a b st)) k = map_of (tunnels st) k"
    and "m_bytes_in (r_metrics (count_bytes key conn a b st)) = m_bytes_in (r_metrics st) + a"
    and "m_bytes_out (r_metrics (count_bytes key conn a b st)) = m_bytes_out (r_metrics st) + b"
  using assms lookup_upd_entry [of key conn _ st]
  by (auto simp: count_bytes_def upd_metrics_def inc_bytes_in_def inc_bytes_out_def option.map_ident)

text \<open>
  The traffic of a TCP tunnel is counted exactly: whatever the order in which its forwarded
  connections end, the entry of the tunnel and the relay's totals have grown by the bytes of the
  copies that ended without an error, in each direction and modulo 2^64, and no other entry has
  changed.
\<close>

theorem tcp_bytes_exact:
  assumes "map_of (tunnels st) key = Some e" and "te_conn e = conn"
  shows "(let st' = fold (forward_finish key conn) rs st in
      map_of (tunnels st') key =
        Some (e\<lparr>te_bytes_in := te_bytes_in e + total_in rs, te_bytes_out := te_bytes_out e + total_out rs\<rparr>)
      \<and> (\<forall>k. k \<noteq> key \<longrightarrow> map_of (tunnels st') k = map_of (tunnels st) k)
      \<and> m_bytes_in (r_metrics st') = m_bytes_in (r_metrics st) + total_in rs
      \<and> m_bytes_out (r_metrics st') = m_bytes_out (r_metrics st) + total_out rs)"
  using assms
proof (induction rs arbitrary: st e)
  case Nil
  then show ?case by (simp add: total_in_def total_out_def)
next
  case (Cons r rs)
  show ?case
  proof (cases r)
    case None
    then show ?thesis using Cons.IH [OF Cons.prems] by (simp add: forward_finish_def total_in_def total_out_def)
  next
    case (Some nm)
    then obtain a b where r: "r = Some (a, b)" by (cases nm) auto
    note c = count_bytes_effect [where a = a and b = b, OF Cons.prems]
    have "te_conn (e\<lparr>te_bytes_in := te_bytes_in e + a, te_bytes_out := te_bytes_out e + b\<rparr>) = conn" using Cons.prems by simp
    from Cons.IH [OF c(1) this] show ?thesis
      by (simp add: r forward_finish_def total_in_def total_out_def c Let_def add.assoc)
  qed
qed

theorem tcp_bytes_exact_witness:
  "map_of (tunnels (fold (forward_finish ''web'' 1) [Some (3, 4), None, Some (5, 6)] demo_tunnel_state)) ''web'' =
     Some ((new_entry (demo_input 1 ''web'') ''web'')\<lparr>te_bytes_in := 8, te_bytes_out := 10\<rparr>)"
proof -
  have m: "map_of (tunnels demo_tunnel_state) ''web'' = Some (new_entry (demo_input 1 ''web'') ''web'')"
    by (simp add: demo_tunnel_state_def)
  have c: "te_conn (new_entry (demo_input 1 ''web'') ''web'') = 1" by (simp add: new_entry_def demo_input_def)
  show ?thesis using tcp_bytes_exact [OF m c, of "[Some (3, 4), None, Some (5, 6)]"]
    by (simp add: total_in_def total_out_def Let_def new_entry_def)
qed

section \<open>HTTPS\<close>

lemma fingerprint_nonempty: "tls_connection_fingerprint v c \<noteq> []"
  by (simp add: tls_connection_fingerprint_def Let_def)

text \<open>Every completed handshake is in the audit log, and its request is routed as one over TLS.\<close>

lemma https_connection_routes:
  "https_connection (Some (v, c)) unix hi app =
     Some (route_http (hi\<lparr>hi_https := True\<rparr>) (upd_relay (audit unix ''tls.connection''
       [(''peer'', JStr (show_sockaddr (hi_peer hi))), (''fingerprint'', JStr (tls_connection_fingerprint v c))]) app))"
  by (simp add: https_connection_def fingerprint_nonempty Let_def)

end
