(* ===== verification/Exposition.thy ===== *)
theory Exposition
  imports Admin_Api
begin

text \<open>
  The metrics page of the admin port: \<open>Histogram::render_prometheus\<close> of \<open>metrics.rs\<close> and
  \<open>metrics_handler\<close> of \<open>admin.rs\<close>, with the formatting of \<open>f64\<close> they use. The gauge of passthrough
  connections is an argument.
\<close>

section \<open>Formatting numbers\<close>

text \<open>\<open>{:.k}\<close> of a value that is not negative: the exact value, rounded half to even.\<close>

definition show_fixed :: "nat \<Rightarrow> rat \<Rightarrow> string" where
  "show_fixed k x =
     (let n = nat (round_half_even (x * 10 ^ k))
      in show_nat (n div 10 ^ k) @ (if k = 0 then [] else ''.'' @ pad_left k CHR ''0'' (show_nat (n mod 10 ^ k))))"

text \<open>
  \<open>{}\<close> of a \<open>f64\<close> from 0 to 2^53: the fewest decimals that read back as the same value. No such
  value needs more than 1074 of them.
\<close>

fun decimals_from :: "nat \<Rightarrow> nat \<Rightarrow> rat \<Rightarrow> nat" where
  "decimals_from 0 k x = k"
| "decimals_from (Suc n) k x =
     (if f64_round (of_int (round_half_even (x * 10 ^ k)) / 10 ^ k) = x then k else decimals_from n (k + 1) x)"

definition show_f64 :: "rat \<Rightarrow> string" where
  "show_f64 x = show_fixed (decimals_from 1074 0 x) x"

section \<open>The histogram\<close>

definition histogram_lines :: "string \<Rightarrow> Histogram \<Rightarrow> string list" where
  "histogram_lines name h =
     (let sum_secs = f64_round (u64_as_f64 (h_sum_us h) / 1000000)
      in map2 (\<lambda>bound bucket_count. name @ ''_bucket{le=\"'' @ show_f64 bound @ ''\"} '' @ show_word bucket_count)
           (h_bounds h) (h_buckets h)
         @ [name @ ''_bucket{le=\"+Inf\"} '' @ show_word (h_count h), name @ ''_count '' @ show_word (h_count h),
            name @ ''_sum '' @ show_fixed 6 sum_secs])"

definition render_prometheus :: "string \<Rightarrow> Histogram \<Rightarrow> string" where
  "render_prometheus name h = file_of_lines (histogram_lines name h)"

section \<open>The page\<close>

text \<open>Name, help and type of each metric, in the order of the page.\<close>

definition metrics_table :: "(string \<times> string \<times> string) list" where
  "metrics_table =
    [(''seamless_info'', ''Relay version info'', ''gauge''),
     (''seamless_uptime_seconds'', ''Seconds since relay start'', ''counter''),
     (''seamless_tunnels_active'', ''Currently connected tunnel count'', ''gauge''),
     (''seamless_bytes_in_total'', ''Bytes received from public internet'', ''counter''),
     (''seamless_bytes_out_total'', ''Bytes sent to public internet'', ''counter''),
     (''seamless_connections_total'', ''Total tunnel registrations since start'', ''counter''),
     (''seamless_handshake_duration_ms_avg'', ''Average Seam handshake duration'', ''gauge''),
     (''seamless_auth_failures_total'', ''Total authentication failures (missing or invalid token)'', ''counter''),
     (''seamless_rate_limit_hits_total'', ''Total connections rejected by the per-IP rate limiter'', ''counter''),
     (''seamless_tunnel_cap_rejections_total'', ''Total connections rejected due to global tunnel cap'', ''counter''),
     (''seamless_subdomain_invalid_total'', ''Total subdomain validation failures'', ''counter''),
     (''seamless_tunnel_per_ip_rejections_total'', ''Total connections rejected due to per-IP tunnel limit'', ''counter''),
     (''seamless_ws_connections_active'', ''Currently active WebSocket connections being tunnelled'', ''gauge''),
     (''seamless_geoip_blocked_total'', ''Total connections blocked by geo-IP country filter'', ''counter''),
     (''seamless_tcp_passthrough_connections_active'', ''Currently active raw TCP passthrough connections'', ''gauge'')]"

definition metrics_values :: "nat \<Rightarrow> u64 \<Rightarrow> AppState \<Rightarrow> string list" where
  "metrics_values now passthrough_active app =
     (let m = r_metrics (app_relay app); num = (\<lambda>w :: u64. '' '' @ show_word w)
      in [''{version=\"'' @ VERSION @ ''\"} 1'', '' '' @ show_nat ((now - start_time app) div 1000000000),
          num (word_of_nat (length (tunnels (app_relay app)))), num (m_bytes_in m), num (m_bytes_out m),
          num (m_connections_total m), '' '' @ show_fixed 1 (handshake_avg_ms m), num (m_auth_failures_total m),
          num (m_rate_limit_hits_total m), num (m_tunnel_cap_rejections_total m), num (m_subdomain_invalid_total m),
          num (m_tunnel_per_ip_rejections_total m), num (m_ws_connections_active m), num (m_geoip_blocked_total m),
          num passthrough_active])"

definition metric_lines :: "string \<times> string \<times> string \<Rightarrow> string \<Rightarrow> string list" where
  "metric_lines entry v =
     (case entry of (name, help, ty) \<Rightarrow> [''# HELP '' @ name @ '' '' @ help, ''# TYPE '' @ name @ '' '' @ ty, name @ v])"

abbreviation DURATION :: string where
  "DURATION \<equiv> ''seamless_request_duration_seconds''"

definition metrics_page :: "nat \<Rightarrow> u64 \<Rightarrow> AppState \<Rightarrow> string list" where
  "metrics_page now passthrough_active app =
     concat (map2 metric_lines metrics_table (metrics_values now passthrough_active app))
     @ [''# HELP '' @ DURATION @ '' Proxied HTTP request duration from first byte received to last byte sent'',
        ''# TYPE '' @ DURATION @ '' histogram'']
     @ histogram_lines DURATION (m_request_duration (r_metrics (app_relay app)))"

definition metrics_handler :: "AdminInput \<Rightarrow> u64 \<Rightarrow> AppState \<Rightarrow> reply" where
  "metrics_handler ai passthrough_active app =
     ((200, TextBody (file_of_lines (metrics_page (ai_now ai) passthrough_active app))), app)"

section \<open>What a scraper reads\<close>

definition one_line :: "string \<Rightarrow> bool" where
  "one_line l \<longleftrightarrow> LF \<notin> set l \<and> CR \<notin> set l"

lemma one_line_append [simp]: "one_line (a @ b) \<longleftrightarrow> one_line a \<and> one_line b"
  by (auto simp: one_line_def)

lemma one_line_Cons [simp]: "one_line [] " "one_line (c # s) \<longleftrightarrow> c \<noteq> LF \<and> c \<noteq> CR \<and> one_line s"
  by (auto simp: one_line_def)

lemma one_line_digits: "list_all is_digit s \<Longrightarrow> one_line s"
  by (auto simp: one_line_def list_all_iff is_digit_def chr_code_def)

lemma one_line_show_nat [simp]: "one_line (show_nat n)"
  by (rule one_line_digits) (rule show_nat_digits)

lemma one_line_pad: "one_line s \<Longrightarrow> one_line (pad_left k CHR ''0'' s)"
  by (auto simp: pad_left_def one_line_def)

lemma one_line_fixed [simp]: "one_line (show_fixed k x)"
  by (simp add: show_fixed_def Let_def one_line_pad)

lemma one_line_f64 [simp]: "one_line (show_f64 x)"
  by (simp add: show_f64_def)

lemma one_line_word [simp]: "one_line (show_word w)"
  by (simp add: show_word_def)

lemma table_clean: "list_all (\<lambda>(n, h, t). one_line n \<and> one_line h \<and> one_line t \<and> \<not> starts_with (n @ [CHR 0x20]) ''#'' \<and> n \<noteq> []) metrics_table"
  by code_simp

lemma values_clean: "list_all one_line (metrics_values now pa app)"
proof -
  have "one_line ''{version=\"''" "one_line VERSION" "one_line ''\"} 1''" "one_line '' ''" by code_simp+
  then show ?thesis unfolding metrics_values_def Let_def by (simp only: list.pred_inject one_line_append one_line_word
      one_line_show_nat one_line_fixed simp_thms)
qed

lemma histogram_clean:
  assumes "one_line name"
  shows "\<forall>l \<in> set (histogram_lines name h). one_line l"
proof -
  have "one_line ''_bucket{le=\"''" "one_line ''\"} ''" "one_line ''_bucket{le=\"+Inf\"} ''" "one_line ''_count ''" "one_line ''_sum ''"
    by code_simp+
  then show ?thesis using assms unfolding histogram_lines_def Let_def
    by (auto simp only: set_append Un_iff set_map list.set insert_iff empty_iff one_line_append one_line_word one_line_fixed
        one_line_f64 prod.case split: prod.splits)
qed

lemma not_comment: "n \<noteq> [] \<Longrightarrow> \<not> starts_with (n @ [CHR 0x20]) ''#'' \<Longrightarrow> \<not> starts_with (n @ v) ''#''"
  by (cases n) (auto simp: starts_with_def)

lemma samples_of_table:
  assumes "list_all (\<lambda>(n, h, t). one_line n \<and> one_line h \<and> one_line t \<and> \<not> starts_with (n @ [CHR 0x20]) ''#'' \<and> n \<noteq> []) tab"
    and "list_all one_line vs"
  shows "filter (\<lambda>l. \<not> starts_with l ''#'') (concat (map2 metric_lines tab vs)) = map2 (\<lambda>entry v. fst entry @ v) tab vs
    \<and> (\<forall>l \<in> set (concat (map2 metric_lines tab vs)). one_line l)"
proof -
  have c: "starts_with (''# HELP '' @ x) ''#''" "starts_with (''# TYPE '' @ x) ''#''" for x by (simp_all add: starts_with_def)
  have o: "one_line ''# HELP ''" "one_line ''# TYPE ''" "one_line '' ''" by code_simp+
  show ?thesis using assms
  proof (induction tab vs rule: list_induct2')
    case (4 e tab v vs)
    obtain n h t where e: "e = (n, h, t)" using prod_cases3 by blast
    have cl: "one_line n" "one_line h" "one_line t" "one_line v" "\<not> starts_with (n @ v) ''#''"
      using 4(2,3) not_comment [of n v] by (auto simp: e)
    have "list_all (\<lambda>(n, h, t). one_line n \<and> one_line h \<and> one_line t \<and> \<not> starts_with (n @ [CHR 0x20]) ''#'' \<and> n \<noteq> []) tab"
      "list_all one_line vs" using 4(2,3) by simp_all
    note ih = 4(1) [OF this]
    have m: "metric_lines e v = [''# HELP '' @ n @ '' '' @ h, ''# TYPE '' @ n @ '' '' @ t, n @ v]" by (simp add: metric_lines_def e)
    have f: "filter (\<lambda>l. \<not> starts_with l ''#'') (metric_lines e v) = [n @ v]"
      unfolding m by (simp only: filter.simps c cl(5) simp_thms if_True if_False)
    have o: "\<forall>l \<in> set (metric_lines e v). one_line l"
      unfolding m list.set ball_simps one_line_append using cl o by blast
    have mz: "concat (map2 metric_lines (e # tab) (v # vs)) = metric_lines e v @ concat (map2 metric_lines tab vs)"
      "map2 (\<lambda>entry v. fst entry @ v) (e # tab) (v # vs) = (n @ v) # map2 (\<lambda>entry v. fst entry @ v) tab vs"
      by (simp_all add: e)
    show ?case unfolding mz filter_append f set_append ball_Un using ih o by simp
  qed auto
qed

text \<open>
  The metrics page is well formed: its lines that are not comments are exactly the samples, one
  per metric and in the order of the table, each with the value of its counter at that moment,
  then the cumulative buckets, the count and the sum of the latency histogram.
\<close>

theorem metrics_samples:
  "\<exists>page. fst (metrics_handler ai passthrough_active app) = (200, TextBody page)
     \<and> filter (\<lambda>l. \<not> starts_with l ''#'') (str_lines page) =
         map2 (\<lambda>entry v. fst entry @ v) metrics_table (metrics_values (ai_now ai) passthrough_active app)
         @ histogram_lines DURATION (m_request_duration (r_metrics (app_relay app)))"
proof -
  let ?h = "histogram_lines DURATION (m_request_duration (r_metrics (app_relay app)))"
  let ?c = "[''# HELP '' @ DURATION @ '' Proxied HTTP request duration from first byte received to last byte sent'',
        ''# TYPE '' @ DURATION @ '' histogram'']"
  let ?ls = "concat (map2 metric_lines metrics_table (metrics_values (ai_now ai) passthrough_active app))"
  note t = samples_of_table [OF table_clean values_clean, of "ai_now ai" passthrough_active app]
  have d: "one_line DURATION" by code_simp
  have hc: "\<forall>l \<in> set ?h. one_line l" by (rule histogram_clean [OF d])
  have "list_all one_line ?c" by code_simp
  then have "\<forall>l \<in> set (?ls @ ?c @ ?h). one_line l" using t hc unfolding set_append ball_Un list_all_iff by blast
  then have lines: "str_lines (file_of_lines (?ls @ ?c @ ?h)) = ?ls @ ?c @ ?h"
    by (intro str_lines_file) (simp add: one_line_def)
  have "filter (\<lambda>l. \<not> starts_with l ''#'') ?c = []" by code_simp
  moreover have "\<not> starts_with l ''#''" if "l \<in> set ?h" for l
    using that unfolding histogram_lines_def Let_def by (auto simp: starts_with_def split: prod.splits)
  then have "filter (\<lambda>l. \<not> starts_with l ''#'') ?h = ?h" by (simp add: filter_id_conv)
  ultimately have "filter (\<lambda>l. \<not> starts_with l ''#'') (?ls @ ?c @ ?h) =
      map2 (\<lambda>entry v. fst entry @ v) metrics_table (metrics_values (ai_now ai) passthrough_active app) @ ?h"
    using t by (simp only: filter_append append_Nil)
  then show ?thesis unfolding metrics_handler_def metrics_page_def fst_conv
    by (intro exI [of _ "file_of_lines (?ls @ ?c @ ?h)"] conjI refl) (simp only: lines)
qed

text \<open>The country filter counts its blocks elsewhere: the page does not depend on that counter.\<close>

theorem metrics_miss_geoip:
  "fst (metrics_handler ai passthrough_active (app\<lparr>geoip_blocked := n\<rparr>)) = fst (metrics_handler ai passthrough_active app)"
  by (simp add: metrics_handler_def metrics_page_def metrics_values_def Let_def)

end
