(* ===== verification/Admin_Router.thy ===== *)
theory Admin_Router
  imports Admin_Props Exposition Cloudflare
begin

text \<open>
  The admin port as a whole, \<open>start_admin\<close> of \<open>admin.rs\<close>: the route table, and the path of an HTTP
  request through the layers of the server to a handler. The layers themselves are \<open>axum\<close>'s and
  \<open>tower-http\<close>'s and are the fields of \<open>Axum\<close>: the path router, the choice of the handler by the
  request method, the extractors of the handlers' arguments and the CORS layer. What theorems
  need of them is \<open>router_law\<close>, \<open>method_law\<close>, \<open>cors_law\<close> and \<open>path_law\<close>.
\<close>

section \<open>The route table\<close>

datatype handler =
    H_serve_ui | H_health_check | H_ready_check | H_metrics_handler | H_list_routes | H_create_route | H_update_route
  | H_delete_route | H_list_seamless_tunnels | H_get_seamless_tunnel | H_get_ddos_config | H_set_ddos_config
  | H_get_tunnel_requests | H_stats_history_handler | H_admin_bulk_disconnect | H_admin_disconnect_tunnel
  | H_admin_tunnel_stats | H_admin_pause_tunnel | H_admin_resume_tunnel | H_admin_audit_query | H_list_custom_domains
  | H_set_custom_domain | H_remove_custom_domain | H_list_backends | H_add_backend | H_remove_backend
  | H_force_health_check | H_get_logs | H_health_routes | H_get_status | H_get_settings | H_save_settings
  | H_cf_list_tunnels | H_cf_create_tunnel | H_cf_delete_tunnel | H_cf_tunnel_token | H_cf_list_zones | H_cf_list_dns
  | H_cf_create_dns | H_cf_update_dns | H_cf_delete_dns

definition admin_table :: "(string \<times> (http_verb \<times> handler) list) list" where
  "admin_table =
     [(''/'', [(GET, H_serve_ui)]),
      (''/health'', [(GET, H_health_check)]),
      (''/ready'', [(GET, H_ready_check)]),
      (''/metrics'', [(GET, H_metrics_handler)]),
      (''/api/routes'', [(GET, H_list_routes), (POST, H_create_route)]),
      (''/api/routes/{id}'', [(PUT, H_update_route), (DELETE, H_delete_route)]),
      (''/api/tunnels'', [(GET, H_list_seamless_tunnels)]),
      (''/api/tunnels/{id}'', [(GET, H_get_seamless_tunnel)]),
      (''/api/tunnels/{id}/ddos'', [(GET, H_get_ddos_config), (PUT, H_set_ddos_config)]),
      (''/api/tunnels/{id}/requests'', [(GET, H_get_tunnel_requests)]),
      (''/api/stats/history'', [(GET, H_stats_history_handler)]),
      (''/admin/tunnels/disconnect'', [(POST, H_admin_bulk_disconnect)]),
      (''/admin/tunnels/{id}'', [(DELETE, H_admin_disconnect_tunnel)]),
      (''/admin/tunnels/{id}/stats'', [(GET, H_admin_tunnel_stats)]),
      (''/admin/tunnels/{id}/pause'', [(POST, H_admin_pause_tunnel)]),
      (''/admin/tunnels/{id}/resume'', [(POST, H_admin_resume_tunnel)]),
      (''/admin/audit'', [(GET, H_admin_audit_query)]),
      (''/api/custom-domains'', [(GET, H_list_custom_domains)]),
      (''/api/tunnels/{id}/custom-domain'', [(POST, H_set_custom_domain), (DELETE, H_remove_custom_domain)]),
      (''/api/tunnels/{id}/backends'', [(GET, H_list_backends), (POST, H_add_backend)]),
      (''/api/tunnels/{id}/backends/{backend_id}'', [(DELETE, H_remove_backend)]),
      (''/api/tunnels/{id}/backends/{backend_id}/health'', [(POST, H_force_health_check)]),
      (''/api/logs'', [(GET, H_get_logs)]),
      (''/api/routes/health'', [(GET, H_health_routes)]),
      (''/api/status'', [(GET, H_get_status)]),
      (''/api/settings'', [(GET, H_get_settings), (PUT, H_save_settings)]),
      (''/api/cf/tunnels'', [(GET, H_cf_list_tunnels), (POST, H_cf_create_tunnel)]),
      (''/api/cf/tunnels/{id}'', [(DELETE, H_cf_delete_tunnel)]),
      (''/api/cf/tunnels/{id}/token'', [(GET, H_cf_tunnel_token)]),
      (''/api/cf/zones'', [(GET, H_cf_list_zones)]),
      (''/api/cf/dns/{zone_id}'', [(GET, H_cf_list_dns), (POST, H_cf_create_dns)]),
      (''/api/cf/dns/{zone_id}/{record_id}'', [(PUT, H_cf_update_dns), (DELETE, H_cf_delete_dns)])]"

section \<open>The server\<close>

record http_req =
  hq_method :: string
  hq_path :: string
  hq_query :: string
  hq_body :: string

text \<open>
  An extractor gives the argument of a handler or the response that rejects the request; those of
  bodies and of query strings see the headers and the request.
\<close>

type_synonym 'a extractor = "(string \<times> string) list \<Rightarrow> http_req \<Rightarrow> response + 'a"

record Axum =
  ax_lookup :: "string list \<Rightarrow> string \<Rightarrow> (string \<times> string list) option"
  ax_method :: "http_verb list \<Rightarrow> string \<Rightarrow> http_verb option"
  ax_cors :: "http_req \<Rightarrow> response option"
  ax_no_route :: response
  ax_no_method :: response
  ax_path1 :: "string list \<Rightarrow> response + string"
  ax_path2 :: "string list \<Rightarrow> response + string \<times> string"
  ax_RouteReq :: "RouteReq extractor"
  ax_DdosConfigReq :: "DdosConfigReq extractor"
  ax_BulkDisconnectReq :: "string extractor"
  ax_SetCustomDomainReq :: "string extractor"
  ax_AddBackendReq :: "(string \<times> u32) extractor"
  ax_SaveSettingsReq :: "(string option \<times> string) extractor"
  ax_CreateTunnelReq :: "string extractor"
  ax_CreateDnsRecord :: "CreateDnsRecord extractor"
  ax_RequestLogParams :: "nat option extractor"
  ax_AuditQueryParams :: "(int option \<times> nat option) extractor"

text \<open>What is called once the arguments are extracted, and the extraction, in the order of the arguments.\<close>

datatype admin_call = ServeUi | MetricsPage | Api admin_req | Cf cf_op

definition extracted :: "('e + 'a) \<Rightarrow> ('a \<Rightarrow> 'e + 'b) \<Rightarrow> 'e + 'b" where
  "extracted r k = (case r of Inl e \<Rightarrow> Inl e | Inr x \<Rightarrow> k x)"

fun extract_args :: "Axum \<Rightarrow> (string \<times> string) list \<Rightarrow> http_req \<Rightarrow> string list \<Rightarrow> handler \<Rightarrow> response + admin_call" where
  "extract_args ax hs rq caps H_serve_ui = Inr ServeUi"
| "extract_args ax hs rq caps H_health_check = Inr (Api Health)"
| "extract_args ax hs rq caps H_ready_check = Inr (Api Ready)"
| "extract_args ax hs rq caps H_metrics_handler = Inr MetricsPage"
| "extract_args ax hs rq caps H_list_routes = Inr (Api ListRoutes)"
| "extract_args ax hs rq caps H_create_route = extracted (ax_RouteReq ax hs rq) (\<lambda>b. Inr (Api (CreateRoute b)))"
| "extract_args ax hs rq caps H_update_route =
     extracted (ax_path1 ax caps) (\<lambda>i. extracted (ax_RouteReq ax hs rq) (\<lambda>b. Inr (Api (UpdateRoute i b))))"
| "extract_args ax hs rq caps H_delete_route = extracted (ax_path1 ax caps) (\<lambda>i. Inr (Api (DeleteRoute i)))"
| "extract_args ax hs rq caps H_list_seamless_tunnels = Inr (Api ListTunnels)"
| "extract_args ax hs rq caps H_get_seamless_tunnel = extracted (ax_path1 ax caps) (\<lambda>i. Inr (Api (GetTunnel i)))"
| "extract_args ax hs rq caps H_get_ddos_config = extracted (ax_path1 ax caps) (\<lambda>i. Inr (Api (GetDdos i)))"
| "extract_args ax hs rq caps H_set_ddos_config =
     extracted (ax_path1 ax caps) (\<lambda>i. extracted (ax_DdosConfigReq ax hs rq) (\<lambda>b. Inr (Api (SetDdos i b))))"
| "extract_args ax hs rq caps H_get_tunnel_requests =
     extracted (ax_path1 ax caps) (\<lambda>i. extracted (ax_RequestLogParams ax hs rq) (\<lambda>limit. Inr (Api (GetRequests i limit))))"
| "extract_args ax hs rq caps H_stats_history_handler = Inr (Api GetStatsHistory)"
| "extract_args ax hs rq caps H_admin_bulk_disconnect = extracted (ax_BulkDisconnectReq ax hs rq) (\<lambda>a. Inr (Api (BulkDisconnect a)))"
| "extract_args ax hs rq caps H_admin_disconnect_tunnel = extracted (ax_path1 ax caps) (\<lambda>i. Inr (Api (DisconnectTunnel i)))"
| "extract_args ax hs rq caps H_admin_tunnel_stats = extracted (ax_path1 ax caps) (\<lambda>i. Inr (Api (TunnelStats i)))"
| "extract_args ax hs rq caps H_admin_pause_tunnel = extracted (ax_path1 ax caps) (\<lambda>i. Inr (Api (PauseTunnel i)))"
| "extract_args ax hs rq caps H_admin_resume_tunnel = extracted (ax_path1 ax caps) (\<lambda>i. Inr (Api (ResumeTunnel i)))"
| "extract_args ax hs rq caps H_admin_audit_query =
     extracted (ax_AuditQueryParams ax hs rq) (\<lambda>(since, limit). Inr (Api (AuditQuery since limit)))"
| "extract_args ax hs rq caps H_list_custom_domains = Inr (Api ListCustomDomains)"
| "extract_args ax hs rq caps H_set_custom_domain =
     extracted (ax_path1 ax caps) (\<lambda>i. extracted (ax_SetCustomDomainReq ax hs rq) (\<lambda>d. Inr (Api (SetCustomDomain i d))))"
| "extract_args ax hs rq caps H_remove_custom_domain = extracted (ax_path1 ax caps) (\<lambda>i. Inr (Api (RemoveCustomDomain i)))"
| "extract_args ax hs rq caps H_list_backends = extracted (ax_path1 ax caps) (\<lambda>i. Inr (Api (ListBackends i)))"
| "extract_args ax hs rq caps H_add_backend =
     extracted (ax_path1 ax caps) (\<lambda>i. extracted (ax_AddBackendReq ax hs rq) (\<lambda>(a, w). Inr (Api (AddBackend i a w))))"
| "extract_args ax hs rq caps H_remove_backend = extracted (ax_path2 ax caps) (\<lambda>(i, b). Inr (Api (RemoveBackend i b)))"
| "extract_args ax hs rq caps H_force_health_check = extracted (ax_path2 ax caps) (\<lambda>(i, b). Inr (Api (ForceHealth i b)))"
| "extract_args ax hs rq caps H_get_logs = Inr (Api GetLogs)"
| "extract_args ax hs rq caps H_health_routes = Inr (Api HealthRoutes)"
| "extract_args ax hs rq caps H_get_status = Inr (Api GetStatus)"
| "extract_args ax hs rq caps H_get_settings = Inr (Api GetSettings)"
| "extract_args ax hs rq caps H_save_settings = extracted (ax_SaveSettingsReq ax hs rq) (\<lambda>(tok, acct). Inr (Api (SaveSettings tok acct)))"
| "extract_args ax hs rq caps H_cf_list_tunnels = Inr (Cf CfListTunnels)"
| "extract_args ax hs rq caps H_cf_create_tunnel = extracted (ax_CreateTunnelReq ax hs rq) (\<lambda>n. Inr (Cf (CfCreateTunnel n)))"
| "extract_args ax hs rq caps H_cf_delete_tunnel = extracted (ax_path1 ax caps) (\<lambda>i. Inr (Cf (CfDeleteTunnel i)))"
| "extract_args ax hs rq caps H_cf_tunnel_token = extracted (ax_path1 ax caps) (\<lambda>i. Inr (Cf (CfTunnelToken i)))"
| "extract_args ax hs rq caps H_cf_list_zones = Inr (Cf CfListZones)"
| "extract_args ax hs rq caps H_cf_list_dns = extracted (ax_path1 ax caps) (\<lambda>z. Inr (Cf (CfListDns z)))"
| "extract_args ax hs rq caps H_cf_create_dns =
     extracted (ax_path1 ax caps) (\<lambda>z. extracted (ax_CreateDnsRecord ax hs rq) (\<lambda>r. Inr (Cf (CfCreateDns z r))))"
| "extract_args ax hs rq caps H_cf_update_dns =
     extracted (ax_path2 ax caps) (\<lambda>(z, i). extracted (ax_CreateDnsRecord ax hs rq) (\<lambda>r. Inr (Cf (CfUpdateDns z i r))))"
| "extract_args ax hs rq caps H_cf_delete_dns = extracted (ax_path2 ax caps) (\<lambda>(z, i). Inr (Cf (CfDeleteDns z i)))"

text \<open>
  The result of a request: the answer and the new state, or \<open>None\<close> when the handler panicked; and
  the request sent to Cloudflare, if any. \<open>UI_HTML\<close> is the text of \<open>admin.html\<close>.
\<close>

record AdminWorld =
  aw_axum :: Axum
  aw_UI_HTML :: string
  aw_cf_api :: cf_api
  aw_cf_secret :: string
  aw_pt_active :: u64

type_synonym served = "reply option \<times> cf_request option"

definition serve_ui :: "AdminWorld \<Rightarrow> response" where
  "serve_ui w = (200, TextBody (aw_UI_HTML w))"

fun run_call :: "AdminWorld \<Rightarrow> AdminInput \<Rightarrow> admin_call \<Rightarrow> AppState \<Rightarrow> served" where
  "run_call w ai ServeUi app = (Some (serve_ui w, app), None)"
| "run_call w ai MetricsPage app = (Some (metrics_handler ai (aw_pt_active w) app), None)"
| "run_call w ai (Api req) app = (admin_route ai req app, None)"
| "run_call w ai (Cf op) app =
     (let (r, sent) = cf_handle (aw_cf_api w) (aw_cf_secret w) op (ss_store (app_store app)) in (Some (r, app), sent))"

definition run_handler :: "AdminWorld \<Rightarrow> AdminInput \<Rightarrow> http_req \<Rightarrow> string list \<Rightarrow> handler \<Rightarrow> AppState \<Rightarrow> served" where
  "run_handler w ai rq caps h app =
     (case extract_args (aw_axum w) (ai_headers ai) rq caps h of
        Inl rejection \<Rightarrow> (Some (rejection, app), None)
      | Inr call \<Rightarrow> run_call w ai call app)"

definition dispatch :: "AdminWorld \<Rightarrow> AdminInput \<Rightarrow> http_req \<Rightarrow> AppState \<Rightarrow> served" where
  "dispatch w ai rq app =
     (let ax = aw_axum w in
      case ax_lookup ax (map fst admin_table) (hq_path rq) of
        None \<Rightarrow> (Some (ax_no_route ax, app), None)
      | Some (pat, caps) \<Rightarrow>
          (let handlers = (case map_of admin_table pat of None \<Rightarrow> [] | Some hs \<Rightarrow> hs) in
           case Option.bind (ax_method ax (map fst handlers) (hq_method rq)) (map_of handlers) of
             None \<Rightarrow> (Some (ax_no_method ax, app), None)
           | Some h \<Rightarrow> run_handler w ai rq caps h app))"

text \<open>
  The layers of the router: the one added last is the outermost. The address filter answers a
  denied peer itself, and otherwise lets the request pass.
\<close>

definition admin_service :: "AdminWorld \<Rightarrow> AdminInput \<Rightarrow> http_req \<Rightarrow> AppState \<Rightarrow> served" where
  "admin_service w ai rq app =
     (case ax_cors (aw_axum w) rq of
        Some r \<Rightarrow> (Some (r, app), None)
      | None \<Rightarrow>
          (case require_admin_ip ai app None of
             Some denied \<Rightarrow> (Some denied, None)
           | None \<Rightarrow> dispatch w ai rq app))"

section \<open>What the layers promise\<close>

text \<open>A pattern and a path, segment by segment: a segment in braces captures a segment that is not empty.\<close>

definition captures :: "string \<Rightarrow> bool" where
  "captures seg \<longleftrightarrow> starts_with seg ''{''"

fun match_segs :: "string list \<Rightarrow> string list \<Rightarrow> string list option" where
  "match_segs [] [] = Some []"
| "match_segs (p # ps) (s # ss) =
     (if captures p then (if s = [] then None else map_option ((#) s) (match_segs ps ss))
      else if p = s then match_segs ps ss else None)"
| "match_segs _ _ = None"

definition match_path :: "string \<Rightarrow> string \<Rightarrow> string list option" where
  "match_path pat path = match_segs (split_char (CHR ''/'') pat) (split_char (CHR ''/'') path)"

text \<open>
  The path router finds a pattern that matches, finds one whenever there is one, and prefers a
  pattern without captures. The method router takes the handler of the method, where a \<open>GET\<close>
  handler also answers \<open>HEAD\<close>. The CORS layer answers preflight requests and nothing else. The path
  extractor decodes percent escapes.
\<close>

definition router_law :: "Axum \<Rightarrow> bool" where
  "router_law ax \<longleftrightarrow>
     (\<forall>pats path pat caps. ax_lookup ax pats path = Some (pat, caps) \<longrightarrow> pat \<in> set pats \<and> match_path pat path = Some caps)
     \<and> (\<forall>pats path pat. ax_lookup ax pats path = None \<longrightarrow> pat \<in> set pats \<longrightarrow> match_path pat path = None)
     \<and> (\<forall>pats path. path \<in> set pats \<longrightarrow> \<not> list_ex captures (split_char (CHR ''/'') path) \<longrightarrow> ax_lookup ax pats path = Some (path, []))"

definition method_law :: "Axum \<Rightarrow> bool" where
  "method_law ax \<longleftrightarrow>
     (\<forall>vs v. v \<in> set vs \<longrightarrow> ax_method ax vs (verb_name v) = Some v)
     \<and> (\<forall>vs m v. ax_method ax vs m = Some v \<longrightarrow> v \<in> set vs \<and> (m = verb_name v \<or> m = ''HEAD'' \<and> v = GET))
     \<and> fst (ax_no_method ax) = 405 \<and> fst (ax_no_route ax) = 404"

definition cors_law :: "Axum \<Rightarrow> bool" where
  "cors_law ax \<longleftrightarrow> (\<forall>rq. ax_cors ax rq \<noteq> None \<longleftrightarrow> hq_method rq = ''OPTIONS'')"

definition path_law :: "Axum \<Rightarrow> bool" where
  "path_law ax \<longleftrightarrow> (\<forall>s. CHR ''%'' \<notin> set s \<longrightarrow> ax_path1 ax [s] = Inr s)"

section \<open>Routing\<close>

lemma split_char_inj: "split_char c s = split_char c t \<Longrightarrow> s = t"
proof (induction s arbitrary: t)
  case Nil
  then show ?case by (cases t) (auto split: if_splits list.splits dest: sym)
next
  case (Cons x xs)
  then show ?case by (cases t) (auto split: if_splits list.splits dest: sym)
qed

lemma match_segs_static: "match_segs ps ss = Some caps \<Longrightarrow> \<not> list_ex captures ps \<Longrightarrow> ss = ps"
  by (induction ps ss arbitrary: caps rule: match_segs.induct) (auto split: if_splits)

lemma match_path_static:
  "match_path pat path = Some caps \<Longrightarrow> \<not> list_ex captures (split_char (CHR ''/'') pat) \<Longrightarrow> path = pat"
  using match_segs_static split_char_inj unfolding match_path_def by metis

fun segs_overlap :: "string list \<Rightarrow> string list \<Rightarrow> bool" where
  "segs_overlap [] [] = True"
| "segs_overlap (p # ps) (q # qs) \<longleftrightarrow> (captures p \<or> captures q \<or> p = q) \<and> segs_overlap ps qs"
| "segs_overlap _ _ = False"

lemma match_overlap: "match_segs ps ss = Some a \<Longrightarrow> match_segs qs ss = Some b \<Longrightarrow> segs_overlap ps qs"
  by (induction ps qs arbitrary: ss a b rule: segs_overlap.induct; case_tac ss) (auto split: if_splits)

text \<open>The paths that two patterns of the table match.\<close>

definition static_twins :: "string list" where
  "static_twins = [''/admin/tunnels/disconnect'', ''/api/routes/health'']"

definition table_segs :: "(string \<times> string list) list" where
  "table_segs = map (\<lambda>p. (fst p, split_char (CHR ''/'') (fst p))) admin_table"

lemma table_segs_eq:
  "table_segs =
     [(''/'', [[], []]),
      (''/health'', [[], ''health'']),
      (''/ready'', [[], ''ready'']),
      (''/metrics'', [[], ''metrics'']),
      (''/api/routes'', [[], ''api'', ''routes'']),
      (''/api/routes/{id}'', [[], ''api'', ''routes'', ''{id}'']),
      (''/api/tunnels'', [[], ''api'', ''tunnels'']),
      (''/api/tunnels/{id}'', [[], ''api'', ''tunnels'', ''{id}'']),
      (''/api/tunnels/{id}/ddos'', [[], ''api'', ''tunnels'', ''{id}'', ''ddos'']),
      (''/api/tunnels/{id}/requests'', [[], ''api'', ''tunnels'', ''{id}'', ''requests'']),
      (''/api/stats/history'', [[], ''api'', ''stats'', ''history'']),
      (''/admin/tunnels/disconnect'', [[], ''admin'', ''tunnels'', ''disconnect'']),
      (''/admin/tunnels/{id}'', [[], ''admin'', ''tunnels'', ''{id}'']),
      (''/admin/tunnels/{id}/stats'', [[], ''admin'', ''tunnels'', ''{id}'', ''stats'']),
      (''/admin/tunnels/{id}/pause'', [[], ''admin'', ''tunnels'', ''{id}'', ''pause'']),
      (''/admin/tunnels/{id}/resume'', [[], ''admin'', ''tunnels'', ''{id}'', ''resume'']),
      (''/admin/audit'', [[], ''admin'', ''audit'']),
      (''/api/custom-domains'', [[], ''api'', ''custom-domains'']),
      (''/api/tunnels/{id}/custom-domain'', [[], ''api'', ''tunnels'', ''{id}'', ''custom-domain'']),
      (''/api/tunnels/{id}/backends'', [[], ''api'', ''tunnels'', ''{id}'', ''backends'']),
      (''/api/tunnels/{id}/backends/{backend_id}'', [[], ''api'', ''tunnels'', ''{id}'', ''backends'', ''{backend_id}'']),
      (''/api/tunnels/{id}/backends/{backend_id}/health'', [[], ''api'', ''tunnels'', ''{id}'', ''backends'', ''{backend_id}'', ''health'']),
      (''/api/logs'', [[], ''api'', ''logs'']),
      (''/api/routes/health'', [[], ''api'', ''routes'', ''health'']),
      (''/api/status'', [[], ''api'', ''status'']),
      (''/api/settings'', [[], ''api'', ''settings'']),
      (''/api/cf/tunnels'', [[], ''api'', ''cf'', ''tunnels'']),
      (''/api/cf/tunnels/{id}'', [[], ''api'', ''cf'', ''tunnels'', ''{id}'']),
      (''/api/cf/tunnels/{id}/token'', [[], ''api'', ''cf'', ''tunnels'', ''{id}'', ''token'']),
      (''/api/cf/zones'', [[], ''api'', ''cf'', ''zones'']),
      (''/api/cf/dns/{zone_id}'', [[], ''api'', ''cf'', ''dns'', ''{zone_id}'']),
      (''/api/cf/dns/{zone_id}/{record_id}'', [[], ''api'', ''cf'', ''dns'', ''{zone_id}'', ''{record_id}''])]"
  by (simp add: table_segs_def admin_table_def)

fun overlaps :: "(string \<times> string list) list \<Rightarrow> (string \<times> string) list" where
  "overlaps [] = []"
| "overlaps (x # xs) =
     map (\<lambda>y. (fst x, fst y)) (filter (\<lambda>y. length (snd x) = length (snd y) \<and> segs_overlap (snd x) (snd y)) xs) @ overlaps xs"

lemma segs_overlap_sym: "segs_overlap ps qs \<Longrightarrow> segs_overlap qs ps"
  by (induction ps qs rule: segs_overlap.induct) auto

lemma segs_overlap_length: "segs_overlap ps qs \<Longrightarrow> length ps = length qs"
  by (induction ps qs rule: segs_overlap.induct) auto

lemma overlapsI:
  "x \<in> set xs \<Longrightarrow> y \<in> set xs \<Longrightarrow> x \<noteq> y \<Longrightarrow> segs_overlap (snd x) (snd y) \<Longrightarrow>
   (fst x, fst y) \<in> set (overlaps xs) \<or> (fst y, fst x) \<in> set (overlaps xs)"
  by (induction xs) (auto dest: segs_overlap_length intro: rev_image_eqI segs_overlap_sym, metis (mono_tags, lifting)
      image_eqI mem_Collect_eq segs_overlap_length segs_overlap_sym)

lemma table_overlaps:
  "overlaps table_segs = [(''/api/routes/{id}'', ''/api/routes/health''), (''/admin/tunnels/disconnect'', ''/admin/tunnels/{id}'')]"
  by (simp add: table_segs_eq captures_def starts_with_def)

lemma twins_static: "\<not> list_ex captures (split_char (CHR ''/'') ''/admin/tunnels/disconnect'')"
  "\<not> list_ex captures (split_char (CHR ''/'') ''/api/routes/health'')"
  by code_simp+

lemma route_unique:
  assumes "pat \<in> set (map fst admin_table)" and "pat' \<in> set (map fst admin_table)"
    and "match_path pat path = Some caps" and "match_path pat' path = Some caps'" and "path \<notin> set static_twins"
  shows "pat' = pat"
proof (rule ccontr)
  assume ne: "pat' \<noteq> pat"
  have "segs_overlap (split_char (CHR ''/'') pat) (split_char (CHR ''/'') pat')"
    using match_overlap assms(3,4) unfolding match_path_def by blast
  then have "(pat, pat') \<in> set (overlaps table_segs) \<or> (pat', pat) \<in> set (overlaps table_segs)"
    using overlapsI [of "(pat, split_char (CHR ''/'') pat)" table_segs "(pat', split_char (CHR ''/'') pat')"] assms(1,2) ne
    by (force simp: table_segs_def)
  then have "path \<in> set static_twins"
    using match_path_static [OF assms(3)] match_path_static [OF assms(4)] twins_static
    unfolding table_overlaps static_twins_def by auto
  then show False using assms(5) by blast
qed

lemma lookup_pattern:
  assumes "router_law ax" and "pat \<in> set (map fst admin_table)" and "match_path pat path = Some caps" and "path \<notin> set static_twins"
  shows "ax_lookup ax (map fst admin_table) path = Some (pat, caps)"
proof (cases "ax_lookup ax (map fst admin_table) path")
  case None
  then show ?thesis using assms(1-3) unfolding router_law_def by fastforce
next
  case (Some r)
  obtain pat' caps' where r: "r = (pat', caps')" by fastforce
  have "pat' \<in> set (map fst admin_table)" "match_path pat' path = Some caps'"
    using assms(1) Some r unfolding router_law_def by blast+
  then show ?thesis using route_unique [OF assms(2) _ assms(3) _ assms(4)] assms(3) Some r by fastforce
qed

lemma table_distinct: "distinct (map fst admin_table)"
  by (simp add: admin_table_def)

lemma handlers_distinct: "\<forall>(pat, hs) \<in> set admin_table. distinct (map fst hs)"
  by (simp add: admin_table_def)

lemma ip_filter: "require_admin_ip ai app None =
    (if ip_in_cidr (ai_peer ai) (app_admin_cidrs app) then None
     else Some ((403, TextBody (''Admin access denied from your IP'' @ [LF])), app))"
  by (simp add: require_admin_ip_def)

lemma cors_passes: "cors_law ax \<Longrightarrow> hq_method rq \<noteq> ''OPTIONS'' \<Longrightarrow> ax_cors ax rq = None"
  unfolding cors_law_def by (cases "ax_cors ax rq") auto

lemma dispatch_entry:
  assumes "ax_lookup (aw_axum w) (map fst admin_table) (hq_path rq) = Some (pat, caps)" and "(pat, hs) \<in> set admin_table"
  shows "dispatch w ai rq app =
     (case Option.bind (ax_method (aw_axum w) (map fst hs) (hq_method rq)) (map_of hs) of
        None \<Rightarrow> (Some (ax_no_method (aw_axum w), app), None)
      | Some h \<Rightarrow> run_handler w ai rq caps h app)"
  using assms(1) map_of_is_SomeI [OF table_distinct assms(2)] by (simp add: dispatch_def Let_def)

lemma admin_routed:
  assumes "router_law (aw_axum w)" and "method_law (aw_axum w)" and "cors_law (aw_axum w)"
    and "ip_in_cidr (ai_peer ai) (app_admin_cidrs app)"
    and "(pat, hs) \<in> set admin_table" and "(v, h) \<in> set hs"
    and "match_path pat (hq_path rq) = Some caps" and "hq_method rq = verb_name v" and "hq_path rq \<notin> set static_twins"
  shows "admin_service w ai rq app = run_handler w ai rq caps h app"
proof -
  have "hq_method rq \<noteq> ''OPTIONS''" unfolding assms(8) by (cases v) (simp_all add: verb_name_def)
  then have c: "ax_cors (aw_axum w) rq = None" by (rule cors_passes [OF assms(3)])
  have p: "pat \<in> set (map fst admin_table)" using assms(5) by force
  have "map_of hs v = Some h" using handlers_distinct assms(5,6) by (auto intro!: map_of_is_SomeI)
  moreover have "ax_method (aw_axum w) (map fst hs) (hq_method rq) = Some v"
    unfolding assms(8) using assms(2,6) unfolding method_law_def by force
  ultimately have "dispatch w ai rq app = run_handler w ai rq caps h app"
    using dispatch_entry [OF lookup_pattern [OF assms(1) p assms(7,9)] assms(5)] by simp
  then show ?thesis by (simp add: admin_service_def c ip_filter assms(4))
qed

text \<open>
  Claim C14. Every handler of the table is reached: a request from an allowed address whose path matches a
  pattern of the table and whose method is one of that pattern is served by exactly the handler
  the table names, with the captured parts of the path, unless the path is one of the two that
  are also a pattern without captures.
\<close>

theorem admin_requests_routed:
  assumes "router_law (aw_axum w)" and "method_law (aw_axum w)" and "cors_law (aw_axum w)"
    and "ip_in_cidr (ai_peer ai) (app_admin_cidrs app)"
    and "(pat, hs) \<in> set admin_table" and "(v, h) \<in> set hs"
    and "match_path pat (hq_path rq) = Some caps" and "hq_method rq = verb_name v" and "hq_path rq \<notin> set static_twins"
  shows "admin_service w ai rq app = run_handler w ai rq caps h app"
  using assms by (rule admin_routed)

text \<open>
  A tunnel may be called \<open>disconnect\<close>, and then no request can disconnect it by its name: the path is
  that of the bulk operation, which has no \<open>DELETE\<close>.
\<close>

lemma lookup_static:
  assumes "router_law ax" and "(pat, hs) \<in> set admin_table" and "\<not> list_ex captures (split_char (CHR ''/'') pat)"
  shows "ax_lookup ax (map fst admin_table) pat = Some (pat, [])"
proof -
  have "pat \<in> set (map fst admin_table)" using assms(2) by force
  then show ?thesis using assms(1,3) unfolding router_law_def by blast
qed

lemma disconnect_is_label: "label_ok ''disconnect''"
  by code_simp

theorem tunnel_named_disconnect:
  assumes "router_law (aw_axum w)" and "method_law (aw_axum w)" and "cors_law (aw_axum w)"
    and "ip_in_cidr (ai_peer ai) (app_admin_cidrs app)"
    and "hq_path rq = ''/admin/tunnels/disconnect''" and "hq_method rq = ''DELETE''"
  shows "admin_service w ai rq app = (Some (ax_no_method (aw_axum w), app), None) \<and> label_ok ''disconnect''"
proof -
  let ?hs = "[(POST, H_admin_bulk_disconnect)]"
  have c: "ax_cors (aw_axum w) rq = None" by (rule cors_passes [OF assms(3)]) (simp add: assms(6))
  have t: "(''/admin/tunnels/disconnect'', ?hs) \<in> set admin_table" by (simp add: admin_table_def)
  have "ax_method (aw_axum w) (map fst ?hs) (hq_method rq) = None"
  proof (cases "ax_method (aw_axum w) (map fst ?hs) (hq_method rq)")
    case (Some v)
    then have "v \<in> set (map fst ?hs) \<and> (hq_method rq = verb_name v \<or> hq_method rq = ''HEAD'' \<and> v = GET)"
      using assms(2) unfolding method_law_def by blast
    then show ?thesis by (auto simp: assms(6) verb_name_def)
  qed
  then have "dispatch w ai rq app = (Some (ax_no_method (aw_axum w), app), None)"
    using dispatch_entry [OF lookup_static [OF assms(1) t twins_static(1), folded assms(5)] t [folded assms(5)]] by simp
  then show ?thesis by (simp add: admin_service_def c ip_filter assms(4) disconnect_is_label)
qed

lemma label_in_path:
  assumes "label_ok i"
  shows "match_path ''/admin/tunnels/{id}'' (''/admin/tunnels/'' @ i) = Some [i] \<and> CHR ''%'' \<notin> set i"
proof -
  have c: "is_ascii_alphanumeric c \<or> c = CHR ''-''" if "c \<in> set i" for c using assms that by (simp add: label_ok_def)
  have "\<not> is_ascii_alphanumeric (CHR ''/'')" "\<not> is_ascii_alphanumeric (CHR ''%'')" by code_simp+
  then have "CHR ''/'' \<notin> set i" "CHR ''%'' \<notin> set i" using c by fastforce+
  moreover have "i \<noteq> []" using assms by (auto simp: label_ok_def)
  ultimately show ?thesis by (simp add: match_path_def split_char_absent captures_def starts_with_def)
qed

text \<open>
  An admin can disconnect any other tunnel by its name: \<open>DELETE /admin/tunnels/\<close> and the name, with
  the token and from an allowed address, is answered 204 and tells the task of the tunnel to stop;
  the entry stays in the map until the task has cleaned up.
\<close>

theorem admin_delete_disconnects:
  assumes "router_law (aw_axum w)" and "method_law (aw_axum w)" and "cors_law (aw_axum w)" and "path_law (aw_axum w)"
    and "ip_in_cidr (ai_peer ai) (app_admin_cidrs app)"
    and "check_admin_auth (ct_eq_impl (app_ctx app)) (ai_headers ai) (admin_token app) = None"
    and "lookup_tunnel i app = Some e" and "te_disconnect_tx e" and "label_ok i" and "i \<noteq> ''disconnect''"
    and "hq_method rq = ''DELETE''" and "hq_path rq = ''/admin/tunnels/'' @ i"
  shows "\<exists>app'. admin_service w ai rq app = (Some (no_content, app'), None) \<and> te_conn e \<in> signalled (app_relay app')
    \<and> map fst (tunnels (app_relay app')) = map fst (tunnels (app_relay app))"
proof -
  have t: "(''/admin/tunnels/{id}'', [(DELETE, H_admin_disconnect_tunnel)]) \<in> set admin_table" by (simp add: admin_table_def)
  have m: "match_path ''/admin/tunnels/{id}'' (hq_path rq) = Some [i]" "CHR ''%'' \<notin> set i"
    using label_in_path [OF assms(9)] assms(12) by simp_all
  have d: "hq_method rq = verb_name DELETE" by (simp add: assms(11) verb_name_def)
  have s: "hq_path rq \<notin> set static_twins" using assms(10,12) by (simp add: static_twins_def)
  have p: "ax_path1 (aw_axum w) [i] = Inr i" using assms(4) m(2) by (simp add: path_law_def)
  have "admin_service w ai rq app = (Some (admin_disconnect_tunnel ai i app), None)"
    using admin_routed [OF assms(1-3,5) t _ m(1) d s] p by (simp add: run_handler_def extracted_def)
  then show ?thesis
    by (simp add: admin_disconnect_tunnel_def with_auth_pass [OF assms(6)] with_tunnel_def assms(7,8) upd_relay_def disconnect_with_effect
        upd_entry_cut_off cut_off_def comp_def)
qed

section \<open>Guards of the port\<close>

lemma service_cases:
  assumes "admin_service w ai rq app = (res, sent)"
  obtains (answered) r where "res = Some (r, app)" and "sent = None"
  | (called) pat hs v h caps call where "ip_in_cidr (ai_peer ai) (app_admin_cidrs app)" and "ax_cors (aw_axum w) rq = None"
      and "(pat, hs) \<in> set admin_table" and "ax_method (aw_axum w) (map fst hs) (hq_method rq) = Some v"
      and "map_of hs v = Some h" and "extract_args (aw_axum w) (ai_headers ai) rq caps h = Inr call"
      and "run_call w ai call app = (res, sent)"
proof (cases "ax_cors (aw_axum w) rq = None \<and> ip_in_cidr (ai_peer ai) (app_admin_cidrs app)")
  case False
  then have "\<exists>r. res = Some (r, app) \<and> sent = None"
    using assms by (auto simp: admin_service_def ip_filter split: option.splits)
  then show thesis using answered by blast
next
  case True
  then have d: "dispatch w ai rq app = (res, sent)" using assms by (simp add: admin_service_def ip_filter)
  show thesis
  proof (cases "\<exists>pat caps hs v h. ax_lookup (aw_axum w) (map fst admin_table) (hq_path rq) = Some (pat, caps)
      \<and> map_of admin_table pat = Some hs \<and> ax_method (aw_axum w) (map fst hs) (hq_method rq) = Some v \<and> map_of hs v = Some h")
    case False
    then have "res = Some (ax_no_route (aw_axum w), app) \<and> sent = None \<or> res = Some (ax_no_method (aw_axum w), app) \<and> sent = None"
      using d by (auto simp: dispatch_def Let_def split: option.splits Option.bind_splits)
    then show thesis using answered by metis
  next
    case handled: True
    then obtain pat caps hs v h where h: "ax_lookup (aw_axum w) (map fst admin_table) (hq_path rq) = Some (pat, caps)"
      "(pat, hs) \<in> set admin_table" "ax_method (aw_axum w) (map fst hs) (hq_method rq) = Some v" "map_of hs v = Some h" using map_of_SomeD by metis
    then have "run_handler w ai rq caps h app = (res, sent)" using d dispatch_entry [OF h(1,2)] by simp
    then show thesis using h(2-4) True answered called unfolding run_handler_def
      by (cases "extract_args (aw_axum w) (ai_headers ai) rq caps h") (auto simp: Let_def)
  qed
qed

text \<open>The handlers of \<open>GET\<close> only read.\<close>

fun read_only :: "admin_call \<Rightarrow> bool" where
  "read_only ServeUi = True"
| "read_only MetricsPage = True"
| "read_only (Cf op) = True"
| "read_only (Api req) = (case req of
     Health \<Rightarrow> True | Ready \<Rightarrow> True | ListRoutes \<Rightarrow> True | ListTunnels \<Rightarrow> True | GetTunnel _ \<Rightarrow> True | GetDdos _ \<Rightarrow> True
   | GetRequests _ _ \<Rightarrow> True | GetStatsHistory \<Rightarrow> True | TunnelStats _ \<Rightarrow> True | AuditQuery _ _ \<Rightarrow> True
   | ListCustomDomains \<Rightarrow> True | ListBackends _ \<Rightarrow> True | GetLogs \<Rightarrow> True | HealthRoutes \<Rightarrow> True | GetStatus \<Rightarrow> True
   | GetSettings \<Rightarrow> True | _ \<Rightarrow> False)"

lemma extracted_InrE: "extracted r k = Inr y \<Longrightarrow> (\<And>x. r = Inr x \<Longrightarrow> k x = Inr y \<Longrightarrow> P) \<Longrightarrow> P"
  by (cases r) (simp_all add: extracted_def)

lemma get_handlers_read:
  assumes "(pat, hs) \<in> set admin_table" and "map_of hs GET = Some h" and "extract_args ax hdrs rq caps h = Inr call"
  shows "read_only call"
proof -
  have "h \<in> {H_serve_ui, H_health_check, H_ready_check, H_metrics_handler, H_list_routes, H_list_seamless_tunnels,
      H_get_seamless_tunnel, H_get_ddos_config, H_get_tunnel_requests, H_stats_history_handler, H_admin_tunnel_stats,
      H_admin_audit_query, H_list_custom_domains, H_list_backends, H_get_logs, H_health_routes, H_get_status, H_get_settings,
      H_cf_list_tunnels, H_cf_tunnel_token, H_cf_list_zones, H_cf_list_dns}"
    using assms(1,2) unfolding admin_table_def by auto
  then show ?thesis using assms(3) by (auto elim!: extracted_InrE)
qed

lemmas read_defs = health_check_def ready_check_def list_seamless_tunnels_def get_seamless_tunnel_def get_ddos_config_def
  get_tunnel_requests_def stats_history_handler_def admin_tunnel_stats_def admin_audit_query_def list_custom_domains_def
  list_backends_def get_logs_def health_routes_def get_status_def

lemma read_only_same:
  assumes "read_only call" and "run_call w ai call app = (Some (resp, app'), sent)"
  shows "app' = app"
proof (cases call)
  case (Api req)
  then show ?thesis using assms
    by (cases req) (auto simp: read_defs with_auth_def with_tunnel_def ok_json_def Let_def split: option.splits)
qed (use assms in \<open>auto simp: metrics_handler_def split: prod.splits\<close>)

lemma call_without_token:
  assumes "check_admin_auth (ct_eq_impl (app_ctx app)) (ai_headers ai) (admin_token app) = Some deny"
    and "run_call w ai call app = (Some (resp, app'), sent)"
  shows "app_relay app' = app_relay app"
proof (cases call)
  case (Api req)
  then have r: "admin_route ai req app = Some (resp, app')" using assms(2) by simp
  show ?thesis
    using admin_route_denied [OF assms(1), of req] token_free_relay [OF _ r] r by (cases "token_free req") auto
qed (use assms(2) in \<open>auto simp: metrics_handler_def split: prod.splits\<close>)


text \<open>Every request to the port keeps what the invariants of the relay need.\<close>

lemma quiet_admin_service:
  assumes "admin_service w ai rq app = (Some (resp, app'), sent)"
  shows "quiet app app'"
  using assms
proof (cases rule: service_cases)
  case (called pat hs v h caps call)
  then show ?thesis
    by (cases call) (auto simp: metrics_handler_def split: prod.splits dest: quiet_admin_route)
qed simp

section \<open>A server\<close>

definition demo_lookup :: "string list \<Rightarrow> string \<Rightarrow> (string \<times> string list) option" where
  "demo_lookup pats path =
     (if path \<in> set pats \<and> \<not> list_ex captures (split_char (CHR ''/'') path) then Some (path, [])
      else case find (\<lambda>pat. match_path pat path \<noteq> None) pats of
             None \<Rightarrow> None | Some pat \<Rightarrow> map_option (Pair pat) (match_path pat path))"

definition demo_method :: "http_verb list \<Rightarrow> string \<Rightarrow> http_verb option" where
  "demo_method vs m =
     (case find (\<lambda>v. verb_name v = m) vs of
        Some v \<Rightarrow> Some v
      | None \<Rightarrow> if m = ''HEAD'' \<and> GET \<in> set vs then Some GET else None)"

definition rejects :: "'a extractor" where
  "rejects hs rq = Inl (415, NoBody)"

definition demo_axum :: Axum where
  "demo_axum = \<lparr>ax_lookup = demo_lookup, ax_method = demo_method,
     ax_cors = (\<lambda>rq. if hq_method rq = ''OPTIONS'' then Some (200, NoBody) else None),
     ax_no_route = (404, NoBody), ax_no_method = (405, NoBody),
     ax_path1 = (\<lambda>caps. case caps of [s] \<Rightarrow> Inr s | _ \<Rightarrow> Inl (500, NoBody)),
     ax_path2 = (\<lambda>caps. case caps of [s, t] \<Rightarrow> Inr (s, t) | _ \<Rightarrow> Inl (500, NoBody)),
     ax_RouteReq = rejects, ax_DdosConfigReq = rejects, ax_BulkDisconnectReq = rejects, ax_SetCustomDomainReq = rejects,
     ax_AddBackendReq = rejects, ax_SaveSettingsReq = rejects, ax_CreateTunnelReq = rejects, ax_CreateDnsRecord = rejects,
     ax_RequestLogParams = rejects, ax_AuditQueryParams = rejects\<rparr>"

definition demo_world :: AdminWorld where
  "demo_world = \<lparr>aw_axum = demo_axum, aw_UI_HTML = ''<html>'', aw_cf_api = (\<lambda>_. None), aw_cf_secret = [], aw_pt_active = 0\<rparr>"

lemma match_segs_self: "\<not> list_ex captures ps \<Longrightarrow> match_segs ps ps = Some []"
  by (induction ps) auto

lemma match_path_self: "\<not> list_ex captures (split_char (CHR ''/'') pat) \<Longrightarrow> match_path pat pat = Some []"
  by (simp add: match_path_def match_segs_self)

lemma demo_router: "router_law demo_axum"
  unfolding router_law_def
proof (intro conjI allI impI)
  fix pats path pat caps
  assume l: "ax_lookup demo_axum pats path = Some (pat, caps)"
  then show "pat \<in> set pats" "match_path pat path = Some caps"
    by (auto simp: demo_axum_def demo_lookup_def find_Some_iff match_path_self
        split: if_splits option.splits)
next
  fix pats path pat
  assume "ax_lookup demo_axum pats path = None" "pat \<in> set pats"
  then show "match_path pat path = None"
    by (auto simp: demo_axum_def demo_lookup_def find_None_iff find_Some_iff split: if_splits option.splits)
qed (simp add: demo_axum_def demo_lookup_def)

lemma verb_name_inj [simp]: "verb_name v = verb_name v' \<longleftrightarrow> v = v'"
  by (cases v; cases v') (simp_all add: verb_name_def)

lemma demo_methods: "method_law demo_axum"
  by (auto simp: method_law_def demo_axum_def demo_method_def find_None_iff find_Some_iff split: option.splits if_splits)

lemma demo_cors: "cors_law demo_axum"
  by (simp add: cors_law_def demo_axum_def)

definition demo_http_req :: "string \<Rightarrow> string \<Rightarrow> http_req" where
  "demo_http_req m path = \<lparr>hq_method = m, hq_path = path, hq_query = [], hq_body = []\<rparr>"

theorem admin_requests_routed_witness:
  "admin_service demo_world (demo_admin [(''authorization'', ''Bearer secret'')]) (demo_http_req ''DELETE'' ''/admin/tunnels/web'')
     (demo_app demo_tunnel_state)
   = (admin_route (demo_admin [(''authorization'', ''Bearer secret'')]) (DisconnectTunnel ''web'') (demo_app demo_tunnel_state), None)"
proof -
  let ?w = demo_world and ?ai = "demo_admin [(''authorization'', ''Bearer secret'')]"
    and ?rq = "demo_http_req ''DELETE'' ''/admin/tunnels/web''" and ?app = "demo_app demo_tunnel_state"
  have w: "aw_axum ?w = demo_axum" by (simp add: demo_world_def)
  have ip: "ip_in_cidr (ai_peer ?ai) (app_admin_cidrs ?app)" by (simp add: demo_cidrs ip_in_cidr_def)
  have t: "(''/admin/tunnels/{id}'', [(DELETE, H_admin_disconnect_tunnel)]) \<in> set admin_table" by (simp add: admin_table_def)
  have m: "match_path ''/admin/tunnels/{id}'' (hq_path ?rq) = Some [''web'']" unfolding demo_http_req_def by code_simp
  have d: "hq_method ?rq = verb_name DELETE" by (simp add: demo_http_req_def verb_name_def)
  have s: "hq_path ?rq \<notin> set static_twins" by (simp add: demo_http_req_def static_twins_def)
  show ?thesis
    using admin_requests_routed [of ?w, unfolded w, OF demo_router demo_methods demo_cors ip t _ m d s]
    by (simp add: run_handler_def w extracted_def demo_axum_def)
qed


theorem admin_delete_disconnects_witness:
  "\<exists>app'. admin_service demo_world (demo_admin [(''authorization'', ''Bearer secret'')]) (demo_http_req ''DELETE'' ''/admin/tunnels/web'')
     (demo_app demo_tunnel_state) = (Some (no_content, app'), None) \<and> 1 \<in> signalled (app_relay app')"
proof -
  let ?w = demo_world and ?ai = "demo_admin [(''authorization'', ''Bearer secret'')]"
    and ?rq = "demo_http_req ''DELETE'' ''/admin/tunnels/web''" and ?app = "demo_app demo_tunnel_state"
    and ?e = "new_entry (demo_input 1 ''web'') ''web''"
  have w: "aw_axum ?w = demo_axum" by (simp add: demo_world_def)
  have p: "path_law demo_axum" by (simp add: path_law_def demo_axum_def)
  have ip: "ip_in_cidr (ai_peer ?ai) (app_admin_cidrs ?app)" by (simp add: demo_cidrs ip_in_cidr_def)
  have l: "lookup_tunnel ''web'' ?app = Some ?e" by (simp add: lookup_tunnel_def demo_tunnels)
  have e: "te_disconnect_tx ?e" "te_conn ?e = 1" by (simp_all add: new_entry_def demo_input_def)
  have n: "label_ok ''web''" using demo_name_allowed(1) by (simp add: name_allowed_def)
  have rq: "hq_method ?rq = ''DELETE''" "hq_path ?rq = ''/admin/tunnels/'' @ ''web''" by (simp_all add: demo_http_req_def)
  show ?thesis
    using admin_delete_disconnects [of ?w, unfolded w, OF demo_router demo_methods demo_cors p ip demo_auth l e(1) n _ rq] e(2) by auto
qed

end
