(* ===== verification/Relay_Run.thy ===== *)
theory Relay_Run
  imports Relay_System Tcp_Tunnel Admin_Router
begin

text \<open>
  The running relay: all tasks of the process over their shared state, with the tasks that serve
  open tunnels and those that forward passthrough connections as part of it. A step is one turn of
  one task, between two points where it waits.

  The relay implements a registry: a map from names to connections in which a name is given only
  to an admitted connection and only when it is free.
\<close>

section \<open>State and steps\<close>

text \<open>
  \<open>rr_sessions\<close> are the tasks in the loops of \<open>serve_http\<close> and \<open>serve_tcp\<close>. \<open>rr_lost\<close> lists the
  entries whose \<open>Registered\<close> reply could not be written: nothing serves them. \<open>rr_used\<close> holds the
  numbers given to connections so far.
\<close>

record relay_run =
  rr_app :: AppState
  rr_pend :: "(ConnInput \<times> TunnelKind) list"
  rr_copies :: "copy list"
  rr_sessions :: "session list"
  rr_lost :: "(string \<times> nat) list"
  rr_used :: "nat set"
  rr_pt_active :: u64
  rr_pt_tasks :: "pt_task list"

definition sys_of :: "relay_run \<Rightarrow> relay_sys" where
  "sys_of r = (rr_app r, rr_pend r, rr_copies r)"

abbreviation ctx_of :: "relay_run \<Rightarrow> ConnCtx" where
  "ctx_of r \<equiv> app_ctx (rr_app r)"

abbreviation st_of :: "relay_run \<Rightarrow> RelayState" where
  "st_of r \<equiv> app_relay (rr_app r)"

definition set_st :: "RelayState \<Rightarrow> relay_run \<Rightarrow> relay_run" where
  "set_st st r = r\<lparr>rr_app := (rr_app r)\<lparr>app_relay := st\<rparr>\<rparr>"

text \<open>SIGHUP reloads what the connections share behind their locks.\<close>

definition sighup_app :: "(string \<Rightarrow> string option) \<Rightarrow> AppState \<Rightarrow> AppState" where
  "sighup_app read_to_string app =
     (let ctx = app_ctx app;
          new = sighup read_to_string (auth_file app)
                  \<lparr>r_auth = auth ctx, r_blocklist = blocklist ctx, r_denylist = ip_denylist ctx\<rparr>
      in app\<lparr>app_ctx := ctx\<lparr>auth := r_auth new, blocklist := r_blocklist new, ip_denylist := r_denylist new\<rparr>\<rparr>)"

text \<open>A registration that fails at its reply leaves the entry of an HTTP tunnel behind.\<close>

definition lost_entry :: "ConnCtx \<Rightarrow> ConnInput \<Rightarrow> TunnelKind \<Rightarrow> ConnError + session \<Rightarrow> (string \<times> nat) list" where
  "lost_entry ctx ci kind r =
     (case (r, kind) of
        (Inl ReplyFailed, Http subdomain) \<Rightarrow> [(chosen_name ctx ci subdomain, ci_conn ci)]
      | _ \<Rightarrow> [])"

text \<open>
  The operating system does not grant a port that a listener of the relay holds.
\<close>

definition os_bind_law :: "(u16 \<Rightarrow> bool) \<Rightarrow> session list \<Rightarrow> bool" where
  "os_bind_law os_bind ss \<longleftrightarrow> (\<forall>s \<in> set ss. \<forall>p. s_port s = Some p \<longrightarrow> \<not> os_bind p)"

definition health_tick :: "string \<Rightarrow> TunnelEntry \<Rightarrow> BackendEntry list \<Rightarrow> AppState \<Rightarrow> AppState" where
  "health_tick key e bs app = upd_relay (upd_entry key (te_conn e) (\<lambda>e. e\<lparr>te_backends := bs\<rparr>)) app"

inductive run_step :: "nat \<Rightarrow> relay_run \<Rightarrow> relay_run \<Rightarrow> bool" for K where
  run_admit: "admit (ctx_of r) ci (st_of r) = (Inr kind, out, st') \<Longrightarrow> gen_range_law (ci_gen ci) \<Longrightarrow>
    length (rr_pend r) < K \<Longrightarrow> ci_conn ci \<notin> rr_used r \<Longrightarrow>
    run_step K r ((set_st st' r)\<lparr>rr_pend := rr_pend r @ [(ci, kind)], rr_used := insert (ci_conn ci) (rr_used r)\<rparr>)"
| run_refuse: "admit (ctx_of r) ci (st_of r) = (Inl e, out, st') \<Longrightarrow> run_step K r (set_st st' r)"
| run_open: "rr_pend r = xs @ (ci, kind) # ys \<Longrightarrow> os_bind_law (ci_bind ci) (rr_sessions r) \<Longrightarrow>
    open_kind (ctx_of r) ci kind (st_of r) = (res, out, st') \<Longrightarrow>
    run_step K r ((set_st st' r)\<lparr>rr_pend := xs @ ys,
      rr_sessions := (case res of Inr s \<Rightarrow> s # rr_sessions r | Inl _ \<Rightarrow> rr_sessions r),
      rr_lost := lost_entry (ctx_of r) ci kind res @ rr_lost r\<rparr>)"
| run_close: "s \<in> set (rr_sessions r) \<Longrightarrow>
    run_step K r ((set_st (close_session (ctx_of r) s timeout now bi bo (st_of r)) r)\<lparr>rr_sessions := remove1 s (rr_sessions r)\<rparr>)"
| run_expire: "tunnel_max_age (rr_app r) > 0 \<Longrightarrow>
    run_step K r (set_st (expire_tick (tunnel_max_age (rr_app r)) now (st_of r)) r)"
| run_sigterm: "run_step K r (set_st (sigterm (st_of r)) r)"
| run_sighup: "run_step K r (r\<lparr>rr_app := sighup_app read_to_string (rr_app r)\<rparr>)"
| run_request: "route_http hi (rr_app r) = (res, app') \<Longrightarrow>
    run_step K r (r\<lparr>rr_app := app', rr_copies := copies_of res @ rr_copies r\<rparr>)"
| run_copied: "rr_copies r = xs @ c # ys \<Longrightarrow>
    run_step K r (r\<lparr>rr_app := finish_copy result now unix c (rr_app r), rr_copies := xs @ ys\<rparr>)"
| run_tcp_head: "forward_head key conn peer already_read frame_ok head_ok (st_of r) = (res, st') \<Longrightarrow>
    run_step K r (set_st st' r)"
| run_tcp_copied: "run_step K r (set_st (forward_finish key conn result (st_of r)) r)"
| run_admin: "admin_service w ai rq (rr_app r) = (Some (resp, app'), sent) \<Longrightarrow> run_step K r (r\<lparr>rr_app := app'\<rparr>)"
| run_passthrough: "pt_step ((rr_app r, rr_pt_active r), rr_pt_tasks r) ((app', n'), tasks') \<Longrightarrow>
    run_step K r (r\<lparr>rr_app := app', rr_pt_active := n', rr_pt_tasks := tasks'\<rparr>)"
| run_health: "lookup_tunnel key (rr_app r) = Some e \<Longrightarrow> health_round tcp_health_check (counts, te_backends e) = Some (counts', bs) \<Longrightarrow>
    run_step K r (r\<lparr>rr_app := health_tick key e bs (rr_app r)\<rparr>)"
| run_stats: "run_step K r (r\<lparr>rr_app := stats_tick unix (rr_app r)\<rparr>)"

text \<open>The relay after start-up.\<close>

definition run_init :: "AppState \<Rightarrow> relay_run" where
  "run_init app = \<lparr>rr_app = app, rr_pend = [], rr_copies = [], rr_sessions = [], rr_lost = [], rr_used = {},
     rr_pt_active = 0, rr_pt_tasks = []\<rparr>"

section \<open>Who owns a name\<close>

definition owner :: "RelayState \<Rightarrow> string \<Rightarrow> nat option" where
  "owner st k = map_option te_conn (map_of (tunnels st) k)"

text \<open>
  Tunnel map and tasks agree: an entry belongs to the task that opened it, or was lost at its
  reply; a task that has no entry any more has been told to stop; a task of a TCP tunnel holds its
  port, and no two hold the same.
\<close>

definition sessions_ok :: "(string \<Rightarrow> nat option) \<Rightarrow> nat set \<Rightarrow> u16 set \<Rightarrow> session list \<Rightarrow> (string \<times> nat) list \<Rightarrow> bool" where
  "sessions_ok own sig ports ss lost \<longleftrightarrow>
     (\<forall>k c. own k = Some c \<longrightarrow> (k, c) \<in> set lost \<or> (\<exists>s \<in> set ss. s_key s = k \<and> s_conn s = c))
     \<and> (\<forall>s \<in> set ss. own (s_key s) = Some (s_conn s) \<or> s_conn s \<in> sig)
     \<and> (\<forall>s \<in> set ss. case s_port s of None \<Rightarrow> CHR '':'' \<notin> set (s_key s) | Some p \<Rightarrow> s_key s = tcp_key p \<and> p \<in> ports)
     \<and> (\<forall>s \<in> set ss. \<forall>t \<in> set ss. \<forall>p. s_port s = Some p \<and> s_port t = Some p \<longrightarrow> s = t)
     \<and> (\<forall>(k, c) \<in> set lost. CHR '':'' \<notin> set k)"

lemma sessions_okD:
  assumes "sessions_ok own sig ports ss lost"
  shows "own k = Some c \<Longrightarrow> (k, c) \<in> set lost \<or> (\<exists>s \<in> set ss. s_key s = k \<and> s_conn s = c)"
    and "s \<in> set ss \<Longrightarrow> own (s_key s) = Some (s_conn s) \<or> s_conn s \<in> sig"
    and "s \<in> set ss \<Longrightarrow> s_port s = None \<Longrightarrow> CHR '':'' \<notin> set (s_key s)"
    and "s \<in> set ss \<Longrightarrow> s_port s = Some p \<Longrightarrow> s_key s = tcp_key p \<and> p \<in> ports"
    and "s \<in> set ss \<Longrightarrow> t \<in> set ss \<Longrightarrow> s_port s = Some p \<Longrightarrow> s_port t = Some p \<Longrightarrow> s = t"
    and "(k, c) \<in> set lost \<Longrightarrow> CHR '':'' \<notin> set k"
  using assms by (auto simp: sessions_ok_def split: option.splits)

lemma sessions_okI:
  assumes "\<And>k c. own k = Some c \<Longrightarrow> (k, c) \<in> set lost \<or> (\<exists>s \<in> set ss. s_key s = k \<and> s_conn s = c)"
    and "\<And>s. s \<in> set ss \<Longrightarrow> own (s_key s) = Some (s_conn s) \<or> s_conn s \<in> sig"
    and "\<And>s. s \<in> set ss \<Longrightarrow> s_port s = None \<Longrightarrow> CHR '':'' \<notin> set (s_key s)"
    and "\<And>s p. s \<in> set ss \<Longrightarrow> s_port s = Some p \<Longrightarrow> s_key s = tcp_key p \<and> p \<in> ports"
    and "\<And>s t p. s \<in> set ss \<Longrightarrow> t \<in> set ss \<Longrightarrow> s_port s = Some p \<Longrightarrow> s_port t = Some p \<Longrightarrow> s = t"
    and "\<And>k c. (k, c) \<in> set lost \<Longrightarrow> CHR '':'' \<notin> set k"
  shows "sessions_ok own sig ports ss lost"
  unfolding sessions_ok_def using assms by (auto split: option.splits)

text \<open>Names may be released, provided the task that loses its entry is told.\<close>

lemma sessions_ok_release:
  assumes "sessions_ok own sig ports ss lost" and "\<And>k. own' k = own k \<or> own' k = None \<and> set_option (own k) \<subseteq> sig'"
    and "sig \<subseteq> sig'" and "ports \<subseteq> ports'"
  shows "sessions_ok own' sig' ports' ss lost"
proof -
  have "own' (s_key s) = Some (s_conn s) \<or> s_conn s \<in> sig'" if "s \<in> set ss" for s
    using sessions_okD(2) [OF assms(1) that] assms(2) [of "s_key s"] assms(3) by auto
  moreover have "own k = Some c" if "own' k = Some c" for k c using assms(2) [of k] that by auto
  ultimately show ?thesis using assms(1,4) by (auto simp: sessions_ok_def split: option.splits)
qed

lemma sessions_ok_end:
  assumes "sessions_ok own sig ports ss lost" and "s \<in> set ss" and "own (s_key s) = None" and "distinct ss"
    and "case s_port s of None \<Rightarrow> ports \<subseteq> ports' | Some p \<Rightarrow> ports - {p} \<subseteq> ports'"
  shows "sessions_ok own sig ports' (remove1 s ss) lost"
proof -
  have in_ss: "t \<in> set ss \<and> t \<noteq> s" if "t \<in> set (remove1 s ss)" for t using that assms(4) by simp
  note D = sessions_okD [OF assms(1)]
  have p: "p \<in> ports'" if "t \<in> set (remove1 s ss)" "s_port t = Some p" for t p
    using in_ss [OF that(1)] D(4) [OF _ that(2)] D(5) [OF assms(2) _ _ that(2)] assms(5)
    by (auto split: option.splits)
  show ?thesis
  proof (rule sessions_okI)
    show "(k, c) \<in> set lost \<or> (\<exists>t \<in> set (remove1 s ss). s_key t = k \<and> s_conn t = c)" if "own k = Some c" for k c
      using D(1) [OF that] assms(3) that by (metis in_set_remove1 option.distinct(1))
    show "own (s_key t) = Some (s_conn t) \<or> s_conn t \<in> sig" if "t \<in> set (remove1 s ss)" for t
      using in_ss [OF that] D(2) by blast
    show "CHR '':'' \<notin> set (s_key t)" if "t \<in> set (remove1 s ss)" "s_port t = None" for t
      using in_ss [OF that(1)] D(3) that(2) by blast
    show "s_key t = tcp_key q \<and> q \<in> ports'" if "t \<in> set (remove1 s ss)" "s_port t = Some q" for t q
      using in_ss [OF that(1)] D(4) that(2) p [OF that] by blast
    show "t = u" if "t \<in> set (remove1 s ss)" "u \<in> set (remove1 s ss)" "s_port t = Some q" "s_port u = Some q" for t u q
      using in_ss [OF that(1)] in_ss [OF that(2)] D(5) that(3,4) by blast
  qed (rule D(6))
qed

text \<open>A name that is free may be given away.\<close>

lemma sessions_ok_claim:
  assumes "sessions_ok own sig ports ss lost" and "own k = None" and "sig \<subseteq> sig'"
  shows "\<lbrakk>s_key s = k; s_conn s = c; s_port s = None; CHR '':'' \<notin> set k; ports \<subseteq> ports'\<rbrakk> \<Longrightarrow>
      sessions_ok (own(k \<mapsto> c)) sig' ports' (s # ss) lost"
    and "\<lbrakk>s_key s = k; s_conn s = c; s_port s = Some p; k = tcp_key p; \<forall>t \<in> set ss. s_port t \<noteq> Some p;
      insert p ports \<subseteq> ports'\<rbrakk> \<Longrightarrow> sessions_ok (own(k \<mapsto> c)) sig' ports' (s # ss) lost"
    and "\<lbrakk>CHR '':'' \<notin> set k; ports \<subseteq> ports'\<rbrakk> \<Longrightarrow> sessions_ok (own(k \<mapsto> c)) sig' ports' ss ((k, c) # lost)"
proof -
  note D = sessions_okD [OF assms(1)]
  have told: "t \<in> set ss \<Longrightarrow> (own(k \<mapsto> c)) (s_key t) = Some (s_conn t) \<or> s_conn t \<in> sig'" for t
    using D(2) [of t] assms(2,3) by auto
  have kept: "(own(k \<mapsto> c)) k' = Some c' \<Longrightarrow> k' \<noteq> k \<Longrightarrow> (k', c') \<in> set lost \<or> (\<exists>s \<in> set ss. s_key s = k' \<and> s_conn s = c')" for k' c'
    using D(1) by auto
  have mine: "(own(k \<mapsto> c)) k = Some c' \<Longrightarrow> c' = c" for c' by simp
  show "sessions_ok (own(k \<mapsto> c)) sig' ports' (s # ss) lost"
    if "s_key s = k" "s_conn s = c" "s_port s = None" "CHR '':'' \<notin> set k" "ports \<subseteq> ports'"
  proof (rule sessions_okI)
    show "(k', c') \<in> set lost \<or> (\<exists>s \<in> set (s # ss). s_key s = k' \<and> s_conn s = c')" if "(own(k \<mapsto> c)) k' = Some c'" for k' c'
      using kept [OF that] mine [of c'] that \<open>s_key s = k\<close> \<open>s_conn s = c\<close> by (cases "k' = k") auto
    show "(own(k \<mapsto> c)) (s_key t) = Some (s_conn t) \<or> s_conn t \<in> sig'" if "t \<in> set (s # ss)" for t
      using told [of t] that \<open>s_key s = k\<close> \<open>s_conn s = c\<close> by auto
  qed (use that D in \<open>auto split: if_splits\<close>)
  show "sessions_ok (own(k \<mapsto> c)) sig' ports' (s # ss) lost"
    if "s_key s = k" "s_conn s = c" "s_port s = Some p" "k = tcp_key p" "\<forall>t \<in> set ss. s_port t \<noteq> Some p" "insert p ports \<subseteq> ports'"
  proof (rule sessions_okI)
    show "(k', c') \<in> set lost \<or> (\<exists>s \<in> set (s # ss). s_key s = k' \<and> s_conn s = c')" if "(own(k \<mapsto> c)) k' = Some c'" for k' c'
      using kept [OF that] mine [of c'] that \<open>s_key s = k\<close> \<open>s_conn s = c\<close> by (cases "k' = k") auto
    show "(own(k \<mapsto> c)) (s_key t) = Some (s_conn t) \<or> s_conn t \<in> sig'" if "t \<in> set (s # ss)" for t
      using told [of t] that \<open>s_key s = k\<close> \<open>s_conn s = c\<close> by auto
  qed (use that D in \<open>auto split: if_splits\<close>)
  show "sessions_ok (own(k \<mapsto> c)) sig' ports' ss ((k, c) # lost)" if "CHR '':'' \<notin> set k" "ports \<subseteq> ports'"
  proof (rule sessions_okI)
    show "(k', c') \<in> set ((k, c) # lost) \<or> (\<exists>s \<in> set ss. s_key s = k' \<and> s_conn s = c')" if "(own(k \<mapsto> c)) k' = Some c'" for k' c'
      using kept [OF that] mine [of c'] that by (cases "k' = k") auto
    show "(own(k \<mapsto> c)) (s_key t) = Some (s_conn t) \<or> s_conn t \<in> sig'" if "t \<in> set ss" for t
      using told [OF that] .
  qed (use that D in \<open>auto\<close>)
qed

section \<open>Effects of the steps on the map\<close>

lemma owner_insert: "tunnels st' = AList.update k e (tunnels st) \<Longrightarrow> owner st' = (owner st)(k \<mapsto> te_conn e)"
  by (auto simp: owner_def fun_eq_iff update_conv')

lemma owner_remove: "owner (tunnels_remove k st) = (owner st)(k := None)"
  by (auto simp: owner_def fun_eq_iff delete_conv')

lemma signalled_remove: "signalled (tunnels_remove k st) = signalled st \<union> set_option (owner st k)"
  by (auto simp: tunnels_remove_def owner_def split: option.splits)

lemma edits_owner: "edits st st' \<Longrightarrow> owner st' = owner st"
proof -
  assume "edits st st'"
  then obtain f where f: "\<forall>k e. same_tunnel e (f k e)" "tunnels st' = map (\<lambda>(k, e). (k, f k e)) (tunnels st)"
    unfolding edits_def by blast
  have "map_option te_conn (map_of (map (\<lambda>(k, e). (k, f k e)) m) k) = map_option te_conn (map_of m k)" for m k
    using f(1) by (induction m) (auto simp: same_tunnel_def)
  then show ?thesis by (simp add: owner_def fun_eq_iff f(2))
qed

lemma removes_release:
  "let st' = fold (\<lambda>(key, e). tunnels_remove key) xs st in
     (\<forall>k. owner st' k = owner st k \<or> owner st' k = None \<and> set_option (owner st k) \<subseteq> signalled st')
     \<and> signalled st \<subseteq> signalled st' \<and> tcp_ports st' = tcp_ports st"
proof (induction xs arbitrary: st)
  case Nil
  then show ?case by simp
next
  case (Cons x xs)
  obtain k e where x: "x = (k, e)" by (cases x)
  let ?st = "tunnels_remove k st"
  show ?case
    using Cons.IH [of ?st] unfolding Let_def x fold_simps prod.case comp_apply owner_remove signalled_remove
    by (auto split: if_splits)
qed

lemma removes_sessions:
  assumes "sessions_ok (owner st) (signalled st) (tcp_ports st) ss lost" and "st' = fold (\<lambda>(key, e). tunnels_remove key) xs st"
  shows "sessions_ok (owner st') (signalled st') (tcp_ports st') ss lost"
  using removes_release [of xs st] by (intro sessions_ok_release [OF assms(1)]) (auto simp: assms(2) Let_def)

lemma sigterm_sessions:
  assumes "sessions_ok (owner st) (signalled st) (tcp_ports st) ss lost"
  shows "sessions_ok (owner (sigterm st)) (signalled (sigterm st)) (tcp_ports (sigterm st)) ss lost"
proof (rule sessions_ok_release [OF assms])
  show "owner (sigterm st) k = owner st k \<or> owner (sigterm st) k = None \<and> set_option (owner st k) \<subseteq> signalled (sigterm st)" for k
    by (cases "map_of (tunnels st) k") (force simp: owner_def sigterm_def dest: map_of_SomeD)+
qed (auto simp: sigterm_def)

lemma edits_sessions:
  "edits st st' \<Longrightarrow> sessions_ok (owner st) (signalled st) (tcp_ports st) ss lost \<Longrightarrow>
   sessions_ok (owner st') (signalled st') (tcp_ports st') ss lost"
  using edits_owner [of st st'] by (erule_tac sessions_ok_release) (auto simp: edits_def)

lemma close_session_effect:
  "owner (close_session ctx s timeout now bi bo st) = (owner st)(s_key s := None)"
  "signalled (close_session ctx s timeout now bi bo st) = signalled st \<union> set_option (owner st (s_key s))"
  "tcp_ports (close_session ctx s timeout now bi bo st) = (case s_port s of None \<Rightarrow> tcp_ports st | Some p \<Rightarrow> tcp_ports st - {p})"
proof -
  have o: "owner (webhook_fire c b st) = owner st" "owner (audit t n kvs st) = owner st"
    "owner (st\<lparr>tcp_ports := P\<rparr>) = owner st" "owner (st\<lparr>custom_domains := D\<rparr>) = owner st" for c b t n kvs st P D
    by (simp_all add: owner_def fun_eq_iff)
  show "owner (close_session ctx s timeout now bi bo st) = (owner st)(s_key s := None)"
    by (simp add: close_session_def Let_def o owner_remove split: option.splits)
  show "signalled (close_session ctx s timeout now bi bo st) = signalled st \<union> set_option (owner st (s_key s))"
    by (simp add: close_session_def Let_def o signalled_remove split: option.splits)
  show "tcp_ports (close_session ctx s timeout now bi bo st) = (case s_port s of None \<Rightarrow> tcp_ports st | Some p \<Rightarrow> tcp_ports st - {p})"
    by (simp add: close_session_def Let_def split: option.splits)
qed

lemma close_sessions:
  assumes "sessions_ok (owner st) (signalled st) (tcp_ports st) ss lost" and "s \<in> set ss" and "distinct ss"
    and "st' = close_session ctx s timeout now bi bo st"
  shows "sessions_ok (owner st') (signalled st') (tcp_ports st') (remove1 s ss) lost"
proof -
  have "sessions_ok (owner st') (signalled st') (tcp_ports st) ss lost"
    by (rule sessions_ok_release [OF assms(1)]) (auto simp: assms(4) close_session_effect)
  from sessions_ok_end [OF this assms(2) _ assms(3)] show ?thesis
    by (simp add: assms(4) close_session_effect split: option.splits)
qed

text \<open>
  What a registration does: nothing to the names, or it takes a name that is free; for a TCP tunnel
  because its port was granted, and no entry of the relay can be without its listener.
\<close>

lemma open_http_effect:
  assumes "open_http ctx ci sub st = (res, out, st')" and "gen_range_law (ci_gen ci)"
  obtains (none) "lost_entry ctx ci (Http sub) res = []" "\<exists>e. res = Inl e" "core st' = core st"
  | (ok) s where "res = Inr s" "s_conn s = ci_conn ci" "s_port s = None" "CHR '':'' \<notin> set (s_key s)"
      "owner st (s_key s) = None" "owner st' = (owner st)(s_key s \<mapsto> ci_conn ci)" "signalled st' = signalled st" "tcp_ports st' = tcp_ports st"
  | (lost) k where "res = Inl ReplyFailed" "lost_entry ctx ci (Http sub) res = [(k, ci_conn ci)]" "CHR '':'' \<notin> set k"
      "owner st k = None" "owner st' = (owner st)(k \<mapsto> ci_conn ci)" "signalled st' = signalled st" "tcp_ports st' = tcp_ports st"
proof -
  let ?k = "chosen_name ctx ci sub"
  have shape: "CHR '':'' \<notin> set ?k" if "\<forall>n. sub = Some n \<longrightarrow> name_allowed ctx n"
    using that label_no_colon random_no_colon [OF assms(2)] by (cases sub) (auto simp: chosen_name_def name_allowed_def)
  have conn: "te_conn (new_entry ci k) = ci_conn ci" for k by (simp add: new_entry_def)
  have ins: "owner st1 = (owner st)(k \<mapsto> ci_conn ci) \<and> signalled st1 = signalled st \<and> tcp_ports st1 = tcp_ports st"
    if "core st1 = core (tunnels_insert k (new_entry ci k) st)" "map_of (tunnels st) k = None" for k st1
    using that core_fields [OF that(1)] owner_insert [of st1 k "new_entry ci k" st] by (simp add: conn tunnels_insert_def)
  show ?thesis
  proof (cases res)
    case (Inr s)
    note h = open_http_ok [OF assms(1) [unfolded Inr]]
    show ?thesis
      by (rule ok [OF Inr]) (use h shape ins [of st' "s_key s"] in \<open>auto simp: owner_def\<close>)
  next
    case (Inl e)
    show ?thesis
    proof (cases "e = ReplyFailed")
      case True
      then have h: "\<forall>n. sub = Some n \<longrightarrow> name_allowed ctx n" "map_of (tunnels st) ?k = None"
        "core st' = core (tunnels_insert ?k (new_entry ci ?k) st)"
        using assms(1) Inl by (auto simp: open_http_def chosen_name_def check_requested_None Let_def dest!: check_requested_reply
            split: option.splits if_splits)
      show ?thesis
        by (rule lost [of ?k]) (use True Inl h shape ins [OF h(3,2)] in \<open>auto simp: lost_entry_def owner_def\<close>)
    next
      case False
      have "core st' = core st"
        using assms(1) Inl False by (auto simp: open_http_def Let_def split: option.splits if_splits)
      moreover have "lost_entry ctx ci (Http sub) res = []"
        using False Inl by (cases e) (simp_all add: lost_entry_def)
      ultimately show ?thesis using none Inl by blast
    qed
  qed
qed

lemma open_tcp_effect:
  assumes "open_tcp ctx ci port st = (res, out, st')"
  obtains (none) "\<exists>e. res = Inl e" "owner st' = owner st" "signalled st' = signalled st" "tcp_ports st \<subseteq> tcp_ports st'"
  | (ok) s p where "res = Inr s" "s_conn s = ci_conn ci" "s_port s = Some p" "s_key s = tcp_key p" "ci_bind ci p"
      "owner st' = (owner st)(tcp_key p \<mapsto> ci_conn ci)" "signalled st \<subseteq> signalled st'" "tcp_ports st' = insert p (tcp_ports st)"
proof (cases res)
  case (Inl e)
  have "tunnels st' = tunnels st \<and> signalled st' = signalled st \<and> tcp_ports st \<subseteq> tcp_ports st'"
    using assms Inl by (auto simp: open_tcp_def bind_tcp_def Let_def dest!: bind_random_Some split: sum.splits option.splits if_splits)
  then show ?thesis using none Inl by (auto simp: owner_def fun_eq_iff)
next
  case (Inr s)
  have sig: "signalled st \<subseteq> signalled st'"
    using assms Inr by (auto simp: open_tcp_def bind_tcp_def Let_def tunnels_insert_def split: sum.splits option.splits if_splits)
  obtain p where p: "s_port s = Some p" "s_key s = tcp_key p" "ci_bind ci p"
      "tunnels st' = AList.update (tcp_key p) (new_entry ci (tcp_key p)) (tunnels st)"
      "tcp_ports st' = insert p (tcp_ports st)" "s_conn s = ci_conn ci"
    using open_tcp_ok [OF assms [unfolded Inr]] by metis
  then show ?thesis using ok [OF Inr] owner_insert [OF p(4)] sig by (simp add: new_entry_def)
qed

text \<open>A port the operating system gives out belongs to no session, so its name is free.\<close>

lemma bound_name_free:
  assumes "sessions_ok own sig ports ss lost" and "\<forall>t \<in> set ss. s_port t \<noteq> Some p"
  shows "own (tcp_key p) = None"
proof (rule ccontr)
  assume "own (tcp_key p) \<noteq> None"
  then obtain t where t: "t \<in> set ss" "s_key t = tcp_key p"
    using sessions_okD(1,6) [OF assms(1)] colon_in_tcp_key [of p] by blast
  then show False
    using sessions_okD(3,4) [OF assms(1) t(1)] assms(2) tcp_key_inj colon_in_tcp_key [of p] by (cases "s_port t") auto
qed

lemma open_sessions:
  assumes "sessions_ok (owner st) (signalled st) (tcp_ports st) ss lost" and "open_kind ctx ci kind st = (res, out, st')"
    and "gen_range_law (ci_gen ci)" and "os_bind_law (ci_bind ci) ss"
  shows "sessions_ok (owner st') (signalled st') (tcp_ports st') (case res of Inr s \<Rightarrow> s # ss | Inl _ \<Rightarrow> ss)
      (lost_entry ctx ci kind res @ lost)
    \<and> (owner st' = owner st \<or> (\<exists>k. owner st k = None \<and> owner st' = (owner st)(k \<mapsto> ci_conn ci)))
    \<and> (\<forall>s. res = Inr s \<longrightarrow> s_conn s = ci_conn ci)"
proof (cases kind)
  case (Http sub)
  then have "open_http ctx ci sub st = (res, out, st')" using assms(2) by (simp add: open_kind_def)
  from this assms(3) show ?thesis
  proof (cases rule: open_http_effect)
    case none
    have "owner st' = owner st" using core_fields(1) [OF none(3)] by (simp add: owner_def fun_eq_iff)
    then show ?thesis using none(1,2) assms(1) core_fields(2,4) [OF none(3)] by (auto simp: Http)
  next
    case (ok s)
    then show ?thesis using sessions_ok_claim(1) [OF assms(1) ok(5), of "signalled st'" s "ci_conn ci" "tcp_ports st'"]
      by (auto simp: Http lost_entry_def)
  next
    case (lost k)
    then show ?thesis using sessions_ok_claim(3) [OF assms(1) lost(4), of "signalled st'" "tcp_ports st'" "ci_conn ci"]
      by (auto simp: Http lost_entry_def)
  qed
next
  case (Tcp port)
  have l: "lost_entry ctx ci (Tcp port) res = []" by (cases res) (auto simp: lost_entry_def split: ConnError.splits)
  have "open_tcp ctx ci port st = (res, out, st')" using assms(2) by (simp add: open_kind_def Tcp)
  then show ?thesis
  proof (cases rule: open_tcp_effect)
    case none
    then show ?thesis using sessions_ok_release [OF assms(1), of "owner st" "signalled st" "tcp_ports st'"] l by (auto simp: Tcp)
  next
    case (ok s p)
    have new: "\<forall>t \<in> set ss. s_port t \<noteq> Some p" using assms(4) ok(5) by (auto simp: os_bind_law_def)
    then show ?thesis
      using bound_name_free [OF assms(1) new] sessions_ok_claim(2) [OF assms(1), of "tcp_key p" "signalled st'" s "ci_conn ci" p "tcp_ports st'"] new ok l
      by (auto simp: Tcp)
  qed
qed

section \<open>The invariant\<close>

definition conns_of :: "relay_run \<Rightarrow> nat list" where
  "conns_of r = map s_conn (rr_sessions r) @ map (ci_conn \<circ> fst) (rr_pend r)"

definition run_ok :: "relay_run \<Rightarrow> bool" where
  "run_ok r \<longleftrightarrow> system_ok (sys_of r)
     \<and> sessions_ok (owner (st_of r)) (signalled (st_of r)) (tcp_ports (st_of r)) (rr_sessions r) (rr_lost r)
     \<and> distinct (conns_of r) \<and> set (conns_of r) \<subseteq> rr_used r \<and> snd ` set (rr_lost r) \<subseteq> rr_used r
     \<and> rr_pt_active r = of_nat (length (filter started (rr_pt_tasks r)))"

text \<open>
  The registry: names that are owned, and connections that are admitted and have no name yet. A
  connection is admitted once; it takes one free name at most; names are released.
\<close>

inductive registry_step :: "(string \<Rightarrow> nat option) \<times> nat set \<Rightarrow> (string \<Rightarrow> nat option) \<times> nat set \<Rightarrow> bool" where
  reg_admit: "c \<notin> W \<Longrightarrow> c \<notin> ran own \<Longrightarrow> registry_step (own, W) (own, insert c W)"
| reg_claim: "c \<in> W \<Longrightarrow> own k = None \<Longrightarrow> registry_step (own, W) (own(k \<mapsto> c), W - {c})"
| reg_fail: "registry_step (own, W) (own, W - {c})"
| reg_release: "registry_step (own, W) (own |` N, W)"

definition registry_of :: "relay_run \<Rightarrow> (string \<Rightarrow> nat option) \<times> nat set" where
  "registry_of r = (owner (st_of r), (ci_conn \<circ> fst) ` set (rr_pend r))"

lemma registry_refl: "registry_step s s"
  using reg_release [of "fst s" "snd s" UNIV] by (simp add: restrict_map_def)

text \<open>Every step of the running relay is a step of the system of the parts.\<close>

lemma sys_of_set_st: "sys_of (set_st st r) = ((rr_app r)\<lparr>app_relay := st\<rparr>, rr_pend r, rr_copies r)"
  by (simp add: sys_of_def set_st_def)

lemma st_of_set_st [simp]: "st_of (set_st st r) = st" "rr_sessions (set_st st r) = rr_sessions r" "rr_lost (set_st st r) = rr_lost r"
  "rr_used (set_st st r) = rr_used r" "rr_pt_active (set_st st r) = rr_pt_active r" "rr_pt_tasks (set_st st r) = rr_pt_tasks r"
  "rr_pend (set_st st r) = rr_pend r" "rr_copies (set_st st r) = rr_copies r"
  by (simp_all add: set_st_def)

lemma relay_step_system:
  assumes "relay_step (ctx_of r) K (st_of r, rr_pend r) (st', pend')" and "system_ok (sys_of r)"
  shows "system_ok ((rr_app r)\<lparr>app_relay := st'\<rparr>, pend', rr_copies r)"
  by (rule system_ok_step [OF sys_traffic [OF in_relay [OF assms(1)]] assms(2) [unfolded sys_of_def]])

lemma run_okI:
  assumes "run_ok r" and "system_ok (sys_of r')"
    and "sessions_ok (owner (st_of r')) (signalled (st_of r')) (tcp_ports (st_of r')) (rr_sessions r') (rr_lost r')"
    and "distinct (conns_of r')" and "set (conns_of r') \<subseteq> rr_used r'" and "snd ` set (rr_lost r') \<subseteq> rr_used r'"
    and "rr_pt_active r' = of_nat (length (filter started (rr_pt_tasks r')))"
  shows "run_ok r'"
  using assms by (simp add: run_ok_def)

text \<open>Steps that only edit entries.\<close>

lemma run_ok_edit:
  assumes "run_ok r" and "edits (st_of r) (app_relay app')" and "system_ok (app', rr_pend r, cs)"
    and "n = of_nat (length (filter started tasks))"
    and "r' = r\<lparr>rr_app := app', rr_copies := cs, rr_pt_active := n, rr_pt_tasks := tasks\<rparr>"
  shows "run_ok r' \<and> registry_step (registry_of r) (registry_of r')"
proof
  show "run_ok r'"
    using edits_sessions [OF assms(2)] assms by (simp add: run_ok_def sys_of_def conns_of_def)
  have "registry_of r' = registry_of r" using edits_owner [OF assms(2)] by (simp add: registry_of_def assms(5))
  then show "registry_step (registry_of r) (registry_of r')" by (simp add: registry_refl)
qed

lemma run_ok_edit_copies:
  assumes "run_ok r" and "edits (st_of r) (app_relay app')" and "system_ok (app', rr_pend r, cs)"
  shows "run_ok (r\<lparr>rr_app := app', rr_copies := cs\<rparr>)
    \<and> registry_step (registry_of r) (registry_of (r\<lparr>rr_app := app', rr_copies := cs\<rparr>))"
proof -
  have "rr_pt_active r = of_nat (length (filter started (rr_pt_tasks r)))" using assms(1) by (simp add: run_ok_def)
  from run_ok_edit [OF assms this refl] show ?thesis by simp
qed

lemma run_ok_quiet:
  assumes "run_ok r" and "quiet (rr_app r) app'" and "n = of_nat (length (filter started tasks))"
    and "r' = r\<lparr>rr_app := app', rr_pt_active := n, rr_pt_tasks := tasks\<rparr>"
  shows "run_ok r' \<and> registry_step (registry_of r) (registry_of r')"
proof -
  have "system_ok (app', rr_pend r, rr_copies r)"
    using system_ok_quiet [OF assms(2)] assms(1) by (simp add: run_ok_def sys_of_def)
  then show ?thesis using assms by (intro run_ok_edit [of r app' "rr_copies r" n tasks r']) (simp_all add: quiet_def)
qed

lemma run_ok_quiet_app:
  "run_ok r \<Longrightarrow> quiet (rr_app r) app' \<Longrightarrow> run_ok (r\<lparr>rr_app := app'\<rparr>) \<and> registry_step (registry_of r) (registry_of (r\<lparr>rr_app := app'\<rparr>))"
proof -
  assume r: "run_ok r" and q: "quiet (rr_app r) app'"
  have "rr_pt_active r = of_nat (length (filter started (rr_pt_tasks r)))" using r by (simp add: run_ok_def)
  from run_ok_quiet [OF r q this refl] show ?thesis by simp
qed

lemma quiet_set_st:
  "edits (st_of r) st' \<Longrightarrow> gauge st' = gauge (st_of r) \<Longrightarrow> quiet (rr_app r) ((rr_app r)\<lparr>app_relay := st'\<rparr>)"
  by (simp add: quiet_def)

lemma quiet_count_bytes: "edits st (count_bytes key conn a b st)" "gauge (count_bytes key conn a b st) = gauge st"
proof -
  show "edits st (count_bytes key conn a b st)"
    unfolding count_bytes_def by (intro edits_intros) (simp add: same_tunnel_def)
  show "gauge (count_bytes key conn a b st) = gauge st"
    by (simp add: count_bytes_def gauge_def upd_metrics_def inc_bytes_in_def inc_bytes_out_def)
qed

lemma quiet_pt_step:
  "pt_step s s' \<Longrightarrow> snd (fst s) = of_nat (length (filter started (snd s))) \<Longrightarrow>
   quiet (fst (fst s)) (fst (fst s')) \<and> snd (fst s') = of_nat (length (filter started (snd s')))"
proof (induction rule: pt_step.induct)
  case (pt_refuse cfg now unix peer app app' n tasks)
  then show ?case using quiet_passthrough by simp
next
  case (pt_spawn cfg now unix peer app b app' n tasks)
  then show ?case using quiet_passthrough by (simp add: started_def)
qed (auto simp: pt_connect_def pt_disconnect_def started_def intro!: quiet_audit_passthrough)

text \<open>Steps that take entries out of the map.\<close>

lemma run_ok_release:
  assumes "run_ok r" and "relay_step (ctx_of r) K (st_of r, rr_pend r) (st', rr_pend r)"
    and "sessions_ok (owner st') (signalled st') (tcp_ports st') ss (rr_lost r)"
    and "set ss \<subseteq> set (rr_sessions r)" and "distinct ss"
    and "\<And>k. owner st' k = owner (st_of r) k \<or> owner st' k = None"
  shows "run_ok ((set_st st' r)\<lparr>rr_sessions := ss\<rparr>)
    \<and> registry_step (registry_of r) (registry_of ((set_st st' r)\<lparr>rr_sessions := ss\<rparr>))"
proof
  let ?r = "(set_st st' r)\<lparr>rr_sessions := ss\<rparr>"
  have d: "distinct (conns_of r)" and i: "inj_on s_conn (set (rr_sessions r))"
    using assms(1) by (simp_all add: run_ok_def conns_of_def distinct_map)
  have "distinct (conns_of ?r)" and "set (conns_of ?r) \<subseteq> set (conns_of r)"
    using d assms(4,5) inj_on_subset [OF i assms(4)] by (auto simp: conns_of_def distinct_map)
  moreover have "system_ok (sys_of ?r)"
    using relay_step_system [OF assms(2)] assms(1) by (simp add: run_ok_def sys_of_def set_st_def)
  ultimately show "run_ok ?r" using assms(1,3) by (auto simp: run_ok_def)
  have "\<exists>N. owner st' = owner (st_of r) |` N"
    by (rule exI [of _ "{k. owner st' k = owner (st_of r) k}"]) (use assms(6) in \<open>auto simp: restrict_map_def fun_eq_iff\<close>)
  then obtain N where "owner st' = owner (st_of r) |` N" ..
  then show "registry_step (registry_of r) (registry_of ?r)"
    using reg_release [of "owner (st_of r)" "snd (registry_of r)" N] by (simp add: registry_of_def)
qed

lemma run_ok_release_all:
  assumes "run_ok r" and "relay_step (ctx_of r) K (st_of r, rr_pend r) (st', rr_pend r)"
    and "sessions_ok (owner st') (signalled st') (tcp_ports st') (rr_sessions r) (rr_lost r)"
    and "\<And>k. owner st' k = owner (st_of r) k \<or> owner st' k = None"
  shows "run_ok (set_st st' r) \<and> registry_step (registry_of r) (registry_of (set_st st' r))"
proof -
  have d: "distinct (rr_sessions r)" using assms(1) by (simp add: run_ok_def conns_of_def distinct_map)
  have "(set_st st' r)\<lparr>rr_sessions := rr_sessions r\<rparr> = set_st st' r" by (simp add: set_st_def)
  then show ?thesis using run_ok_release [OF assms(1-3) subset_refl d assms(4)] by (simp only:)
qed

lemma run_ok_facts:
  assumes "run_ok r"
  shows "system_ok (sys_of r)" "map_ok (tunnels (st_of r))"
    "sessions_ok (owner (st_of r)) (signalled (st_of r)) (tcp_ports (st_of r)) (rr_sessions r) (rr_lost r)"
    "distinct (rr_sessions r)" "distinct (conns_of r)" "set (conns_of r) \<subseteq> rr_used r" "snd ` set (rr_lost r) \<subseteq> rr_used r"
    "\<And>p. p \<in> set (rr_pend r) \<Longrightarrow> gen_range_law (ci_gen (fst p))"
  using assms by (auto simp: run_ok_def system_ok_def map_inv_def sys_of_def conns_of_def distinct_map)

lemma owners_used:
  assumes "run_ok r" and "owner (st_of r) k = Some c"
  shows "c \<in> rr_used r"
proof -
  note f = run_ok_facts [OF assms(1)]
  from sessions_okD(1) [OF f(3) assms(2)] show ?thesis
    using f(6,7) by (auto simp: conns_of_def image_subset_iff)
qed

lemma run_admit_ok:
  assumes "run_ok r" and "admit (ctx_of r) ci (st_of r) = (Inr kind, out, st')" and "gen_range_law (ci_gen ci)"
    and "length (rr_pend r) < K" and "ci_conn ci \<notin> rr_used r"
    and "r' = (set_st st' r)\<lparr>rr_pend := rr_pend r @ [(ci, kind)], rr_used := insert (ci_conn ci) (rr_used r)\<rparr>"
  shows "run_ok r' \<and> registry_step (registry_of r) (registry_of r')"
proof
  note f = run_ok_facts [OF assms(1)]
  have c: "core st' = core (st_of r)" using admit_core [of "ctx_of r" ci "st_of r"] assms(2) by simp
  have o: "owner st' = owner (st_of r)" using core_fields(1) [OF c] by (simp add: owner_def fun_eq_iff)
  have "system_ok (sys_of r')"
    using relay_step_system [OF step_admit [OF assms(2,3,4)] f(1)] by (simp add: assms(6) sys_of_def set_st_def)
  moreover have "distinct (conns_of r')" "set (conns_of r') \<subseteq> rr_used r'"
    using f(5,6) assms(5) by (auto simp: conns_of_def assms(6))
  ultimately show "run_ok r'"
    using assms(1) f(3,7) o core_fields(2,4) [OF c] by (auto simp: run_ok_def assms(6))
  have "ci_conn ci \<notin> ran (fst (registry_of r))" "ci_conn ci \<notin> snd (registry_of r)"
    using owners_used [OF assms(1)] f(6) assms(5) by (auto simp: registry_of_def ran_def conns_of_def image_subset_iff)
  from reg_admit [OF this(2,1)] show "registry_step (registry_of r) (registry_of r')"
    by (simp add: registry_of_def assms(6) o)
qed

lemma run_open_ok:
  assumes "run_ok r" and "rr_pend r = xs @ (ci, kind) # ys" and "os_bind_law (ci_bind ci) (rr_sessions r)"
    and "open_kind (ctx_of r) ci kind (st_of r) = (res, out, st')"
    and "r' = (set_st st' r)\<lparr>rr_pend := xs @ ys, rr_sessions := (case res of Inr s \<Rightarrow> s # rr_sessions r | Inl _ \<Rightarrow> rr_sessions r),
      rr_lost := lost_entry (ctx_of r) ci kind res @ rr_lost r\<rparr>"
  shows "run_ok r' \<and> registry_step (registry_of r) (registry_of r')"
proof
  note f = run_ok_facts [OF assms(1)]
  have g: "gen_range_law (ci_gen ci)" using f(8) [of "(ci, kind)"] assms(2) by simp
  note e = open_sessions [OF f(3) assms(4) g assms(3)]
  have "relay_step (ctx_of r) K (st_of r, rr_pend r) (st', xs @ ys)" for K
    unfolding assms(2) by (rule step_open [OF assms(4)])
  then have "system_ok (sys_of r')" using relay_step_system f(1) by (simp add: sys_of_def assms(5) set_st_def)
  moreover have "distinct (conns_of r')" "set (conns_of r') \<subseteq> rr_used r'"
    using f(5,6) e by (auto simp: conns_of_def assms(2,5) split: sum.splits)
  moreover have "snd ` set (rr_lost r') \<subseteq> rr_used r'"
    using f(6,7) by (auto simp: assms(2,5) lost_entry_def conns_of_def split: sum.splits ConnError.splits TunnelKind.splits)
  ultimately show "run_ok r'" using assms(1) e by (simp add: run_ok_def assms(5))
  have p: "snd (registry_of r) - {ci_conn ci} = snd (registry_of r')" "ci_conn ci \<in> snd (registry_of r)"
    using f(5) by (auto simp: registry_of_def conns_of_def assms(2,5) image_iff)
  from e consider "owner st' = owner (st_of r)"
    | k where "owner (st_of r) k = None" "owner st' = (owner (st_of r))(k \<mapsto> ci_conn ci)" by blast
  then show "registry_step (registry_of r) (registry_of r')"
  proof cases
    case 1
    then have "registry_of r' = (fst (registry_of r), snd (registry_of r) - {ci_conn ci})"
      unfolding p(1) by (simp add: registry_of_def assms(5))
    then show ?thesis using reg_fail [of "fst (registry_of r)" "snd (registry_of r)" "ci_conn ci"] by simp
  next
    case (2 k)
    then have "registry_of r' = ((fst (registry_of r))(k \<mapsto> ci_conn ci), snd (registry_of r) - {ci_conn ci})"
      unfolding p(1) by (simp add: registry_of_def assms(5))
    then show ?thesis
      using reg_claim [OF p(2), of "fst (registry_of r)" k] 2(1) by (simp add: registry_of_def)
  qed
qed

lemma run_refuse_ok:
  assumes "run_ok r" and "admit (ctx_of r) ci (st_of r) = (Inl e, out, st')"
  shows "run_ok (set_st st' r) \<and> registry_step (registry_of r) (registry_of (set_st st' r))"
proof -
  have c: "core st' = core (st_of r)" using admit_core [of "ctx_of r" ci "st_of r"] assms(2) by simp
  have o: "owner st' = owner (st_of r)" using core_fields(1) [OF c] by (simp add: owner_def fun_eq_iff)
  have "sessions_ok (owner st') (signalled st') (tcp_ports st') (rr_sessions r) (rr_lost r)"
    using run_ok_facts(3) [OF assms(1)] core_fields(2,4) [OF c] by (simp add: o)
  then show ?thesis using run_ok_release_all [OF assms(1) step_refuse [OF assms(2)]] o by simp
qed

lemma run_close_ok:
  assumes "run_ok r" and "s \<in> set (rr_sessions r)"
    and "r' = (set_st (close_session (ctx_of r) s timeout now bi bo (st_of r)) r)\<lparr>rr_sessions := remove1 s (rr_sessions r)\<rparr>"
  shows "run_ok r' \<and> registry_step (registry_of r) (registry_of r')"
proof -
  note f = run_ok_facts [OF assms(1)]
  let ?st = "close_session (ctx_of r) s timeout now bi bo (st_of r)"
  have "owner ?st k = owner (st_of r) k \<or> owner ?st k = None" for k by (simp add: close_session_effect)
  then show ?thesis
    using run_ok_release [OF assms(1) step_close close_sessions [OF f(3) assms(2) f(4) refl]] f(4) assms(3)
    by (simp add: set_remove1_subset)
qed

lemma run_expire_ok:
  assumes "run_ok r"
  shows "run_ok (set_st (expire_tick max_age now (st_of r)) r)
    \<and> registry_step (registry_of r) (registry_of (set_st (expire_tick max_age now (st_of r)) r))"
proof -
  note f = run_ok_facts [OF assms]
  let ?xs = "filter (\<lambda>(k, e). tunnel_age now e \<ge> max_age) (tunnels (st_of r))"
  have x: "expire_tick max_age now (st_of r) = fold (\<lambda>(key, e). tunnels_remove key) ?xs (st_of r)"
    by (simp add: expire_tick_def)
  have "owner (expire_tick max_age now (st_of r)) k = owner (st_of r) k \<or> owner (expire_tick max_age now (st_of r)) k = None" for k
    using removes_release [of ?xs "st_of r", unfolded Let_def, THEN conjunct1, THEN spec, of k] unfolding x by (elim disjE) simp_all
  then show ?thesis by (rule run_ok_release_all [OF assms step_expire removes_sessions [OF f(3) x]])
qed

lemma run_sigterm_ok:
  assumes "run_ok r"
  shows "run_ok (set_st (sigterm (st_of r)) r) \<and> registry_step (registry_of r) (registry_of (set_st (sigterm (st_of r)) r))"
proof -
  have "owner (sigterm (st_of r)) k = None" for k by (simp add: owner_def sigterm_def)
  then show ?thesis using run_ok_release_all [OF assms step_sigterm sigterm_sessions [OF run_ok_facts(3) [OF assms]]] by simp
qed

lemma run_request_ok:
  assumes "run_ok r" and "route_http hi (rr_app r) = (res, app')"
  shows "run_ok (r\<lparr>rr_app := app', rr_copies := copies_of res @ rr_copies r\<rparr>)
    \<and> registry_step (registry_of r) (registry_of (r\<lparr>rr_app := app', rr_copies := copies_of res @ rr_copies r\<rparr>))"
proof (rule run_ok_edit_copies [OF assms(1)])
  show "system_ok (app', rr_pend r, copies_of res @ rr_copies r)"
    using system_ok_step [OF sys_traffic [OF in_open [OF assms(2)]]] run_ok_facts(1) [OF assms(1)] by (simp add: sys_of_def)
  show "edits (st_of r) (app_relay app')" using edits_route [of "rr_app r" hi] assms(2) by simp
qed

lemma run_copied_ok:
  assumes "run_ok r" and "rr_copies r = xs @ c # ys"
  shows "run_ok (r\<lparr>rr_app := finish_copy result now unix c (rr_app r), rr_copies := xs @ ys\<rparr>)
    \<and> registry_step (registry_of r) (registry_of (r\<lparr>rr_app := finish_copy result now unix c (rr_app r), rr_copies := xs @ ys\<rparr>))"
proof (rule run_ok_edit_copies [OF assms(1) edits_finish])
  show "system_ok (finish_copy result now unix c (rr_app r), rr_pend r, xs @ ys)"
    using system_ok_step [OF sys_traffic [OF in_finish]] run_ok_facts(1) [OF assms(1)] assms(2) by (simp add: sys_of_def)
qed

text \<open>The data path of TCP tunnels only counts.\<close>

lemma run_tcp_ok:
  assumes "run_ok r" and "st' = st_of r \<or> (\<exists>m n. st' = count_bytes key conn m n (st_of r))"
  shows "run_ok (set_st st' r) \<and> registry_step (registry_of r) (registry_of (set_st st' r))"
proof -
  have "quiet (rr_app r) ((rr_app r)\<lparr>app_relay := st'\<rparr>)"
    using assms(2) by (elim disjE exE) (simp_all add: quiet_set_st quiet_count_bytes edits_same)
  then show ?thesis using run_ok_quiet_app [OF assms(1)] by (simp add: set_st_def)
qed

lemma run_step_ok:
  "run_step K r r' \<Longrightarrow> run_ok r \<Longrightarrow> run_ok r' \<and> registry_step (registry_of r) (registry_of r')"
proof (induction rule: run_step.induct)
  case (run_admit r ci kind out st')
  then show ?case by (intro run_admit_ok) auto
next
  case (run_open r xs ci kind ys res out st')
  then show ?case by (intro run_open_ok) auto
next
  case (run_close s r timeout now bi bo)
  then show ?case by (intro run_close_ok) auto
next
  case (run_sighup r read_to_string)
  then show ?case by (rule run_ok_quiet_app) (simp add: quiet_same sighup_app_def Let_def)
next
  case (run_tcp_head key conn peer already_read frame_ok head_ok r res st')
  then show ?case by (intro run_tcp_ok) (auto simp: forward_head_def split: if_splits)
next
  case (run_tcp_copied r key conn result)
  then show ?case by (intro run_tcp_ok) (auto simp: forward_finish_def split: option.splits)
next
  case (run_passthrough r app' n' tasks')
  have "quiet (rr_app r) app' \<and> n' = of_nat (length (filter started tasks'))"
    using quiet_pt_step [OF run_passthrough(1)] run_passthrough(2) by (simp add: run_ok_def)
  then show ?case using run_ok_quiet [OF run_passthrough(2)] by blast
next
  case (run_health key r e tcp_health_check counts counts' bs)
  have "quiet (rr_app r) (health_tick key e bs (rr_app r))"
    unfolding health_tick_def by (rule quiet_upd_entry) (simp add: same_tunnel_def)
  then show ?case by (rule run_ok_quiet_app [OF run_health(3)])
next
  case (run_stats r unix)
  then show ?case by (rule run_ok_quiet_app) (simp add: quiet_same stats_tick_def)
next
  case (run_admin w ai rq r resp app' sent)
  then show ?case by (intro run_ok_quiet_app quiet_admin_service)
qed (rule run_refuse_ok run_expire_ok run_sigterm_ok run_request_ok run_copied_ok; assumption)+

interpretation run: simulation "run_step K" run_ok registry_step registry_of for K
  by unfold_locales (blast dest: run_step_ok)+

end
