(* ===== verification/Started.thy ===== *)
theory Started
  imports Config Relay_Run
begin

text \<open>
  The relay from its start-up on: what holds in every state that a relay started with any options
  reaches, in any interleaving of its tasks (\<open>run_step\<close>).
\<close>

section \<open>The invariant from start-up on\<close>

lemma run_ok_init: "tunnels (app_relay app) = [] \<Longrightarrow> r_metrics (app_relay app) = new_metrics \<Longrightarrow> run_ok (run_init app)"
  by (simp add: run_ok_def run_init_def sys_of_def system_ok_def map_inv_def map_ok_def ws_balanced_def gauge_def new_metrics_def
      sessions_ok_def conns_of_def owner_def)

lemma started_run_ok:
  assumes "relay_startup env args = (Inr (app, cfgs), fs)" and "(run_step K)\<^sup>*\<^sup>* (run_init app) r"
  shows "run_ok r"
proof -
  have "tunnels (app_relay app) = []" "r_metrics (app_relay app) = new_metrics"
    by (rule startup_ok [OF assms(1)], simp add: app_state_of_def relay_state_of_def)+
  then show ?thesis using run.reachable [OF assms(2)] run_ok_init by blast
qed

text \<open>
  Claim C7. The relay keeps its books right for ever, whatever its options and its files. After any
  interleaving of registrations, closes, expiries, reloads, public requests, ends of copies, TCP
  and passthrough connections, health checks and admin requests of any kind, the tunnel map has one
  entry per key, filed under the entry's own name, no key of an HTTP tunnel looks like one of a TCP
  tunnel, the WebSocket gauge is the number of WebSocket copies in progress, and the passthrough
  gauge is the number of passthrough connections being forwarded (both modulo 2^64).
\<close>

theorem started_relay_invariant:
  assumes "relay_startup env args = (Inr (app, cfgs), fs)" and "(run_step K)\<^sup>*\<^sup>* (run_init app) r"
  shows "distinct (map fst (tunnels (app_relay (rr_app r))))
    \<and> (\<forall>(k, e) \<in> set (tunnels (app_relay (rr_app r))). te_subdomain e = k \<and> key_shape k)
    \<and> m_ws_connections_active (r_metrics (app_relay (rr_app r))) = of_nat (length (filter copy_is_ws (rr_copies r)))
    \<and> rr_pt_active r = of_nat (length (filter started (rr_pt_tasks r)))"
  using started_run_ok [OF assms]
  by (auto simp: run_ok_def system_ok_def sys_of_def map_inv_def map_ok_def ws_balanced_def gauge_def)


section \<open>The registry\<close>


text \<open>What the registry promises: a name never passes from one connection to another directly.\<close>

lemma registry_no_takeover:
  "registry_step s s' \<Longrightarrow> fst s k = Some c \<Longrightarrow> fst s' k = Some c \<or> fst s' k = None"
  by (induction rule: registry_step.induct) (auto simp: restrict_map_def)

lemma registry_gives_to_waiting:
  "registry_step s s' \<Longrightarrow> fst s' k = Some c \<Longrightarrow> fst s k \<noteq> Some c \<Longrightarrow> c \<in> snd s \<and> fst s k = None"
  by (induction rule: registry_step.induct) (auto simp: restrict_map_def split: if_splits)


section \<open>Isolation\<close>

text \<open>
  Claim C6. Clients are isolated from each other: in every reachable state, a public request that is copied
  into a tunnel goes to the connection of a running task whose name is the one the request's host
  stands for, or of one that registered that name and died before its reply was written; and no
  static route claims the host.
\<close>

theorem tunnel_traffic_isolated:
  assumes "relay_startup env args = (Inr (app, cfgs), fs)" and "(run_step K)\<^sup>*\<^sup>* (run_init app) r"
    and "route_http hi (rr_app r) = (Tunnelling tc, app')"
  shows "\<exists>head host. read_head [] (hi_reads hi) = (HeadOk True, head) \<and> parse_host_header head = Some host
    \<and> tunnel_name host (rr_app r) = Some (tc_sub tc) \<and> find_route host (ss_store (app_store (rr_app r))) = None
    \<and> ((tc_sub tc, tc_conn tc) \<in> set (rr_lost r) \<or> (\<exists>s \<in> set (rr_sessions r). s_key s = tc_sub tc \<and> s_conn s = tc_conn tc))"
proof -
  obtain head host e where h: "read_head [] (hi_reads hi) = (HeadOk True, head)" "parse_host_header head = Some host"
      "find_route host (ss_store (app_store (rr_app r))) = None" "tunnel_name host (rr_app r) = Some (tc_sub tc)"
      "lookup_tunnel (tc_sub tc) (rr_app r) = Some e" "te_conn e = tc_conn tc"
    using route_http_owner [OF assms(3)] by blast
  have "owner (st_of r) (tc_sub tc) = Some (tc_conn tc)" using h(5,6) by (simp add: owner_def lookup_tunnel_def)
  from sessions_okD(1) [OF run_ok_facts(3) [OF started_run_ok [OF assms(1,2)]] this] show ?thesis using h by blast
qed

section \<open>Forced disconnection\<close>


section \<open>A run\<close>

text \<open>A relay for \<open>relay.test\<close> starts, and a client registers the name \<open>web\<close>.\<close>

definition demo_args :: Args where
  "demo_args = Args_default\<lparr>arg_base_domain := ''relay.test''\<rparr>"

definition started_app :: "StoreState \<Rightarrow> AppState" where
  "started_app ss = app_state_of demo_start demo_args None AuthPolicy_open [7] ss"

lemma opt_list_none: "opt_list trim None = []" "opt_list (\<lambda>s. to_lowercase (trim s)) None = []"
  by code_simp+

lemma started_app_parts:
  "app_ctx (started_app ss) = conn_ctx_of demo_start demo_args AuthPolicy_open"
  "app_relay (started_app ss) = relay_state_of demo_args" "geoip (started_app ss) = GeoipFilter_new (su_geo demo_start) None []"
  "app_store (started_app ss) = ss" "max_body_bytes (started_app ss) = 10 * 1024 * 1024"
  by (simp_all add: started_app_def app_state_of_def blocked_countries_of_def demo_args_def Args_default_def opt_list_none)

lemma demo_name_free: "name_allowed (conn_ctx_of demo_start demo_args AuthPolicy_open) ''web''"
proof -
  have "label_ok ''web''" using demo_name_allowed(1) by (simp add: name_allowed_def)
  then show ?thesis
    by (simp add: name_allowed_def conn_ctx_of_def demo_args_def Args_default_def reserved_of_def prefix_of_def opt_list_none
        ReservedSubdomains_new_def blocklist_disabled_def)
qed

lemma demo_started_admit:
  "\<exists>st1. admit (app_ctx (started_app ss)) (demo_input 1 ''web'') (app_relay (started_app ss)) = (Inr (Http (Some ''web'')), [], st1)
     \<and> tunnels st1 = [] \<and> custom_domains st1 = []"
  unfolding started_app_parts
  by (simp add: admit_def demo_input_def conn_ctx_of_def relay_state_of_def demo_args_def Args_default_def denylist_check_def
      disabled_def is_enabled_def read_register_def AuthPolicy_check_def AuthPolicy_open_def check_and_record_def RateLimiter_new_def
      per_ip_full_def cap_full_def count_for_ip_def upd_metrics_def Let_def)

text \<open>The state in which the client's task runs, and the step that leads there.\<close>

lemma demo_started_run:
  "\<exists>app fs r0 r s. relay_startup demo_start demo_args = (Inr (app, []), fs)
     \<and> (run_step 1)\<^sup>*\<^sup>* (run_init app) r0 \<and> run_step 1 r0 r \<and> rr_sessions r = [s] \<and> s_key s = ''web'' \<and> s_conn s = 1
     \<and> rr_lost r = [] \<and> rr_pt_tasks r = [] \<and> rr_copies r = []
     \<and> owner (st_of r0) ''web'' = None \<and> map_of (tunnels (st_of r)) ''web'' = Some (new_entry (demo_input 1 ''web'') ''web'')
     \<and> custom_domains (st_of r) = [] \<and> (\<exists>st ss. rr_app r = (started_app ss)\<lparr>app_relay := st\<rparr> \<and> routes (ss_store ss) = [])"
proof -
  let ?ci = "demo_input 1 ''web''" and ?kind = "Http (Some ''web'')"
  obtain ss where a: "relay_startup demo_start demo_args = (Inr (started_app ss, []), ss_files ss)" "ss_store ss = demo_new_store"
    using demo_starts [of "''relay.test''"] unfolding demo_args_def [symmetric] started_app_def [symmetric] by blast
  let ?app = "started_app ss"
  obtain st1 where m: "admit (app_ctx ?app) ?ci (app_relay ?app) = (Inr ?kind, [], st1)" "tunnels st1 = []" "custom_domains st1 = []"
    using demo_started_admit by blast
  define r0 where "r0 = (set_st st1 (run_init ?app))\<lparr>rr_pend := [(?ci, ?kind)], rr_used := {1}\<rparr>"
  have "run_step 1 (run_init ?app) ((set_st st1 (run_init ?app))\<lparr>rr_pend := rr_pend (run_init ?app) @ [(?ci, ?kind)],
      rr_used := insert (ci_conn ?ci) (rr_used (run_init ?app))\<rparr>)"
    by (rule run_admit [OF _ demo_gen]) (use m(1) in \<open>simp_all add: run_init_def\<close>)
  then have s0: "run_step 1 (run_init ?app) r0" by (simp add: r0_def run_init_def demo_input_def)
  have app0: "rr_app r0 = ?app\<lparr>app_relay := st1\<rparr>" by (simp add: r0_def set_st_def run_init_def)
  then have ctx0: "ctx_of r0 = conn_ctx_of demo_start demo_args AuthPolicy_open" by (simp add: started_app_parts)
  obtain s out st2 where o: "open_http (ctx_of r0) ?ci (Some ''web'') st1 = (Inr s, out, st2)"
      "tunnels st2 = AList.update ''web'' (new_entry ?ci ''web'') (tunnels st1)"
    using open_http_free [OF demo_name_free, of st1 ?ci] m(2) unfolding ctx0 by (auto simp: demo_input_def)
  note k = open_http_ok [OF o(1)]
  have c: "custom_domains st2 = []" using k m(3) by (simp add: core_def tunnels_insert_def)
  define r where "r = (set_st st2 r0)\<lparr>rr_pend := [], rr_sessions := [s], rr_lost := []\<rparr>"
  have "rr_pend r0 = [] @ (?ci, ?kind) # []" "os_bind_law (ci_bind ?ci) (rr_sessions r0)"
      "open_kind (ctx_of r0) ?ci ?kind (st_of r0) = (Inr s, out, st2)"
    using o(1) by (simp_all add: r0_def run_init_def os_bind_law_def open_kind_def)
  from run_open [OF this, of 1] have s1: "run_step 1 r0 r" by (simp add: r_def r0_def run_init_def lost_entry_def)
  have "routes (ss_store ss) = []" by (simp add: a(2) demo_new_store_def Store_default_def)
  moreover have "rr_app r = ?app\<lparr>app_relay := st2\<rparr>" using app0 by (simp add: r_def set_st_def)
  moreover have "owner (st_of r0) ''web'' = None" "map_of (tunnels (st_of r)) ''web'' = Some (new_entry ?ci ''web'')"
    using m(2) o(2) by (simp_all add: owner_def r0_def r_def)
  moreover have "rr_sessions r = [s]" "rr_lost r = []" "rr_pt_tasks r = []" "rr_copies r = []" "custom_domains (st_of r) = []"
    using c by (simp_all add: r_def r0_def run_init_def)
  moreover have "s_key s = ''web''" "s_conn s = 1" using k by (simp_all add: chosen_name_def demo_input_def)
  ultimately show ?thesis using a(1) s1 r_into_rtranclp [of "run_step 1", OF s0] by blast
qed

theorem started_relay_invariant_witness:
  "\<exists>app fs r. relay_startup demo_start demo_args = (Inr (app, []), fs) \<and> (run_step 1)\<^sup>*\<^sup>* (run_init app) r
     \<and> length (tunnels (st_of r)) \<ge> 1 \<and> distinct (map fst (tunnels (st_of r))) \<and> rr_pt_active r = 0"
proof -
  obtain app fs r0 r where s: "relay_startup demo_start demo_args = (Inr (app, []), fs)" and r0: "(run_step 1)\<^sup>*\<^sup>* (run_init app) r0"
      and r1: "run_step 1 r0 r" and m: "map_of (tunnels (st_of r)) ''web'' = Some (new_entry (demo_input 1 ''web'') ''web'')"
      and p: "rr_pt_tasks r = []"
    using demo_started_run by blast
  have r: "(run_step 1)\<^sup>*\<^sup>* (run_init app) r" using r0 r1 by simp
  have "length (tunnels (st_of r)) \<ge> 1" using m by (cases "tunnels (st_of r)") auto
  then show ?thesis using started_relay_invariant [OF s r] s r p by auto
qed




theorem tunnel_traffic_isolated_witness:
  "\<exists>app fs r s tc app'. relay_startup demo_start demo_args = (Inr (app, []), fs) \<and> (run_step 1)\<^sup>*\<^sup>* (run_init app) r
     \<and> rr_sessions r = [s] \<and> route_http demo_http (rr_app r) = (Tunnelling tc, app') \<and> s_key s = tc_sub tc \<and> s_conn s = tc_conn tc"
proof -
  obtain app fs r0 r s st ss where s: "relay_startup demo_start demo_args = (Inr (app, []), fs)" and r0: "(run_step 1)\<^sup>*\<^sup>* (run_init app) r0"
      and r1: "run_step 1 r0 r" and m: "map_of (tunnels (st_of r)) ''web'' = Some (new_entry (demo_input 1 ''web'') ''web'')"
      and l: "rr_lost r = []" "rr_sessions r = [s]" and c: "custom_domains (st_of r) = []"
      and a: "rr_app r = (started_app ss)\<lparr>app_relay := st\<rparr>" "routes (ss_store ss) = []"
    using demo_started_run by blast
  have r: "(run_step 1)\<^sup>*\<^sup>* (run_init app) r" using r0 r1 by simp
  have g: "fst (geoip_is_blocked (geoip (rr_app r)) (sa_ip (hi_peer demo_http)) (geoip_blocked (rr_app r))) = False"
    by (simp add: a(1) started_app_parts geoip_is_blocked_def GeoipFilter_new_def)
  have cl: "parse_content_length demo_ws_head = None" by code_simp
  have o: "ordinary demo_ws_head (rr_app r)" by (simp add: ordinary_def demo_head_facts cl)
  have f: "find_route ''web.relay.test:80'' (ss_store (app_store (rr_app r))) = None"
    by (simp add: a started_app_parts find_route_def)
  have n: "tunnel_name ''web.relay.test:80'' (rr_app r) = Some ''web''"
    using tunnel_name_public [of "''web''" "''relay.test''" "rr_app r" "''web.relay.test:80''" "''80''"] c
    by (simp add: a(1) started_app_parts conn_ctx_of_def demo_args_def)
  have k: "lookup_tunnel ''web'' (rr_app r) = Some (new_entry (demo_input 1 ''web'') ''web'')" using m by (simp add: lookup_tunnel_def)
  have w: "hi_newconn_write demo_http" "hi_head_write demo_http" by (simp_all add: demo_http_def)
  obtain tc app' where t: "route_http demo_http (rr_app r) = (Tunnelling tc, app')"
    unfolding route_http_request [OF g demo_reads] route_request_host [OF o demo_head_facts(1)] route_host_tunnel [OF f n k]
    using route_tunnel_open [OF fresh_entry_open w demo_head_facts(5)] by blast
  show ?thesis using tunnel_traffic_isolated [OF s r t] s r t l by auto
qed


end
