(* ===== verification/Relay_Main.thy ===== *)
theory Relay_Main
  imports Started
begin

text \<open>
  \<open>main\<close> of the relay as a whole: the tasks it starts and their order, the wait for the first
  certificate in between, and the loop that accepts connections of the seam server.
\<close>

section \<open>Tasks\<close>

datatype task =
    AdminServer sockaddr | PassthroughListener TcpPassthroughConfig | HttpIngress sockaddr
  | SigusrTask | HttpsIngress sockaddr | ChallengeServer sockaddr | RenewalTask
  | SighupTask | ExpiryTask u64 | StatsTask | SigtermTask

definition ANY_80 :: sockaddr where
  "ANY_80 = \<lparr>sa_ip = V4 0, sa_port = 80\<rparr>"

text \<open>Before and after the wait for the first certificate.\<close>

definition tasks_before :: "Args \<Rightarrow> TcpPassthroughConfig list \<Rightarrow> task list" where
  "tasks_before args cfgs =
     [AdminServer (arg_admin_addr args)] @ map PassthroughListener cfgs @ [HttpIngress (arg_http_addr args)]
     @ (case arg_https_addr args of None \<Rightarrow> [] | Some a \<Rightarrow> [SigusrTask, HttpsIngress a])
     @ (if arg_acme_email args \<noteq> None \<and> arg_cloudflare_api_token args = None then [ChallengeServer ANY_80] else [])"

definition tasks_after :: "Args \<Rightarrow> task list" where
  "tasks_after args =
     (if arg_acme_email args \<noteq> None then [RenewalTask] else []) @ [SighupTask]
     @ (if arg_tunnel_max_age args > 0 then [ExpiryTask (arg_tunnel_max_age args)] else []) @ [StatsTask, SigtermTask]"

definition merged_args :: "'i StartEnv \<Rightarrow> Args \<Rightarrow> Args" where
  "merged_args env args0 =
     apply_file_config (fst (load_file_config (su_read env) (su_from_toml env) (su_home env) (arg_config args0))) args0"

datatype main_state = Failed start_error | Panicked fault | WaitingForCertificate | Accepting AppState

definition result_of :: "start_error + AppState \<times> TcpPassthroughConfig list \<Rightarrow> main_state" where
  "result_of r = (case r of Inl e \<Rightarrow> Failed e | Inr (app, _) \<Rightarrow> Accepting app)"

fun ended_early :: "main_state \<Rightarrow> bool" where
  "ended_early (Failed e) \<longleftrightarrow> e \<noteq> SeamBind"
| "ended_early _ \<longleftrightarrow> False"

text \<open>
  What has been started, and where \<open>main\<close> is. \<open>cert\<close> is \<open>initial_certificate\<close> on the outside world: \<open>None\<close>
  when it never returns. An error before the wait ends the process; of such a run no task is
  listed. The seam port is bound last.
\<close>

definition relay_main ::
  "'i StartEnv \<Rightarrow> (AcmeConfig option \<Rightarrow> (fault + AcmeState) option) \<Rightarrow> Args \<Rightarrow> task list \<times> main_state" where
  "relay_main env cert args0 =
     (let args = merged_args env args0; r = fst (relay_startup env args0);
          cfgs = (case parse_passthroughs (arg_tcp_passthrough args) of Inr cfgs \<Rightarrow> cfgs | Inl _ \<Rightarrow> []);
          spawned = tasks_before args cfgs
      in if ended_early (result_of r) then ([], result_of r)
         else case cert (acme_config_of (su_home env) args) of
                None \<Rightarrow> (spawned, WaitingForCertificate)
              | Some (Inl f) \<Rightarrow> (spawned, Panicked f)
              | Some (Inr _) \<Rightarrow> (spawned @ tasks_after args, result_of r))"

section \<open>The accept loop\<close>

datatype seam_event = CtrlCPressed | ServerClosed | SeamConn sockaddr

text \<open>The \<open>client_ip\<close> of each connection handed to \<open>handle_client\<close>, in order.\<close>

fun accept_loop :: "seam_event list \<Rightarrow> string list" where
  "accept_loop [] = []"
| "accept_loop (CtrlCPressed # es) = []"
| "accept_loop (ServerClosed # es) = []"
| "accept_loop (SeamConn remote # es) = show_ip (sa_ip remote) # accept_loop es"

lemma accept_loop_conns: "accept_loop (map SeamConn remotes @ es) = map (show_ip \<circ> sa_ip) remotes @ accept_loop es"
  by (induction remotes) simp_all

section \<open>When the relay serves clients\<close>

lemma merged_startup:
  assumes "relay_startup env args0 = (Inr (app, cfgs), fs)"
  shows "parse_passthroughs (arg_tcp_passthrough (merged_args env args0)) = Inr cfgs"
  using assms unfolding relay_startup_def merged_args_def Let_def
  by (auto split: prod.splits sum.splits option.splits if_splits)


text \<open>
  While \<open>main\<close> waits for the first certificate the public ports are served already, but nobody
  handles SIGTERM and SIGHUP, no tunnel expires and no statistics are taken; if the authority
  never delivers, this stays so, and no client can connect.
\<close>

theorem waiting_relay_unattended:
  assumes "relay_startup env args0 = (Inr (app, cfgs), fs)" and "cert (acme_config_of (su_home env) (merged_args env args0)) = None"
  shows "\<exists>tasks. relay_main env cert args0 = (tasks, WaitingForCertificate)
    \<and> HttpIngress (arg_http_addr (merged_args env args0)) \<in> set tasks
    \<and> AdminServer (arg_admin_addr (merged_args env args0)) \<in> set tasks
    \<and> SigtermTask \<notin> set tasks \<and> SighupTask \<notin> set tasks \<and> StatsTask \<notin> set tasks \<and> (\<forall>m. ExpiryTask m \<notin> set tasks)"
  using assms by (auto simp: relay_main_def result_of_def tasks_before_def Let_def split: option.splits)

text \<open>The addresses the tasks listen on; a passthrough listener takes all addresses of its port.\<close>

fun listens :: "task \<Rightarrow> sockaddr option" where
  "listens (AdminServer a) = Some a"
| "listens (PassthroughListener cfg) = Some \<lparr>sa_ip = V4 0, sa_port = listen_port cfg\<rparr>"
| "listens (HttpIngress a) = Some a"
| "listens (HttpsIngress a) = Some a"
| "listens (ChallengeServer a) = Some a"
| "listens _ = None"

text \<open>
  A relay that serves HTTP on port 80 and is to get its certificates over HTTP-01 cannot: the
  challenge server wants the address the ingress listens on, and one of the two does not get it.
\<close>

theorem challenge_port_conflict:
  assumes "arg_http_addr args = ANY_80" and "arg_acme_email args \<noteq> None" and "arg_cloudflare_api_token args = None"
  shows "\<not> distinct (List.map_filter listens (tasks_before args cfgs))"
proof -
  have "List.map_filter listens (xs @ [HttpIngress ANY_80] @ ys @ [ChallengeServer ANY_80])
      = List.map_filter listens xs @ [ANY_80] @ List.map_filter listens ys @ [ANY_80]" for xs ys
    by (simp add: List.map_filter_def)
  note eq = this [of "AdminServer (arg_admin_addr args) # map PassthroughListener cfgs"
      "case arg_https_addr args of None \<Rightarrow> [] | Some a \<Rightarrow> [SigusrTask, HttpsIngress a]"]
  have "tasks_before args cfgs = (AdminServer (arg_admin_addr args) # map PassthroughListener cfgs) @ [HttpIngress ANY_80]
      @ (case arg_https_addr args of None \<Rightarrow> [] | Some a \<Rightarrow> [SigusrTask, HttpsIngress a]) @ [ChallengeServer ANY_80]"
    using assms by (simp add: tasks_before_def)
  then have "List.map_filter listens (tasks_before args cfgs) = List.map_filter listens
      (AdminServer (arg_admin_addr args) # map PassthroughListener cfgs) @ [ANY_80]
      @ List.map_filter listens (case arg_https_addr args of None \<Rightarrow> [] | Some a \<Rightarrow> [SigusrTask, HttpsIngress a]) @ [ANY_80]"
    using eq by metis
  then show ?thesis by simp
qed

end
