(* ===== verification/Listeners.thy ===== *)
theory Listeners
  imports Config Admin_Router
begin

text \<open>
  The servers of the relay beside the public ingress: the admin server (\<open>start_admin\<close> and \<open>serve_tls\<close>
  of \<open>admin.rs\<close>), the passthrough listeners (\<open>run_tcp_passthrough\<close>), the HTTP-01 challenge server
  (\<open>run_acme_http_server\<close>), and the renewal task (\<open>spawn_renewal_task\<close>). Each is a function of what
  its \<open>bind\<close> says and of the results of its \<open>accept\<close> calls, or of its timer. Every one of the loops
  survives failed calls of \<open>accept\<close>, which the locale \<open>resilient\<close> states once.
\<close>

section \<open>Loops that survive accept errors\<close>

datatype 'c accepted = Accept_err | Accept_ok 'c

locale resilient =
  fixes loop :: "'c accepted list \<Rightarrow> 's \<Rightarrow> 's"
  assumes loop_nil: "loop [] s = s"
    and loop_cons: "loop (e # es) s = loop es (loop [e] s)"
    and loop_err: "loop [Accept_err] s = s"
begin

lemma loop_append: "loop (es @ later) s = loop later (loop es s)"
proof (induction es arbitrary: s)
  case Nil
  show ?case by (simp add: loop_nil)
next
  case (Cons e es)
  show ?case using loop_cons [of e "es @ later" s] loop_cons [of e es s] Cons by simp
qed

lemma errors_cost_nothing: "loop es s = loop (map Accept_ok (List.map_filter (case_accepted None Some) es)) s"
proof (induction es arbitrary: s)
  case Nil
  show ?case by (simp add: List.map_filter_def)
next
  case (Cons e es)
  show ?case
  proof (cases e)
    case Accept_err
    then show ?thesis using loop_cons [of e es s] Cons loop_err by (simp add: List.map_filter_def)
  next
    case (Accept_ok c)
    show ?thesis
      using loop_cons [of e es s] loop_cons [of e "map Accept_ok (List.map_filter (case_accepted None Some) es)" s] Cons Accept_ok
      by (simp add: List.map_filter_def)
  qed
qed

end

section \<open>TCP passthrough\<close>

text \<open>The state of the relay and the forwarding tasks that have been spawned.\<close>

fun passthrough_loop ::
  "TcpPassthroughConfig \<Rightarrow> (nat \<times> int \<times> sockaddr) accepted list \<Rightarrow> AppState \<times> pt_task list \<Rightarrow> AppState \<times> pt_task list" where
  "passthrough_loop cfg [] s = s"
| "passthrough_loop cfg (Accept_err # es) s = passthrough_loop cfg es s"
| "passthrough_loop cfg (Accept_ok (now, unix, peer) # es) (app, tasks) =
     (case passthrough_accept cfg now unix peer app of
        (Refused, app') \<Rightarrow> passthrough_loop cfg es (app', tasks)
      | (Spawn b, app') \<Rightarrow>
          passthrough_loop cfg es (app', \<lparr>pt_cfg = cfg, pt_peer = peer, pt_backend = b, pt_phase = Spawned\<rparr> # tasks))"

text \<open>\<open>Inl\<close>: the port cannot be bound, and the task ends.\<close>

definition run_tcp_passthrough ::
  "(sockaddr \<Rightarrow> bool) \<Rightarrow> TcpPassthroughConfig \<Rightarrow> (nat \<times> int \<times> sockaddr) accepted list \<Rightarrow> AppState \<Rightarrow> unit + AppState \<times> pt_task list" where
  "run_tcp_passthrough bind_ok cfg es app =
     (if bind_ok \<lparr>sa_ip = V4 0, sa_port = listen_port cfg\<rparr> then Inr (passthrough_loop cfg es (app, [])) else Inl ())"

section \<open>The HTTP-01 challenge server\<close>

text \<open>
  The answers of the spawned tasks. A connection is the table of challenge tokens when its request
  has been read, and the result of that one read.
\<close>

type_synonym acme_conn = "(string, string) hashmap \<times> string option"

fun acme_loop :: "acme_conn accepted list \<Rightarrow> string option list \<Rightarrow> string option list" where
  "acme_loop [] out = out"
| "acme_loop (Accept_err # es) out = acme_loop es out"
| "acme_loop (Accept_ok (challenges, buf) # es) out = acme_loop es (out @ [acme_http_response challenges buf])"

definition run_acme_http_server :: "(sockaddr \<Rightarrow> bool) \<Rightarrow> sockaddr \<Rightarrow> acme_conn accepted list \<Rightarrow> string + string option list" where
  "run_acme_http_server bind_ok addr es =
     (if bind_ok addr then Inr (acme_loop es []) else Inl ''binding ACME HTTP-01 server'')"

section \<open>The admin server\<close>

text \<open>
  A connection to the admin port: its peer, whether the router made a service for it, what the peer
  offers in a TLS handshake, and the requests the server library reads from it, each with the
  state of the world it is served in.
\<close>

record 'k admin_conn =
  ac_peer :: sockaddr
  ac_service :: bool
  ac_client :: 'k
  ac_requests :: "(AdminWorld \<times> AdminInput \<times> http_req) list"

text \<open>The connections for which a task is spawned.\<close>

fun serve_tls :: "'k admin_conn accepted list \<Rightarrow> 'k admin_conn list \<Rightarrow> 'k admin_conn list" where
  "serve_tls [] spawned = spawned"
| "serve_tls (Accept_err # es) spawned = serve_tls es spawned"
| "serve_tls (Accept_ok c # es) spawned = serve_tls es (if ac_service c then spawned @ [c] else spawned)"

text \<open>Without TLS the accept loop is the one of the server library, which also passes over errors.\<close>

definition axum_serve :: "'c accepted list \<Rightarrow> 'c list" where
  "axum_serve es = List.map_filter (case_accepted None Some) es"

text \<open>\<open>Inl\<close>: the address cannot be bound.\<close>

definition start_admin ::
  "(sockaddr \<Rightarrow> bool) \<Rightarrow> sockaddr \<Rightarrow> ServerConfig option \<Rightarrow> 'k admin_conn accepted list \<Rightarrow> unit + (ServerConfig option \<times> 'k admin_conn) list" where
  "start_admin bind_ok addr tls es =
     (if \<not> bind_ok addr then Inl ()
      else case tls of
             Some acceptor \<Rightarrow> Inr (map (Pair (Some acceptor)) (serve_tls es []))
           | None \<Rightarrow> Inr (map (Pair None) (axum_serve es)))"

text \<open>The requests of a connection: the handlers see the address of the peer. A panic (\<open>None\<close>) is no answer.\<close>

fun serve_requests :: "sockaddr \<Rightarrow> (AdminWorld \<times> AdminInput \<times> http_req) list \<Rightarrow> AppState \<Rightarrow> response option list \<times> AppState" where
  "serve_requests peer [] app = ([], app)"
| "serve_requests peer ((w, ai, rq) # rqs) app =
     (case fst (admin_service w (ai\<lparr>ai_peer := sa_ip peer\<rparr>) rq app) of
        None \<Rightarrow> (let (rs, app') = serve_requests peer rqs app in (None # rs, app'))
      | Some (r, app1) \<Rightarrow> (let (rs, app') = serve_requests peer rqs app1 in (Some r # rs, app')))"

text \<open>The spawned task. \<open>handshake\<close> is the TLS handshake of the library; a failed one ends the task.\<close>

definition admin_connection ::
  "(ServerConfig \<Rightarrow> 'k \<Rightarrow> bool) \<Rightarrow> ServerConfig option \<times> 'k admin_conn \<Rightarrow> AppState \<Rightarrow> response option list \<times> AppState" where
  "admin_connection handshake conn app =
     (case conn of
        (Some acceptor, c) \<Rightarrow>
          if \<not> handshake acceptor (ac_client c) then ([], app) else serve_requests (ac_peer c) (ac_requests c) app
      | (None, c) \<Rightarrow> serve_requests (ac_peer c) (ac_requests c) app)"

text \<open>
  What the TLS library promises of client verification: with roots configured, a handshake succeeds
  only with a peer that has presented a certificate one of the roots has issued.
\<close>

definition tls_law :: "(ServerConfig \<Rightarrow> 'k \<Rightarrow> bool) \<Rightarrow> ('k \<Rightarrow> cert option) \<Rightarrow> (cert \<Rightarrow> cert \<Rightarrow> bool) \<Rightarrow> bool" where
  "tls_law handshake presented issued \<longleftrightarrow>
     (\<forall>cfg k roots. sc_client_roots cfg = Some roots \<longrightarrow> handshake cfg k \<longrightarrow>
        (\<exists>crt root. presented k = Some crt \<and> root \<in> set roots \<and> issued root crt))"

section \<open>The renewal task\<close>

text \<open>
  A tick of the 12 hour timer finds a clock, readable files and an authority. The task goes on, has
  panicked in the expiry check, or waits for the authority for ever.
\<close>

type_synonym acme_world = "nat option \<times> (string \<Rightarrow> bool) \<times> AcmeEnv"

datatype task_state = TaskRuns | TaskPanicked fault | TaskWaits

fun renewal_loop ::
  "(string \<Rightarrow> u8 list option) \<Rightarrow> AcmeConfig \<Rightarrow> acme_world list \<Rightarrow> AcmeState \<Rightarrow> (string \<times> string) list
     \<Rightarrow> task_state \<times> (string \<times> string) list \<times> AcmeState" where
  "renewal_loop base64_decode cfg [] st sent = (TaskRuns, sent, st)"
| "renewal_loop base64_decode cfg ((now, readable, env) # ticks) st sent =
     (case renewal_tick base64_decode now readable env cfg st of
        None \<Rightarrow> (TaskWaits, sent, st)
      | Some (Inl e, st') \<Rightarrow> (TaskPanicked e, sent, st')
      | Some (Inr None, st') \<Rightarrow> renewal_loop base64_decode cfg ticks st' sent
      | Some (Inr (Some pair), st') \<Rightarrow> renewal_loop base64_decode cfg ticks st' (sent @ [pair]))"

text \<open>The first tick of the timer comes at once and is discarded.\<close>

definition spawn_renewal_task ::
  "(string \<Rightarrow> u8 list option) \<Rightarrow> AcmeConfig \<Rightarrow> acme_world list \<Rightarrow> AcmeState \<Rightarrow> task_state \<times> (string \<times> string) list \<times> AcmeState" where
  "spawn_renewal_task base64_decode cfg ticks st = renewal_loop base64_decode cfg (drop 1 ticks) st []"

section \<open>The loops survive\<close>

interpretation pt_listener: resilient "passthrough_loop cfg" for cfg
proof
  show "passthrough_loop cfg (e # es) s = passthrough_loop cfg es (passthrough_loop cfg [e] s)" for e es s
    by (cases "(cfg, e # es, s)" rule: passthrough_loop.cases) (auto split: prod.splits accept_result.splits)
qed simp_all

interpretation acme_listener: resilient acme_loop
proof
  show "acme_loop (e # es) out = acme_loop es (acme_loop [e] out)" for e es out
    by (cases "(e # es, out)" rule: acme_loop.cases) simp_all
qed simp_all

interpretation admin_listener: resilient serve_tls
proof
  show "serve_tls (e # es) out = serve_tls es (serve_tls [e] out)" for e :: "'a admin_conn accepted" and es out
    by (cases e) simp_all
qed simp_all

text \<open>
  Running out of file descriptors for a while costs the three servers nothing but the connections
  that could not be accepted: they serve the rest as if the errors had not happened.
\<close>

theorem listeners_survive_errors:
  "passthrough_loop cfg (es @ replicate n Accept_err @ later) s = passthrough_loop cfg (es @ later) s"
  "acme_loop (es' @ replicate n Accept_err @ later') out = acme_loop (es' @ later') out"
  "serve_tls (es'' @ replicate n Accept_err @ later'') spawned = serve_tls (es'' @ later'') spawned"
proof -
  show "passthrough_loop cfg (es @ replicate n Accept_err @ later) s = passthrough_loop cfg (es @ later) s"
    by (subst (1 2) pt_listener.errors_cost_nothing) (simp add: List.map_filter_def)
  show "acme_loop (es' @ replicate n Accept_err @ later') out = acme_loop (es' @ later') out"
    by (subst (1 2) acme_listener.errors_cost_nothing) (simp add: List.map_filter_def)
  show "serve_tls (es'' @ replicate n Accept_err @ later'') spawned = serve_tls (es'' @ later'') spawned"
    by (subst (1 2) admin_listener.errors_cost_nothing) (simp add: List.map_filter_def)
qed

section \<open>Who is served on the admin port\<close>

lemma denied_peer_changes_nothing:
  assumes "\<not> ip_in_cidr (sa_ip peer) (app_admin_cidrs app)"
  shows "snd (serve_requests peer rqs app) = app"
proof (induction rqs)
  case (Cons r rqs)
  obtain w ai rq where r: "r = (w, ai, rq)" by (cases r) auto
  have "fst (admin_service w (ai\<lparr>ai_peer := sa_ip peer\<rparr>) rq app) = Some (x, app')
      \<Longrightarrow> app' = app" for x app'
    using assms by (auto simp: admin_service_def ip_filter split: option.splits)
  then show ?case using Cons r by (auto split: option.splits prod.splits)
qed simp

lemma start_admin_conns:
  assumes "start_admin bind_ok addr tls es = Inr conns"
  shows "(acceptor, c) \<in> set conns \<Longrightarrow> acceptor = tls"
    and "Accept_ok c \<in> set es \<Longrightarrow> ac_service c \<Longrightarrow> (tls, c) \<in> set conns"
proof -
  have m: "set (serve_tls es spawned) = set spawned \<union> {c. Accept_ok c \<in> set es \<and> ac_service c}"
    for es spawned :: "_ list"
    by (induction es spawned rule: serve_tls.induct) auto
  show "(acceptor, c) \<in> set conns \<Longrightarrow> acceptor = tls"
    using assms by (auto simp: start_admin_def split: if_splits option.splits)
  show "Accept_ok c \<in> set es \<Longrightarrow> ac_service c \<Longrightarrow> (tls, c) \<in> set conns"
    using assms m by (force simp: start_admin_def axum_serve_def List.map_filter_def split: if_splits option.splits)
qed


text \<open>An admin with the certificate \<open>[1]\<close>, which the CA file holds.\<close>

definition demo_handshake :: "ServerConfig \<Rightarrow> cert option \<Rightarrow> bool" where
  "demo_handshake cfg k = (case (sc_client_roots cfg, k) of
      (None, _) \<Rightarrow> True | (Some roots, Some crt) \<Rightarrow> crt \<in> set roots | (Some _, None) \<Rightarrow> False)"

definition demo_admin_conn :: "cert option \<Rightarrow> cert option admin_conn" where
  "demo_admin_conn k = \<lparr>ac_peer = \<lparr>sa_ip = V4 2130706433, sa_port = 40000\<rparr>, ac_service = True, ac_client = k,
     ac_requests = [(demo_world, demo_admin [], demo_http_req ''GET'' ''/health'')]\<rparr>"

definition demo_admin_args :: Args where
  "demo_admin_args = Args_default\<lparr>arg_admin_tls_cert := Some ''c'', arg_admin_tls_key := Some ''k'', arg_admin_client_ca := Some ''ca''\<rparr>"

lemma answered_each: "length (fst (serve_requests peer rqs app)) = length rqs"
  by (induction peer rqs app rule: serve_requests.induct) (auto split: option.splits prod.splits)


section \<open>The loops and the tasks they feed\<close>

text \<open>A passthrough listener takes the steps of \<open>pt_step\<close>, so that its gauge theorem covers the loop.\<close>

lemma passthrough_loop_steps:
  "pt_step\<^sup>*\<^sup>* ((fst s, n), snd s) ((fst (passthrough_loop cfg es s), n), snd (passthrough_loop cfg es s))"
proof (induction cfg es s rule: passthrough_loop.induct)
  case (3 cfg now unix peer es app tasks)
  show ?case
  proof (cases "passthrough_accept cfg now unix peer app")
    case (Pair r app')
    then show ?thesis
      using 3 pt_refuse [of cfg now unix peer app app' n tasks] pt_spawn [of cfg now unix peer app _ app' n tasks]
      by (cases r) (auto intro: converse_rtranclp_into_rtranclp)
  qed
qed simp_all

text \<open>
  A panic of the expiry check is the end of renewal: whatever happens later, no certificate is
  ordered any more, and nothing is sent.
\<close>

theorem renewal_panic_is_final:
  assumes "renewal_loop base64_decode cfg ticks st sent = (TaskRuns, sent', st')"
    and "needs_renewal base64_decode now cfg readable (acme_files st') = Inl e"
  shows "renewal_loop base64_decode cfg (ticks @ (now, readable, env) # later) st sent = (TaskPanicked e, sent', st')"
  using assms
  by (induction base64_decode cfg ticks st sent rule: renewal_loop.induct)
     (auto simp: renewal_tick_def split: option.splits sum.splits prod.splits)

end
