(* ===== verification/Client.thy ===== *)
theory Client
  imports Tunnel_Props Store
begin

text \<open>
  The client, \<open>seamless-client\<close>: its configuration file, the command line merged with it, one
  session with a relay, and the reconnect loop.

  Parameters: the TOML and hex codecs, the check of an ML-KEM key, the seam transport (a record
  \<open>SessionEnv\<close> of what one session meets) and the debug rendering of a frame. An error is the text
  \<open>anyhow\<close> displays for it. The reconnect loop may run for ever, so it is a partial function: \<open>None\<close>
  is a client that keeps reconnecting.
\<close>

section \<open>Configuration file (config.rs)\<close>

record ClientConfig =
  cc_relay :: "string option"
  cc_x25519 :: "string option"
  cc_kem :: "string option"
  cc_token :: "string option"
  cc_local :: "string option"
  cc_subdomain :: "string option"
  cc_tls_verify :: bool

definition ClientConfig_default :: ClientConfig where
  "ClientConfig_default = \<lparr>cc_relay = None, cc_x25519 = None, cc_kem = None, cc_token = None, cc_local = None,
     cc_subdomain = None, cc_tls_verify = False\<rparr>"

text \<open>
  What the configuration code uses: the user's configuration directory, the TOML parser and
  printer, and whether the directory, the write and the rename of a save succeed.
\<close>

record ConfigEnv =
  ce_dir :: "string option"
  ce_from_toml :: "string \<Rightarrow> ClientConfig option"
  ce_to_toml :: "ClientConfig \<Rightarrow> string option"
  ce_mkdir :: bool
  ce_write :: write_outcome
  ce_rename :: bool

definition default_config_path :: "ConfigEnv \<Rightarrow> string" where
  "default_config_path env =
     path_join (path_join (case ce_dir env of Some d \<Rightarrow> d | None \<Rightarrow> ''.'') ''seamless'') ''config.toml''"

definition load_from :: "ConfigEnv \<Rightarrow> string option \<Rightarrow> files \<Rightarrow> ClientConfig" where
  "load_from env path fs =
     (let resolved = (case path of Some p \<Rightarrow> p | None \<Rightarrow> default_config_path env)
      in case fs resolved of
           None \<Rightarrow> ClientConfig_default
         | Some content \<Rightarrow> (case ce_from_toml env content of Some cfg \<Rightarrow> cfg | None \<Rightarrow> ClientConfig_default))"

definition config_save :: "ConfigEnv \<Rightarrow> ClientConfig \<Rightarrow> files \<Rightarrow> (string + unit) \<times> files" where
  "config_save env cfg fs =
     (if \<not> ce_mkdir env then (Inl ''create config dir'', fs)
      else case ce_to_toml env cfg of
        None \<Rightarrow> (Inl ''serialize config'', fs)
      | Some content \<Rightarrow>
          let path = default_config_path env; tmp = with_extension path ''toml.tmp''
          in (case ce_write env of
                OpenFails \<Rightarrow> (Inl ''write config tmp'', fs)
              | FailsAfter n \<Rightarrow> (Inl ''write config tmp'', fs(tmp \<mapsto> take n content))
              | Written \<Rightarrow>
                  if \<not> ce_rename env then (Inl ''atomic rename config'', fs(tmp \<mapsto> content))
                  else (Inr (), fs_rename tmp path (fs(tmp \<mapsto> content)))))"

section \<open>Command line\<close>

datatype ConfigAction =
    Init "string option" "string option" "string option" "string option" "string option"
  | Show
  | Clear

datatype Cmd =
    HttpCmd u16 "string option"
  | TcpCmd u16 u16
  | ConfigCmd ConfigAction

record ClientArgs =
  ca_config :: "string option"
  ca_relay :: "string option"
  ca_x25519 :: "string option"
  ca_kem :: "string option"
  ca_token :: "string option"
  ca_max_retries :: u32
  ca_quiet :: bool
  ca_cmd :: Cmd

fun to_kind :: "Cmd \<Rightarrow> string option \<Rightarrow> TunnelKind option" where
  "to_kind (HttpCmd _ subdomain) saved = Some (Http (case subdomain of Some s \<Rightarrow> Some s | None \<Rightarrow> saved))"
| "to_kind (TcpCmd _ remote_port) saved = Some (Tcp remote_port)"
| "to_kind (ConfigCmd _) saved = None"

fun local_target :: "Cmd \<Rightarrow> string option" where
  "local_target (HttpCmd p _) = Some (''127.0.0.1:'' @ show_word p)"
| "local_target (TcpCmd p _) = Some (''127.0.0.1:'' @ show_word p)"
| "local_target (ConfigCmd _) = None"

section \<open>The config subcommand\<close>

definition or_else :: "'a option \<Rightarrow> 'a option \<Rightarrow> 'a option" where
  "or_else a b = (case a of Some x \<Rightarrow> Some x | None \<Rightarrow> b)"

definition opt_line :: "string \<Rightarrow> string option \<Rightarrow> string list" where
  "opt_line label v = (case v of Some s \<Rightarrow> [label @ s] | None \<Rightarrow> [])"

definition shown :: "string option \<Rightarrow> string" where
  "shown v = (case v of Some s \<Rightarrow> s | None \<Rightarrow> ''<not set>'')"

definition kem_size :: "string \<Rightarrow> string" where
  "kem_size k = ''<'' @ show_nat (length k div 2) @ '' bytes>''"

definition merge_init :: "string option \<Rightarrow> string option \<Rightarrow> string option \<Rightarrow> string option \<Rightarrow> string option
    \<Rightarrow> ClientConfig \<Rightarrow> ClientConfig" where
  "merge_init relay x25519 kem token subdomain cfg =
     (let cfg = (if relay \<noteq> None then cfg\<lparr>cc_relay := relay\<rparr> else cfg);
          cfg = (if x25519 \<noteq> None then cfg\<lparr>cc_x25519 := x25519\<rparr> else cfg);
          cfg = (if kem \<noteq> None then cfg\<lparr>cc_kem := kem\<rparr> else cfg);
          cfg = (if token \<noteq> None then cfg\<lparr>cc_token := token\<rparr> else cfg)
      in if subdomain \<noteq> None then cfg\<lparr>cc_subdomain := subdomain\<rparr> else cfg)"

text \<open>The result, the lines printed and the files.\<close>

fun handle_config :: "ConfigEnv \<Rightarrow> ConfigAction \<Rightarrow> files \<Rightarrow> (string + unit) \<times> string list \<times> files" where
  "handle_config env (Init relay x25519 kem token subdomain) fs =
     (let cfg = merge_init relay x25519 kem token subdomain (load_from env None fs)
      in case config_save env cfg fs of
           (Inl e, fs') \<Rightarrow> (Inl e, [], fs')
         | (Inr _, fs') \<Rightarrow>
             (Inr (),
              [''config saved '' @ [CHR 0xE2, CHR 0x86, CHR 0x92] @ '' '' @ default_config_path env, []]
              @ opt_line ''  relay     = '' (cc_relay cfg) @ opt_line ''  x25519    = '' (cc_x25519 cfg)
              @ opt_line ''  kem       = '' (map_option kem_size (cc_kem cfg))
              @ opt_line ''  token     = '' (map_option (\<lambda>_. ''<set>'') (cc_token cfg))
              @ opt_line ''  subdomain = '' (cc_subdomain cfg), fs'))"
| "handle_config env Show fs =
     (let cfg = load_from env None fs
      in (Inr (),
          [''config: '' @ default_config_path env, [],
           ''  relay     = '' @ shown (cc_relay cfg), ''  x25519    = '' @ shown (cc_x25519 cfg),
           ''  kem       = '' @ shown (map_option kem_size (cc_kem cfg)),
           ''  token     = '' @ shown (map_option (\<lambda>_. ''<set>'') (cc_token cfg)),
           ''  subdomain = '' @ shown (cc_subdomain cfg), ''  local     = '' @ shown (cc_local cfg),
           ''  tls_verify = '' @ (if cc_tls_verify cfg then ''true'' else ''false'')], fs))"
| "handle_config env Clear fs =
     (case config_save env ClientConfig_default fs of
        (Inl e, fs') \<Rightarrow> (Inl e, [], fs')
      | (Inr _, fs') \<Rightarrow>
          (Inr (), [''config cleared '' @ [CHR 0xE2, CHR 0x86, CHR 0x92] @ '' '' @ default_config_path env], fs'))"

section \<open>Keys and start-up\<close>

definition parse_x25519 :: "(string \<Rightarrow> u8 list option) \<Rightarrow> string \<Rightarrow> string + u8 list" where
  "parse_x25519 hex_decode s =
     (case hex_decode (trim s) of
        None \<Rightarrow> Inl ''x25519 not hex''
      | Some bytes \<Rightarrow>
          if length bytes = 32 then Inr bytes
          else Inl (''x25519 must be 32 bytes, got '' @ show_nat (length bytes)))"

definition parse_kem :: "(string \<Rightarrow> u8 list option) \<Rightarrow> (u8 list \<Rightarrow> 'k option) \<Rightarrow> string \<Rightarrow> string + 'k" where
  "parse_kem hex_decode pk_from_bytes s =
     (case hex_decode (trim s) of
        None \<Rightarrow> Inl ''kem key not hex''
      | Some bytes \<Rightarrow>
          (case pk_from_bytes bytes of
             Some pk \<Rightarrow> Inr pk
           | None \<Rightarrow> Inl (''invalid ML-KEM-768 public key ('' @ show_nat (length bytes) @ '' bytes)'')))"

text \<open>What a client run works with, from the arguments and the saved configuration.\<close>

record 'k client_plan =
  cp_relay :: sockaddr
  cp_x25519 :: "u8 list"
  cp_kem :: 'k
  cp_token :: "string option"
  cp_target :: string
  cp_kind :: TunnelKind

definition and_then :: "string + 'a \<Rightarrow> ('a \<Rightarrow> string + 'b) \<Rightarrow> string + 'b" where
  "and_then r k = (case r of Inl e \<Rightarrow> Inl e | Inr x \<Rightarrow> k x)"

definition ok_or :: "string \<Rightarrow> 'a option \<Rightarrow> string + 'a" where
  "ok_or msg v = (case v of Some x \<Rightarrow> Inr x | None \<Rightarrow> Inl msg)"

definition backticked :: "string \<Rightarrow> string" where
  "backticked s = [CHR 0x60] @ s @ [CHR 0x60]"

definition client_startup ::
  "(string \<Rightarrow> u8 list option) \<Rightarrow> (u8 list \<Rightarrow> 'k option) \<Rightarrow> ClientArgs \<Rightarrow> ClientConfig \<Rightarrow> string + 'k client_plan" where
  "client_startup hex_decode pk_from_bytes args saved =
     and_then (ok_or (''--relay required (or run '' @ backticked ''seamless config init --relay <addr>'' @ '' to save it)'')
         (or_else (ca_relay args) (cc_relay saved))) (\<lambda>relay_str.
     and_then (ok_or (''--x25519 required (or run '' @ backticked ''seamless config init --x25519 <hex>'' @ '' to save it)'')
         (or_else (ca_x25519 args) (cc_x25519 saved))) (\<lambda>x25519_str.
     and_then (ok_or (''--kem required (or run '' @ backticked ''seamless config init --kem <hex>'' @ '' to save it)'')
         (or_else (ca_kem args) (cc_kem saved))) (\<lambda>kem_str.
     let token = or_else (ca_token args) (cc_token saved) in
     and_then (ok_or (''invalid relay address: '' @ relay_str) (parse_sockaddr relay_str)) (\<lambda>relay.
     and_then (parse_x25519 hex_decode x25519_str) (\<lambda>x25519_pk.
     and_then (parse_kem hex_decode pk_from_bytes kem_str) (\<lambda>kem_pk.
     and_then (ok_or ''expected http or tcp subcommand'' (local_target (ca_cmd args))) (\<lambda>target.
     and_then (ok_or ''expected http or tcp subcommand'' (to_kind (ca_cmd args) (cc_subdomain saved))) (\<lambda>kind.
     Inr \<lparr>cp_relay = relay, cp_x25519 = x25519_pk, cp_kem = kem_pk, cp_token = token, cp_target = target, cp_kind = kind\<rparr>))))))))"

section \<open>One session\<close>

text \<open>
  What a session meets: errors of \<open>bind\<close> and \<open>connect\<close> with their text, the control stream in both
  directions, and the streams the relay opens until the mux closes, each with whether the local
  service can be dialled.
\<close>

record SessionEnv =
  se_bind_error :: "string option"
  se_connect_error :: "string option"
  se_writer :: writer
  se_reader :: reader
  se_streams :: "(reader \<times> bool) list"

record session_trace =
  tr_sent :: "u8 list"
  tr_stdout :: "string list"
  tr_incoming :: "(string + string \<times> u8 list) list"

text \<open>A tunnelled connection: the announced peer, and what is on the stream for the local service.\<close>

definition handle_incoming ::
  "(u8 list \<Rightarrow> ControlFrame option) \<Rightarrow> (ControlFrame \<Rightarrow> string) \<Rightarrow> string \<Rightarrow> reader \<times> bool
     \<Rightarrow> string + string \<times> u8 list" where
  "handle_incoming deserialize debug_frame target stream =
     (case read_frame deserialize (fst stream) of
        (Inl _, apex) \<Rightarrow> Inl ''reading NewConn preamble''
      | (Inr (NewConn peer_addr), apex) \<Rightarrow>
          if snd stream then Inr (peer_addr, rd_bytes apex) else Inl (''dialing local '' @ target)
      | (Inr other, apex) \<Rightarrow> Inl (''expected NewConn, got '' @ debug_frame other))"

definition ready_banner :: "bool \<Rightarrow> string \<Rightarrow> string \<Rightarrow> string list" where
  "ready_banner quiet url target =
     (if quiet then [] else [[], ''  seamless tunnel ready'', ''    public:  '' @ url, ''    local:   '' @ target, []])"

definition run_session ::
  "(ControlFrame \<Rightarrow> u8 list option) \<Rightarrow> (u8 list \<Rightarrow> ControlFrame option) \<Rightarrow> (ControlFrame \<Rightarrow> string) \<Rightarrow> SessionEnv
     \<Rightarrow> string option \<Rightarrow> TunnelKind \<Rightarrow> string \<Rightarrow> bool \<Rightarrow> (string + unit) \<times> session_trace" where
  "run_session serialize deserialize debug_frame env token kind target quiet =
     (let nothing = \<lparr>tr_sent = [], tr_stdout = [], tr_incoming = []\<rparr>
      in case se_bind_error env of
        Some e \<Rightarrow> (Inl (''seam bind: '' @ e), nothing)
      | None \<Rightarrow>
      (case se_connect_error env of
        Some e \<Rightarrow> (Inl (''seam connect: '' @ e), nothing)
      | None \<Rightarrow>
      (case write_frame serialize (Register PROTOCOL_VERSION token kind) (se_writer env) of
        (Inl _, w) \<Rightarrow> (Inl ''sending register'', nothing\<lparr>tr_sent := wr_out w\<rparr>)
      | (Inr _, w) \<Rightarrow>
      (case fst (read_frame deserialize (se_reader env)) of
        Inl _ \<Rightarrow> (Inl ''awaiting register reply'', nothing\<lparr>tr_sent := wr_out w\<rparr>)
      | Inr (Registered url) \<Rightarrow>
          (Inr (), \<lparr>tr_sent = wr_out w, tr_stdout = ready_banner quiet url target,
             tr_incoming = map (handle_incoming deserialize debug_frame target) (se_streams env)\<rparr>)
      | Inr (Error code message) \<Rightarrow>
          (Inl (''PERMANENT relay refused: '' @ show_word code @ '' '' @ message), nothing\<lparr>tr_sent := wr_out w\<rparr>)
      | Inr other \<Rightarrow> (Inl (''unexpected reply: '' @ debug_frame other), nothing\<lparr>tr_sent := wr_out w\<rparr>)))))"

text \<open>The keep-alive task of a session: a tick of the 25 second timer, or bytes on the control stream.\<close>

datatype control_event = Tick | Drain "nat option"

fun control_task :: "(ControlFrame \<Rightarrow> u8 list option) \<Rightarrow> control_event list \<Rightarrow> writer \<Rightarrow> writer" where
  "control_task serialize [] w = w"
| "control_task serialize (Tick # es) w =
     (case write_frame serialize Ping w of (Inl _, w') \<Rightarrow> w' | (Inr _, w') \<Rightarrow> control_task serialize es w')"
| "control_task serialize (Drain r # es) w =
     (case r of None \<Rightarrow> w | Some n \<Rightarrow> if n = 0 then w else control_task serialize es w)"

section \<open>The reconnect loop\<close>

datatype client_exit = CtrlC | Permanent string | GivesUp u32

definition backoff_secs :: "u32 \<Rightarrow> nat" where
  "backoff_secs attempts =
     (if attempts = 1 then 0 else if attempts = 2 then 1 else if attempts = 3 then 2 else if attempts = 4 then 4
      else if attempts = 5 then 8 else if attempts = 6 then 16 else 30)"

definition after_session :: "u32 \<Rightarrow> u32 \<Rightarrow> string + unit \<Rightarrow> client_exit + u32 \<times> nat option" where
  "after_session max_retries attempts r =
     (case r of
        Inr _ \<Rightarrow> Inr (0, None)
      | Inl msg \<Rightarrow>
          if contains_str msg ''PERMANENT'' then Inl (Permanent msg)
          else let attempts = attempts + 1
               in if max_retries \<noteq> 0 \<and> attempts \<ge> max_retries then Inl (GivesUp attempts)
                  else let delay = backoff_secs attempts
                       in Inr (attempts, if delay = 0 then None else Some delay))"

text \<open>
  One turn of the loop: whether Ctrl-C comes during the sleep, and the result of the session
  (\<open>None\<close>: Ctrl-C comes first). The loop returns how it ended, the sessions run and the delays slept.
\<close>

record turn =
  tu_ctrl_c :: bool
  tu_session :: "(string + unit) option"

partial_function (option) reconnect ::
  "u32 \<Rightarrow> (nat \<Rightarrow> turn) \<Rightarrow> nat \<Rightarrow> u32 \<Rightarrow> nat option \<Rightarrow> nat list \<Rightarrow> (client_exit \<times> nat \<times> nat list) option" where
  "reconnect max_retries inp n attempts backoff slept =
     (if backoff \<noteq> None \<and> tu_ctrl_c (inp n) then Some (CtrlC, n, slept)
      else case tu_session (inp n) of
             None \<Rightarrow> Some (CtrlC, n, slept @ (case backoff of None \<Rightarrow> [] | Some d \<Rightarrow> [d]))
           | Some r \<Rightarrow>
               (case after_session max_retries attempts r of
                  Inl ex \<Rightarrow> Some (ex, n + 1, slept @ (case backoff of None \<Rightarrow> [] | Some d \<Rightarrow> [d]))
                | Inr (attempts', backoff') \<Rightarrow>
                    reconnect max_retries inp (n + 1) attempts' backoff' (slept @ (case backoff of None \<Rightarrow> [] | Some d \<Rightarrow> [d]))))"

definition client_loop :: "u32 \<Rightarrow> (nat \<Rightarrow> turn) \<Rightarrow> (client_exit \<times> nat \<times> nat list) option" where
  "client_loop max_retries inp = reconnect max_retries inp 0 0 None []"

section \<open>When the client stops\<close>

definition transient :: "string + unit \<Rightarrow> bool" where
  "transient r \<longleftrightarrow> (case r of Inl msg \<Rightarrow> \<not> contains_str msg ''PERMANENT'' | Inr _ \<Rightarrow> False)"

definition permanent :: "string + unit \<Rightarrow> bool" where
  "permanent r \<longleftrightarrow> (case r of Inl msg \<Rightarrow> contains_str msg ''PERMANENT'' | Inr _ \<Rightarrow> False)"

text \<open>The failures in a row just before session \<open>n\<close>.\<close>

fun failures_before :: "(nat \<Rightarrow> string + unit) \<Rightarrow> nat \<Rightarrow> nat" where
  "failures_before res 0 = 0"
| "failures_before res (Suc n) = (if transient (res n) then failures_before res n + 1 else 0)"

definition stops_at :: "u32 \<Rightarrow> (nat \<Rightarrow> string + unit) \<Rightarrow> nat \<Rightarrow> bool" where
  "stops_at max_retries res n \<longleftrightarrow>
     permanent (res n) \<or> (max_retries \<noteq> 0 \<and> transient (res n) \<and> failures_before res n + 1 \<ge> unat max_retries)"

definition undisturbed :: "(nat \<Rightarrow> string + unit) \<Rightarrow> nat \<Rightarrow> turn" where
  "undisturbed res n = \<lparr>tu_ctrl_c = False, tu_session = Some (res n)\<rparr>"

text \<open>The counter of the loop: the failures so far, which a limit keeps below it.\<close>

definition counter_ok :: "u32 \<Rightarrow> (nat \<Rightarrow> string + unit) \<Rightarrow> nat \<Rightarrow> u32 \<Rightarrow> bool" where
  "counter_ok max_retries res n attempts \<longleftrightarrow>
     attempts = word_of_nat (failures_before res n) \<and> (max_retries \<noteq> 0 \<longrightarrow> failures_before res n < unat max_retries)"

lemma counter_next:
  assumes "max_retries \<noteq> 0" and "k < unat max_retries"
  shows "word_of_nat k + 1 \<ge> max_retries \<longleftrightarrow> k + 1 \<ge> unat (max_retries :: u32)"
proof -
  have "k + 1 < 2 ^ LENGTH(32)" using assms(2) unsigned_less [of max_retries, where ?'a = nat] by simp
  then have "unat (word_of_nat (k + 1) :: u32) = k + 1" by (rule unat_of_nat_small)
  then show ?thesis by (simp add: word_le_nat_alt add.commute)
qed

lemma turn_stops:
  assumes "counter_ok max_retries res n attempts" and "stops_at max_retries res n"
  shows "\<exists>ex. after_session max_retries attempts (res n) = Inl ex
    \<and> (transient (res n) \<longrightarrow> ex = GivesUp (attempts + 1))"
  using assms counter_next [of max_retries "failures_before res n"]
  by (auto simp: after_session_def stops_at_def counter_ok_def permanent_def transient_def Let_def split: sum.splits)

lemma turn_goes_on:
  assumes "counter_ok max_retries res n attempts" and "\<not> stops_at max_retries res n"
  shows "\<exists>a b. after_session max_retries attempts (res n) = Inr (a, b) \<and> counter_ok max_retries res (n + 1) a"
  using assms counter_next [of max_retries "failures_before res n"]
  by (auto simp: after_session_def stops_at_def counter_ok_def permanent_def transient_def Let_def add.commute
      unat_gt_0 split: sum.splits)

lemma reconnect_stops:
  assumes "n \<le> m" and "stops_at max_retries res m" and "\<forall>k. n \<le> k \<and> k < m \<longrightarrow> \<not> stops_at max_retries res k"
    and "counter_ok max_retries res n attempts"
  shows "\<exists>ex slept'. reconnect max_retries (undisturbed res) n attempts backoff slept = Some (ex, m + 1, slept')"
  using assms
proof (induction "m - n" arbitrary: n attempts backoff slept)
  case 0
  then have "n = m" by simp
  then show ?case using turn_stops [OF 0(5)] 0(3) by (subst reconnect.simps) (auto simp: undisturbed_def)
next
  case (Suc d)
  then have "\<not> stops_at max_retries res n" by auto
  then obtain a b where s: "after_session max_retries attempts (res n) = Inr (a, b)" and c: "counter_ok max_retries res (n + 1) a"
    using turn_goes_on [OF Suc.prems(4)] by blast
  have "\<exists>ex slept'. reconnect max_retries (undisturbed res) (n + 1) a b sl = Some (ex, m + 1, slept')" for sl
    by (rule Suc.hyps(1)) (use Suc c in auto)
  then show ?case using s by (subst reconnect.simps) (simp add: undisturbed_def)
qed

lemma reconnect_returns_stop:
  assumes "reconnect max_retries (undisturbed res) n attempts backoff slept = Some r" and "counter_ok max_retries res n attempts"
  shows "\<exists>m. stops_at max_retries res m"
proof -
  have "\<forall>res. inp = undisturbed res \<longrightarrow> counter_ok max_retries res n attempts \<longrightarrow> (\<exists>m. stops_at max_retries res m)"
    if "reconnect max_retries inp n attempts backoff slept = Some r" for inp
  proof (rule reconnect.raw_induct [OF _ that, of "\<lambda>mx inp n cnt bo sl r. \<forall>res. inp = undisturbed res \<longrightarrow>
        counter_ok mx res n cnt \<longrightarrow> (\<exists>m. stops_at mx res m)"], intro allI impI)
    fix rec :: "u32 \<Rightarrow> (nat \<Rightarrow> turn) \<Rightarrow> nat \<Rightarrow> u32 \<Rightarrow> nat option \<Rightarrow> nat list \<Rightarrow> (client_exit \<times> nat \<times> nat list) option"
      and mx :: u32 and inp n cnt bo sl y res
    assume ih: "\<And>mx inp n cnt bo sl y. rec mx inp n cnt bo sl = Some y \<Longrightarrow> \<forall>res. inp = undisturbed res \<longrightarrow>
        counter_ok mx res n cnt \<longrightarrow> (\<exists>m. stops_at mx res m)"
      and u: "inp = undisturbed res" and c: "counter_ok mx res n cnt"
      and b: "(if bo \<noteq> None \<and> tu_ctrl_c (inp n) then Some (CtrlC, n, sl)
        else case tu_session (inp n) of
             None \<Rightarrow> Some (CtrlC, n, sl @ (case bo of None \<Rightarrow> [] | Some d \<Rightarrow> [d]))
           | Some r \<Rightarrow>
               (case after_session mx cnt r of
                  Inl ex \<Rightarrow> Some (ex, n + 1, sl @ (case bo of None \<Rightarrow> [] | Some d \<Rightarrow> [d]))
                | Inr (a', b') \<Rightarrow> rec mx inp (n + 1) a' b' (sl @ (case bo of None \<Rightarrow> [] | Some d \<Rightarrow> [d])))) = Some y"
    show "\<exists>m. stops_at mx res m"
    proof (cases "stops_at mx res n")
      case False
      then obtain a' b' where s: "after_session mx cnt (res n) = Inr (a', b')" and c': "counter_ok mx res (n + 1) a'"
        using turn_goes_on [OF c] by blast
      have "rec mx inp (n + 1) a' b' (sl @ (case bo of None \<Rightarrow> [] | Some d \<Rightarrow> [d])) = Some y"
        using b s u by (simp add: undisturbed_def)
      then show ?thesis using ih u c' by blast
    qed blast
  qed
  then show ?thesis using assms by blast
qed

lemma counter_start: "counter_ok max_retries res 0 0"
  by (simp add: counter_ok_def unat_gt_0)

text \<open>
  Claim C17. When a client that is not interrupted stops: the reconnect loop returns exactly if some session
  is refused for good, or a limit is set and that many sessions in a row fail otherwise; a session
  that ends cleanly starts the count afresh, so a relay that registers the client and drops it is
  retried for ever, without a limit and without a delay.
\<close>

theorem client_stops_iff:
  "(\<exists>r. client_loop max_retries (undisturbed res) = Some r) \<longleftrightarrow>
     (\<exists>n. permanent (res n)
        \<or> (max_retries \<noteq> 0 \<and> transient (res n) \<and> unat max_retries \<le> failures_before res n + 1))"
proof
  assume "\<exists>r. client_loop max_retries (undisturbed res) = Some r"
  then show "\<exists>n. permanent (res n) \<or> (max_retries \<noteq> 0 \<and> transient (res n) \<and> unat max_retries \<le> failures_before res n + 1)"
    using reconnect_returns_stop [OF _ counter_start] unfolding client_loop_def stops_at_def by blast
next
  assume "\<exists>n. permanent (res n) \<or> (max_retries \<noteq> 0 \<and> transient (res n) \<and> unat max_retries \<le> failures_before res n + 1)"
  then obtain m where "stops_at max_retries res m" "\<forall>k<m. \<not> stops_at max_retries res k"
    using exists_least_iff [of "stops_at max_retries res"] unfolding stops_at_def by blast
  then show "\<exists>r. client_loop max_retries (undisturbed res) = Some r"
    using reconnect_stops [of 0 m, OF _ _ _ counter_start, of max_retries res None "[]"] unfolding client_loop_def by auto
qed

section \<open>The schedule\<close>

abbreviation delay_after :: "nat \<Rightarrow> nat" where
  "delay_after k \<equiv> backoff_secs (word_of_nat k)"

lemma backoff_pos: "2 \<le> k \<Longrightarrow> k < 2 ^ 32 \<Longrightarrow> delay_after k \<noteq> 0"
proof -
  assume k: "2 \<le> k" "k < 2 ^ 32"
  have "unat (word_of_nat k :: u32) = k" using k(2) by (intro unat_of_nat_small) simp
  then have "(word_of_nat k :: u32) \<noteq> 1" using k(1) by (metis numeral_le_one_iff semiring_norm(69) unat_1)
  then show ?thesis by (simp add: backoff_secs_def)
qed

lemma failing_turn:
  assumes "transient r" and "k + 1 < unat max_retries"
  shows "after_session max_retries (word_of_nat k) r =
    Inr (word_of_nat (k + 1), if k = 0 then None else Some (delay_after (k + 1)))"
proof -
  have "k + 1 < 2 ^ 32" using assms(2) unsigned_less [of max_retries, where ?'a = nat] by simp
  then have "k \<noteq> 0 \<Longrightarrow> delay_after (k + 1) \<noteq> 0" by (intro backoff_pos) simp_all
  moreover have "\<not> word_of_nat k + 1 \<ge> max_retries"
    using assms(2) counter_next [of max_retries k] by force
  moreover have "delay_after 1 = 0" by (simp add: backoff_secs_def)
  ultimately show ?thesis using assms(1)
    by (cases "k = 0") (auto simp: after_session_def transient_def Let_def add.commute split: sum.splits)
qed

lemma failing_last:
  assumes "transient r" and "k + 1 = unat max_retries"
  shows "after_session max_retries (word_of_nat k) r = Inl (GivesUp max_retries)"
proof -
  have "max_retries \<noteq> 0" using assms(2) by auto
  moreover from this have "word_of_nat k + 1 \<ge> max_retries" using assms(2) counter_next [of max_retries k] by simp
  moreover have "word_of_nat k + 1 = max_retries" using arg_cong [OF assms(2), of "word_of_nat :: nat \<Rightarrow> u32"] by (simp add: add.commute)
  ultimately show ?thesis using assms(1) by (auto simp: after_session_def transient_def Let_def split: sum.splits)
qed

lemma reconnect_fails:
  assumes "\<forall>k. transient (res k)" and "n < unat max_retries"
  shows "reconnect max_retries (undisturbed res) n (word_of_nat n) (if n < 2 then None else Some (delay_after n)) (map delay_after [2..<n])
    = Some (GivesUp max_retries, unat max_retries, map delay_after [2..<unat max_retries])"
  using assms(2)
proof (induction "unat max_retries - n" arbitrary: n)
  case (Suc d)
  have sl: "map delay_after [2..<n] @ (case if n < 2 then None else Some (delay_after n) of None \<Rightarrow> [] | Some d \<Rightarrow> [d])
      = map delay_after [2..<n + 1]" by (simp add: numeral_2_eq_2)
  have t: "transient (res n)" using assms(1) by simp
  show ?case
  proof (cases "n + 1 = unat max_retries")
    case True
    show ?thesis unfolding reconnect.simps [of _ _ n] sl using failing_last [OF t True] True by (simp add: undisturbed_def)
  next
    case False
    then have l: "n + 1 < unat max_retries" using Suc.prems by simp
    have b: "(if n = 0 then None else Some (delay_after (n + 1))) = (if n + 1 < 2 then None else Some (delay_after (n + 1)))" by simp
    have "unat max_retries - (n + 1) = d" using Suc.hyps(2) by simp
    then show ?thesis unfolding reconnect.simps [of _ _ n] sl
      using failing_turn [OF t l] Suc.hyps(1) [of "n + 1"] l unfolding b by (simp add: undisturbed_def)
  qed
qed simp

text \<open>
  A client whose sessions all fail transiently gives up after exactly \<open>max_retries\<close> sessions, with
  the documented delays in between: none before the second session, then 1, 2, 4, 8, 16 and from
  then on 30 seconds.
\<close>

theorem client_gives_up:
  assumes "\<forall>k. transient (res k)" and "max_retries \<noteq> 0"
  shows "client_loop max_retries (undisturbed res) =
      Some (GivesUp max_retries, unat max_retries, map (\<lambda>k. backoff_secs (word_of_nat k)) [2..<unat max_retries])
    \<and> map (\<lambda>k. backoff_secs (word_of_nat k)) [2..<9] = [1, 2, 4, 8, 16, 30, 30]
    \<and> (\<forall>a. backoff_secs a \<le> 30)"
proof -
  have "client_loop max_retries (undisturbed res) = Some (GivesUp max_retries, unat max_retries, map delay_after [2..<unat max_retries])"
    using reconnect_fails [OF assms(1), of 0 max_retries] assms(2) by (simp add: client_loop_def unat_gt_0)
  moreover have "[2..<9] = [2, 3, 4, 5, 6, 7, 8 :: nat]" by code_simp
  ultimately show ?thesis by (simp add: backoff_secs_def)
qed

theorem client_gives_up_witness:
  "client_loop 4 (undisturbed (\<lambda>_. Inl ''seam connect: timeout'')) = Some (GivesUp 4, 4, [1, 2])"
proof -
  have t: "\<forall>k. transient ((\<lambda>_. Inl ''seam connect: timeout'') (k :: nat))"
    unfolding transient_def by (simp add: starts_with_def)
  have "[2..<4] = [2, 3 :: nat]" by code_simp
  then show ?thesis using client_gives_up [OF t, of 4] by (simp add: backoff_secs_def)
qed

section \<open>The configuration file\<close>

definition toml_law :: "ConfigEnv \<Rightarrow> bool" where
  "toml_law env \<longleftrightarrow> (\<forall>c t. ce_to_toml env c = Some t \<longrightarrow> ce_from_toml env t = Some c)"

lemma config_save_load:
  assumes "toml_law env" and "config_save env cfg fs = (Inr (), fs')"
  shows "load_from env None fs' = cfg"
  using assms by (auto simp: config_save_def load_from_def toml_law_def fs_rename_def Let_def
      split: if_splits option.splits write_outcome.splits)

lemma config_save_fails:
  assumes "config_save env cfg fs = (Inl e, fs')" and "with_extension (default_config_path env) ''toml.tmp'' \<noteq> default_config_path env"
  shows "fs' (default_config_path env) = fs (default_config_path env)"
  using assms by (auto simp: config_save_def Let_def split: if_splits option.splits write_outcome.splits)

text \<open>
  What the configuration command saves is what the next run starts from: after a successful
  \<open>config init\<close>, the options given have the new values and every other field the value it had; a
  run without options then uses exactly these. A save that fails leaves the old file.
\<close>

theorem config_init_round_trip:
  assumes "toml_law env" and "handle_config env (Init relay x25519 kem token subdomain) fs = (r, out, fs')"
    and "with_extension (default_config_path env) ''toml.tmp'' \<noteq> default_config_path env"
  shows "case r of
      Inr _ \<Rightarrow> load_from env None fs' = (load_from env None fs)
        \<lparr>cc_relay := or_else relay (cc_relay (load_from env None fs)), cc_x25519 := or_else x25519 (cc_x25519 (load_from env None fs)),
         cc_kem := or_else kem (cc_kem (load_from env None fs)), cc_token := or_else token (cc_token (load_from env None fs)),
         cc_subdomain := or_else subdomain (cc_subdomain (load_from env None fs))\<rparr>
    | Inl _ \<Rightarrow> load_from env None fs' = load_from env None fs"
proof -
  let ?old = "load_from env None fs" and ?new = "merge_init relay x25519 kem token subdomain (load_from env None fs)"
  have m: "?new = ?old\<lparr>cc_relay := or_else relay (cc_relay ?old), cc_x25519 := or_else x25519 (cc_x25519 ?old),
      cc_kem := or_else kem (cc_kem ?old), cc_token := or_else token (cc_token ?old),
      cc_subdomain := or_else subdomain (cc_subdomain ?old)\<rparr>"
    by (cases ?old) (auto simp: merge_init_def or_else_def Let_def split: option.splits)
  obtain r' fs1 where s: "config_save env ?new fs = (r', fs1)" by fastforce
  show ?thesis
  proof (cases r')
    case (Inl e)
    then have "fs1 (default_config_path env) = fs (default_config_path env)" using s config_save_fails [OF _ assms(3)] by blast
    then have "load_from env None fs1 = load_from env None fs" by (simp add: load_from_def Let_def)
    then show ?thesis using assms(2) s Inl by (auto simp: Let_def)
  next
    case (Inr u)
    then show ?thesis using assms(2) s config_save_load [OF assms(1)] by (auto simp: Let_def simp flip: m)
  qed
qed

definition demo_toml :: "ClientConfig \<Rightarrow> ConfigEnv" where
  "demo_toml c = \<lparr>ce_dir = Some ''/h/.config'', ce_from_toml = (\<lambda>t. if t = ''cfg'' then Some c else None),
     ce_to_toml = (\<lambda>d. if d = c then Some ''cfg'' else None), ce_mkdir = True, ce_write = Written, ce_rename = True\<rparr>"

theorem config_init_round_trip_witness:
  "cc_relay (load_from (demo_toml (ClientConfig_default\<lparr>cc_relay := Some ''1.2.3.4:7777''\<rparr>)) None
     (snd (snd (handle_config (demo_toml (ClientConfig_default\<lparr>cc_relay := Some ''1.2.3.4:7777''\<rparr>))
        (Init (Some ''1.2.3.4:7777'') None None None None) (\<lambda>_. None))))) = Some ''1.2.3.4:7777''"
proof -
  let ?c = "ClientConfig_default\<lparr>cc_relay := Some ''1.2.3.4:7777''\<rparr>"
  have l: "toml_law (demo_toml ?c)" by (simp add: toml_law_def demo_toml_def)
  have d: "with_extension (default_config_path (demo_toml ?c)) ''toml.tmp'' \<noteq> default_config_path (demo_toml ?c)" by code_simp
  obtain r out fs' where h: "handle_config (demo_toml ?c) (Init (Some ''1.2.3.4:7777'') None None None None) (\<lambda>_. None) = (r, out, fs')"
    using prod_cases3 by blast
  have "load_from (demo_toml ?c) None (\<lambda>_. None) = ClientConfig_default" by (simp add: load_from_def Let_def)
  then have "r = Inr ()"
    using h by (auto simp: merge_init_def config_save_def demo_toml_def Let_def ClientConfig_default_def split: prod.splits)
  then show ?thesis using config_init_round_trip [OF l h d] h by (simp add: or_else_def)
qed

section \<open>Client and relay\<close>

lemma frame_read_back:
  assumes "bincode_law serialize deserialize" and "write_frame serialize f w = (Inr (), w')" and "wr_out w = []"
  shows "read_frame deserialize \<lparr>rd_bytes = wr_out w' @ rest, rd_end = e\<rparr> = (Inr f, \<lparr>rd_bytes = rest, rd_end = e\<rparr>)"
proof -
  obtain body where "serialize f = Some body" "length body \<le> 65536"
      "wr_out w' = to_be_bytes (word_of_nat (length body)) @ body"
    using write_frame_ok [OF assms(2)] assms(3) by auto
  moreover from this have "deserialize body = Some f" using assms(1) by (simp add: bincode_law_def)
  ultimately show ?thesis using read_frame_framed [of body deserialize f rest e] by simp
qed

lemma admit_out:
  "admit ctx ci st = (r, out, st') \<Longrightarrow> (r = Inl e \<longrightarrow> out = [] \<or> (\<exists>c m. out = [Error c m]))"
  by (auto simp: admit_def Let_def split: if_splits sum.splits prod.splits ControlFrame.splits)

lemma check_requested_frame: "check_requested ctx n = Some (e, f) \<Longrightarrow> \<exists>c m. f = Error c m"
  by (auto simp: check_requested_def split: sum.splits if_splits)

lemma open_http_out:
  "open_http ctx ci sub st = (r, out, st') \<Longrightarrow>
     case r of Inr s \<Rightarrow> out = [Registered (s_url s)] | Inl _ \<Rightarrow> out = [] \<or> (\<exists>c m. out = [Error c m])"
  by (auto simp: open_http_def Let_def split: if_splits option.splits prod.splits dest!: check_requested_frame)

lemma open_tcp_out:
  "open_tcp ctx ci p st = (r, out, st') \<Longrightarrow>
     case r of Inr s \<Rightarrow> out = [Registered (s_url s)] | Inl _ \<Rightarrow> out = [] \<or> (\<exists>c m. out = [Error c m])"
  by (auto simp: open_tcp_def Let_def split: if_splits sum.splits prod.splits)

lemma handle_client_out:
  assumes "handle_client ctx ci st = (r, out, st')"
  shows "case r of Inr s \<Rightarrow> out = [Registered (s_url s)] | Inl _ \<Rightarrow> out = [] \<or> (\<exists>c m. out = [Error c m])"
proof -
  obtain r1 out1 st1 where a: "admit ctx ci st = (r1, out1, st1)" using prod_cases3 by blast
  show ?thesis
  proof (cases r1)
    case (Inl e)
    then show ?thesis using assms a admit_out [OF a, of e] by (auto simp: handle_client_def)
  next
    case (Inr kind)
    then show ?thesis
      using assms a open_http_out [of ctx ci _ st1 r out st'] open_tcp_out [of ctx ci _ st1 r out st']
      by (cases kind) (auto simp: handle_client_def)
  qed
qed

text \<open>The bytes a client gets from a relay that answers with these frames and then anything at all.\<close>

definition relay_sends :: "(ControlFrame \<Rightarrow> u8 list option) \<Rightarrow> ControlFrame list \<Rightarrow> reader \<Rightarrow> bool" where
  "relay_sends serialize out r \<longleftrightarrow>
     (case out of
        [] \<Rightarrow> rd_bytes r = []
      | f # _ \<Rightarrow> \<exists>w w' rest. wr_out w = [] \<and> write_frame serialize f w = (Inr (), w') \<and> rd_bytes r = wr_out w' @ rest)"

lemma permanent_prefix: "permanent (Inl (''PERMANENT'' @ s))"
  by (simp add: permanent_def starts_with_def)

lemma run_session_sent:
  assumes "se_bind_error env = None" and "se_connect_error env = None"
    and "write_frame serialize (Register PROTOCOL_VERSION token kind) (se_writer env) = (Inr (), w)"
  shows "tr_sent (snd (run_session serialize deserialize debug_frame env token kind target quiet)) = wr_out w"
  using assms by (auto simp: run_session_def Let_def split: sum.splits ControlFrame.splits)

lemma reply_read:
  assumes "bincode_law serialize deserialize" and "relay_sends serialize [f] r"
  shows "fst (read_frame deserialize r) = Inr f"
proof -
  obtain w1 w2 rest where "wr_out w1 = []" "write_frame serialize f w1 = (Inr (), w2)" "rd_bytes r = wr_out w2 @ rest"
    using assms(2) unfolding relay_sends_def by auto
  then show ?thesis using frame_read_back [OF assms(1), of f w1 w2 rest "rd_end r"] by (cases r) simp
qed

text \<open>
  Claim C15. The handshake of the two programs: the relay reads from the client's stream exactly the
  registration the client was asked to make; if the relay registers it, the client's session
  comes up and the banner shows the URL the relay has entered the tunnel under; if the relay
  refuses with an answer, the client stops for good, and without one it tries again.
\<close>

theorem client_relay_handshake:
  assumes "bincode_law serialize deserialize"
    and "se_bind_error env = None" and "se_connect_error env = None" and "wr_out (se_writer env) = []"
    and "write_frame serialize (Register PROTOCOL_VERSION token kind) (se_writer env) = (Inr (), w)"
    and "run_session serialize deserialize debug_frame env token kind target quiet = (res, tr)"
    and "read_frame deserialize \<lparr>rd_bytes = tr_sent tr, rd_end = e0\<rparr> = (rr, r1)"
    and "ci_read ci = (case rr of Inr f \<Rightarrow> GotFrame f | Inl e \<Rightarrow> FrameFailed e)"
    and "handle_client ctx ci st = (r, out, st')" and "relay_sends serialize out (se_reader env)"
  shows "ci_read ci = GotFrame (Register PROTOCOL_VERSION token kind)
    \<and> (case r of
         Inr s \<Rightarrow> res = Inr () \<and> tr_stdout tr = ready_banner quiet (s_url s) target
       | Inl _ \<Rightarrow> if out = [] then transient res else permanent res)"
proof -
  have sent: "tr_sent tr = wr_out w"
    using run_session_sent [OF assms(2,3,5), of deserialize debug_frame target quiet] assms(6) by simp
  have "rr = Inr (Register PROTOCOL_VERSION token kind)"
    using assms(7) frame_read_back [OF assms(1,5,4), of "[]" e0] by (simp add: sent)
  then have c: "ci_read ci = GotFrame (Register PROTOCOL_VERSION token kind)" using assms(8) by simp
  have reply: "fst (read_frame deserialize (se_reader env)) = Inr f" if o: "out = [f]" for f
    using reply_read [OF assms(1)] assms(10) unfolding o .
  show ?thesis
  proof (cases r)
    case (Inr s)
    then have "out = [Registered (s_url s)]" using handle_client_out [OF assms(9)] by simp
    from reply [OF this] show ?thesis using assms(2,3,5,6) c Inr by (auto simp: run_session_def)
  next
    case (Inl e)
    then consider "out = []" | code m where "out = [Error code m]" using handle_client_out [OF assms(9)] by auto
    then show ?thesis
    proof cases
      case 1
      then have "rd_bytes (se_reader env) = []" using assms(10) by (simp add: relay_sends_def)
      then have "\<exists>x. fst (read_frame deserialize (se_reader env)) = Inl x" by (simp add: read_frame_def read_exact_def)
      then have "res = Inl ''awaiting register reply''" using assms(2,3,5,6) by (auto simp: run_session_def)
      then have "transient res" unfolding transient_def by (simp add: starts_with_def)
      then show ?thesis using c Inl 1 by simp
    next
      case 2
      then have "res = Inl (''PERMANENT'' @ '' relay refused: '' @ show_word code @ '' '' @ m)"
        using reply [of "Error code m"] assms(2,3,5,6) by (auto simp: run_session_def)
      then have "permanent res" by (simp only: permanent_prefix)
      then show ?thesis using c Inl 2 by simp
    qed
  qed
qed

text \<open>A coder of two frames, and a session of the demonstration client.\<close>

definition two_ser :: "ControlFrame \<Rightarrow> ControlFrame \<Rightarrow> ControlFrame \<Rightarrow> u8 list option" where
  "two_ser a b f = (if f = a then Some [0] else if f = b then Some [1] else None)"

definition two_des :: "ControlFrame \<Rightarrow> ControlFrame \<Rightarrow> u8 list \<Rightarrow> ControlFrame option" where
  "two_des a b bs = (if bs = [0] then Some a else if bs = [1] then Some b else None)"

definition fresh_writer :: writer where
  "fresh_writer = \<lparr>wr_out = [], wr_room = None, wr_flush_ok = True\<rparr>"

lemma two_law: "bincode_law (two_ser a b) (two_des a b)"
  by (auto simp: bincode_law_def two_ser_def two_des_def)

lemma two_writes:
  "two_ser a b f = Some [x] \<Longrightarrow> write_frame (two_ser a b) f fresh_writer = (Inr (), fresh_writer\<lparr>wr_out := [0, 0, 0, 1, x]\<rparr>)"
  by (simp add: write_frame_def write_all_def flush_def fresh_writer_def to_be_bytes_def MAX_FRAME_BYTES_def)

definition demo_session :: "SessionEnv" where
  "demo_session = \<lparr>se_bind_error = None, se_connect_error = None, se_writer = fresh_writer,
     se_reader = \<lparr>rd_bytes = [0, 0, 0, 1, 1], rd_end = None\<rparr>, se_streams = []\<rparr>"

theorem client_relay_handshake_witness:
  "\<exists>s out st' a b tr. handle_client demo_ctx (demo_input 1 ''web'') demo_state = (Inr s, out, st')
     \<and> run_session (two_ser a b) (two_des a b) (\<lambda>_. []) demo_session None (Http (Some ''web'')) ''127.0.0.1:3000'' False = (Inr (), tr)
     \<and> tr_stdout tr = ready_banner False (s_url s) ''127.0.0.1:3000''"
proof -
  obtain s out st' where h: "handle_client demo_ctx (demo_input 1 ''web'') demo_state = (Inr s, out, st')"
    using demo_opens by blast
  have o: "out = [Registered (s_url s)]" using handle_client_out [OF h] by simp
  let ?a = "Register PROTOCOL_VERSION None (Http (Some ''web''))" and ?b = "Registered (s_url s)"
  have wa: "write_frame (two_ser ?a ?b) ?a (se_writer demo_session) = (Inr (), fresh_writer\<lparr>wr_out := [0, 0, 0, 1, 0]\<rparr>)"
    and wb: "write_frame (two_ser ?a ?b) ?b fresh_writer = (Inr (), fresh_writer\<lparr>wr_out := [0, 0, 0, 1, 1]\<rparr>)"
    using two_writes [of ?a ?b ?a 0] two_writes [of ?a ?b ?b 1] by (simp_all add: two_ser_def demo_session_def)
  obtain res tr where r: "run_session (two_ser ?a ?b) (two_des ?a ?b) (\<lambda>_. []) demo_session None (Http (Some ''web'')) ''127.0.0.1:3000'' False
      = (res, tr)" by fastforce
  have i: "se_bind_error demo_session = None" "se_connect_error demo_session = None" "wr_out (se_writer demo_session) = []"
    by (simp_all add: demo_session_def fresh_writer_def)
  obtain rr r1 where rd: "read_frame (two_des ?a ?b) \<lparr>rd_bytes = tr_sent tr, rd_end = None\<rparr> = (rr, r1)" by fastforce
  have "tr_sent tr = [0, 0, 0, 1, 0]"
    using run_session_sent [OF i(1,2) wa, of "two_des ?a ?b" "\<lambda>_. []" "''127.0.0.1:3000''" False] r by (simp add: fresh_writer_def)
  then have "rr = Inr ?a" using rd frame_read_back [OF two_law wa i(3), of "[]" None] by (simp add: fresh_writer_def)
  then have ci: "ci_read (demo_input 1 ''web'') = (case rr of Inr f \<Rightarrow> GotFrame f | Inl e \<Rightarrow> FrameFailed e)"
    by (simp add: demo_input_def)
  have sends: "relay_sends (two_ser ?a ?b) out (se_reader demo_session)"
    unfolding relay_sends_def o list.case
    by (rule exI [of _ fresh_writer], rule exI, rule exI [of _ "[]"], intro conjI, simp add: fresh_writer_def, rule wb)
       (simp add: demo_session_def fresh_writer_def)
  show ?thesis using client_relay_handshake [OF two_law i wa r rd ci h sends] h r by auto
qed

end
