(* ===== verification/Client_Main.thy ===== *)
theory Client_Main
  imports Client
begin

text \<open>
  The client as a whole, \<open>main\<close> of \<open>seamless-client\<close>: the configuration command, which returns before
  anything of the network is touched, and otherwise the saved configuration, the start-up checks
  and the reconnect loop over sessions that all use the same plan.
\<close>

section \<open>The program\<close>

record 'k ClientLib =
  cl_config :: ConfigEnv
  cl_hex_decode :: "string \<Rightarrow> u8 list option"
  cl_pk_from_bytes :: "u8 list \<Rightarrow> 'k option"
  cl_serialize :: "ControlFrame \<Rightarrow> u8 list option"
  cl_deserialize :: "u8 list \<Rightarrow> ControlFrame option"
  cl_debug_frame :: "ControlFrame \<Rightarrow> string"

text \<open>
  A turn of the loop: whether Ctrl-C comes during the sleep before it, and what its session meets
  (\<open>None\<close>: Ctrl-C comes first).
\<close>

record client_turn =
  ct_ctrl_c :: bool
  ct_session :: "SessionEnv option"

definition session_of :: "'k ClientLib \<Rightarrow> 'k client_plan \<Rightarrow> bool \<Rightarrow> SessionEnv \<Rightarrow> (string + unit) \<times> session_trace" where
  "session_of lib plan quiet env =
     run_session (cl_serialize lib) (cl_deserialize lib) (cl_debug_frame lib) env (cp_token plan) (cp_kind plan) (cp_target plan) quiet"

definition turn_of :: "'k ClientLib \<Rightarrow> 'k client_plan \<Rightarrow> bool \<Rightarrow> client_turn \<Rightarrow> turn" where
  "turn_of lib plan quiet t =
     \<lparr>tu_ctrl_c = ct_ctrl_c t, tu_session = map_option (fst \<circ> session_of lib plan quiet) (ct_session t)\<rparr>"

fun exit_result :: "client_exit \<Rightarrow> string + unit" where
  "exit_result CtrlC = Inr ()"
| "exit_result (Permanent e) = Inl e"
| "exit_result (GivesUp attempts) = Inl (''giving up after '' @ show_word attempts @ '' attempts'')"

text \<open>
  The result of the program, the number of sessions it ran, and the files; \<open>None\<close> is a program that
  runs for ever.
\<close>

definition client_main ::
  "'k ClientLib \<Rightarrow> ClientArgs \<Rightarrow> (nat \<Rightarrow> client_turn) \<Rightarrow> files \<Rightarrow> ((string + unit) \<times> nat \<times> files) option" where
  "client_main lib args turns fs =
     (case ca_cmd args of
        ConfigCmd action \<Rightarrow> (case handle_config (cl_config lib) action fs of (r, out, fs') \<Rightarrow> Some (r, 0, fs'))
      | _ \<Rightarrow>
          (let saved = load_from (cl_config lib) (ca_config args) fs
           in case client_startup (cl_hex_decode lib) (cl_pk_from_bytes lib) args saved of
                Inl e \<Rightarrow> Some (Inl e, 0, fs)
              | Inr plan \<Rightarrow>
                  map_option (\<lambda>(ex, n, slept). (exit_result ex, n, fs))
                    (client_loop (ca_max_retries args) (\<lambda>n. turn_of lib plan (ca_quiet args) (turns n)))))"

lemma client_main_runs:
  assumes "\<forall>action. ca_cmd args \<noteq> ConfigCmd action"
    and "client_startup (cl_hex_decode lib) (cl_pk_from_bytes lib) args (load_from (cl_config lib) (ca_config args) fs) = Inr plan"
  shows "client_main lib args turns fs = map_option (\<lambda>(ex, n, slept). (exit_result ex, n, fs))
    (client_loop (ca_max_retries args) (\<lambda>n. turn_of lib plan (ca_quiet args) (turns n)))"
  using assms by (cases "ca_cmd args") (simp_all add: client_main_def)

section \<open>Saved configuration\<close>

text \<open>
  Claim C16. Saving options and giving them are the same: after a successful \<open>config init\<close> with a relay, its
  keys, a token and a name, a run without options does exactly what a run with these options on
  the command line does, on any files: the same result after the same number of sessions.
\<close>

theorem config_init_then_run:
  assumes "toml_law (cl_config lib)"
    and "handle_config (cl_config lib) (Init (Some r) (Some x) (Some k) (Some t) (Some s)) fs = (Inr (), out, fs')"
    and "args = \<lparr>ca_config = None, ca_relay = None, ca_x25519 = None, ca_kem = None, ca_token = None, ca_max_retries = m,
      ca_quiet = q, ca_cmd = HttpCmd p None\<rparr>"
    and "flags = args\<lparr>ca_relay := Some r, ca_x25519 := Some x, ca_kem := Some k, ca_token := Some t, ca_cmd := HttpCmd p (Some s)\<rparr>"
  shows "map_option (\<lambda>(r, n, _). (r, n)) (client_main lib args turns fs')
    = map_option (\<lambda>(r, n, _). (r, n)) (client_main lib flags turns fs2)"
proof -
  have l: "load_from (cl_config lib) None fs' = merge_init (Some r) (Some x) (Some k) (Some t) (Some s) (load_from (cl_config lib) None fs)"
    using assms(2) config_save_load [OF assms(1)] by (auto simp: Let_def split: prod.splits sum.splits)
  have "client_startup (cl_hex_decode lib) (cl_pk_from_bytes lib) args (load_from (cl_config lib) None fs')
      = client_startup (cl_hex_decode lib) (cl_pk_from_bytes lib) flags saved" for saved
    unfolding l by (simp add: client_startup_def assms(3,4) merge_init_def or_else_def Let_def)
  then show ?thesis
    by (simp add: client_main_def assms(3,4) Let_def option.map_comp comp_def case_prod_beta split: sum.split)
qed

section \<open>How a run ends\<close>

lemma first_session_stops:
  "tu_session (inp 0) = Some r \<Longrightarrow> after_session max_retries 0 r = Inl ex \<Longrightarrow> client_loop max_retries inp = Some (ex, 1, [])"
  unfolding client_loop_def by (subst reconnect.simps) simp

text \<open>
  A refusal ends the program: when the relay answers the registration with an error, the client
  exits with the code and the message of the relay after that one session, whatever its retry
  limit.
\<close>

theorem refused_client_exits:
  assumes "\<forall>action. ca_cmd args \<noteq> ConfigCmd action"
    and "client_startup (cl_hex_decode lib) (cl_pk_from_bytes lib) args (load_from (cl_config lib) (ca_config args) fs) = Inr plan"
    and "ct_session (turns 0) = Some env" and "se_bind_error env = None" and "se_connect_error env = None"
    and "fst (write_frame (cl_serialize lib) (Register PROTOCOL_VERSION (cp_token plan) (cp_kind plan)) (se_writer env)) = Inr ()"
    and "fst (read_frame (cl_deserialize lib) (se_reader env)) = Inr (Error code message)"
  shows "client_main lib args turns fs = Some (Inl (''PERMANENT relay refused: '' @ show_word code @ '' '' @ message), 1, fs)"
proof -
  let ?msg = "''PERMANENT relay refused: '' @ show_word code @ '' '' @ message"
  have "fst (session_of lib plan (ca_quiet args) env) = Inl ?msg"
    using assms(4-7) by (auto simp: session_of_def run_session_def Let_def split: prod.splits sum.splits)
  then have t: "tu_session (turn_of lib plan (ca_quiet args) (turns 0)) = Some (Inl ?msg)"
    by (simp add: turn_of_def assms(3))
  have "contains_str ?msg ''PERMANENT''" by (simp add: starts_with_def)
  then have a: "after_session (ca_max_retries args) 0 (Inl ?msg) = Inl (Permanent ?msg)" by (simp add: after_session_def)
  have "client_loop (ca_max_retries args) (\<lambda>n. turn_of lib plan (ca_quiet args) (turns n)) = Some (Permanent ?msg, 1, [])"
    by (rule first_session_stops [OF _ a]) (rule t)
  then show ?thesis using client_main_runs [OF assms(1,2)] by simp
qed

section \<open>A client\<close>

definition demo_plan_args :: "string option \<Rightarrow> ClientArgs" where
  "demo_plan_args relay = \<lparr>ca_config = None, ca_relay = relay, ca_x25519 = None, ca_kem = None, ca_token = None,
     ca_max_retries = 0, ca_quiet = True, ca_cmd = HttpCmd 3000 None\<rparr>"

definition demo_saved :: ClientConfig where
  "demo_saved = ClientConfig_default\<lparr>cc_relay := Some ''1.2.3.4:7777'', cc_x25519 := Some ''xx'', cc_kem := Some ''kk'',
     cc_token := Some ''t'', cc_subdomain := Some ''web''\<rparr>"

text \<open>Any text is the hexadecimal form of 32 zero bytes here.\<close>

definition demo_lib :: "ControlFrame \<Rightarrow> ControlFrame \<Rightarrow> nat ClientLib" where
  "demo_lib a b = \<lparr>cl_config = demo_toml demo_saved, cl_hex_decode = (\<lambda>_. Some (replicate 32 0)), cl_pk_from_bytes = (\<lambda>bs. Some (length bs)),
     cl_serialize = two_ser a b, cl_deserialize = two_des a b, cl_debug_frame = (\<lambda>_. [])\<rparr>"

definition demo_turns :: "nat \<Rightarrow> client_turn" where
  "demo_turns n = \<lparr>ct_ctrl_c = False, ct_session = Some demo_session\<rparr>"

lemma demo_init:
  "\<exists>out fs'. handle_config (demo_toml demo_saved) (Init (Some ''1.2.3.4:7777'') (Some ''xx'') (Some ''kk'') (Some ''t'') (Some ''web'')) (\<lambda>_. None)
     = (Inr (), out, fs')"
  by (simp add: load_from_def merge_init_def config_save_def demo_toml_def demo_saved_def Let_def ClientConfig_default_def)

theorem config_init_then_run_witness:
  "\<exists>out fs'. handle_config (demo_toml demo_saved) (Init (Some ''1.2.3.4:7777'') (Some ''xx'') (Some ''kk'') (Some ''t'') (Some ''web'')) (\<lambda>_. None)
     = (Inr (), out, fs') \<and> map_option (\<lambda>(r, n, _). (r, n)) (client_main (demo_lib Ping Ping) (demo_plan_args None) demo_turns fs')
       = map_option (\<lambda>(r, n, _). (r, n)) (client_main (demo_lib Ping Ping) ((demo_plan_args None)\<lparr>ca_relay := Some ''1.2.3.4:7777'',
            ca_x25519 := Some ''xx'', ca_kem := Some ''kk'', ca_token := Some ''t'', ca_cmd := HttpCmd 3000 (Some ''web'')\<rparr>) demo_turns (\<lambda>_. None))"
proof -
  obtain out fs' where h: "handle_config (demo_toml demo_saved)
      (Init (Some ''1.2.3.4:7777'') (Some ''xx'') (Some ''kk'') (Some ''t'') (Some ''web'')) (\<lambda>_. None) = (Inr (), out, fs')"
    using demo_init by blast
  have c: "cl_config (demo_lib Ping Ping) = demo_toml demo_saved" by (simp add: demo_lib_def)
  have l: "toml_law (cl_config (demo_lib Ping Ping))" by (simp add: c toml_law_def demo_toml_def)
  show ?thesis
    using config_init_then_run [OF l h [folded c] demo_plan_args_def [of None] refl] h by blast
qed

lemma demo_relay: "parse_sockaddr (show_ipv4 w @ '':7'') = Some \<lparr>sa_ip = V4 w, sa_port = 7\<rparr>"
  by (simp add: parse_sockaddr_def parse_sockaddr_v4_def read_ipv4_show read_given_char_def read_port_def is_digit_def digits_val_def
      digit_val_def chr_code_def Let_def)

theorem refused_client_exits_witness:
  "\<exists>a b. client_main (demo_lib a b) ((demo_plan_args (Some (show_ipv4 1 @ '':7'')))\<lparr>ca_x25519 := Some ''xx'', ca_kem := Some ''kk''\<rparr>)
     demo_turns (\<lambda>_. None) = Some (Inl ''PERMANENT relay refused: 409 taken'', 1, \<lambda>_. None)"
proof -
  let ?a = "Register PROTOCOL_VERSION None (Http None)" and ?b = "Error 409 ''taken''"
  let ?lib = "demo_lib ?a ?b" and ?args = "(demo_plan_args (Some (show_ipv4 1 @ '':7'')))\<lparr>ca_x25519 := Some ''xx'', ca_kem := Some ''kk''\<rparr>"
  obtain relay where relay: "parse_sockaddr (show_ipv4 1 @ '':7'') = Some relay" using demo_relay by blast
  define plan where "plan = \<lparr>cp_relay = relay, cp_x25519 = replicate 32 0, cp_kem = 32 :: nat, cp_token = None,
    cp_target = ''127.0.0.1:'' @ show_word (3000 :: u16), cp_kind = Http None\<rparr>"
  have s: "client_startup (cl_hex_decode ?lib) (cl_pk_from_bytes ?lib) ?args (load_from (cl_config ?lib) (ca_config ?args) (\<lambda>_. None)) = Inr plan"
    by (simp add: client_startup_def and_then_def ok_or_def or_else_def relay parse_x25519_def parse_kem_def demo_lib_def demo_plan_args_def
        load_from_def Let_def ClientConfig_default_def plan_def)
  have c: "\<forall>action. ca_cmd ?args \<noteq> ConfigCmd action" by (simp add: demo_plan_args_def)
  have t: "ct_session (demo_turns 0) = Some demo_session" by (simp add: demo_turns_def)
  have e: "se_bind_error demo_session = None" "se_connect_error demo_session = None" by (simp_all add: demo_session_def)
  have w: "fst (write_frame (cl_serialize ?lib) (Register PROTOCOL_VERSION (cp_token plan) (cp_kind plan)) (se_writer demo_session)) = Inr ()"
    using two_writes [of ?a ?b ?a 0] by (simp add: demo_lib_def plan_def demo_session_def two_ser_def)
  have wb: "write_frame (two_ser ?a ?b) ?b fresh_writer = (Inr (), fresh_writer\<lparr>wr_out := [0, 0, 0, 1, 1]\<rparr>)"
    using two_writes [of ?a ?b ?b 1] by (simp add: two_ser_def)
  have "wr_out fresh_writer = []" by (simp add: fresh_writer_def)
  from frame_read_back [OF two_law wb this, of "[]" None]
  have r: "fst (read_frame (cl_deserialize ?lib) (se_reader demo_session)) = Inr ?b"
    by (simp add: demo_lib_def demo_session_def fresh_writer_def)
  have "''PERMANENT relay refused: '' @ show_word (409 :: u16) @ '' '' @ ''taken'' = ''PERMANENT relay refused: 409 taken''" by code_simp
  then show ?thesis using refused_client_exits [where turns = demo_turns, OF c s t e w r] by metis
qed

end
