(* ===== verification/Webhook.thy ===== *)
theory Webhook
  imports Tunnel
begin

text \<open>
  Delivery of webhook events, \<open>WebhookCtx\<close> of \<open>tunnel.rs\<close>: the task that \<open>fire\<close> starts for each event
  (\<open>webhook_fire\<close> of \<open>Tunnel\<close> records the events). A \<open>POST\<close> is a parameter: it times out, fails before
  an answer arrives, or gets an answer with some status.
\<close>

datatype post_result = TimedOut | SendError string | Answer u16

definition deliver :: "post_result \<Rightarrow> string + unit" where
  "deliver r =
     (case r of
        TimedOut \<Rightarrow> Inl ''webhook POST timed out after 5s''
      | SendError e \<Rightarrow> Inl (''webhook POST error: '' @ e)
      | Answer _ \<Rightarrow> Inr ())"

text \<open>The posts a task makes, given what each attempt meets, and its warnings.\<close>

definition fire_task :: "string \<Rightarrow> json \<Rightarrow> (nat \<Rightarrow> post_result) \<Rightarrow> (string \<times> json) list \<times> string list" where
  "fire_task url body post =
     (case deliver (post 0) of
        Inr _ \<Rightarrow> ([(url, body)], [])
      | Inl e \<Rightarrow>
          (case deliver (post 1) of
             Inr _ \<Rightarrow> ([(url, body), (url, body)], [''webhook delivery failed (attempt 1/2): '' @ e])
           | Inl e2 \<Rightarrow> ([(url, body), (url, body)],
               [''webhook delivery failed (attempt 1/2): '' @ e, ''webhook delivery failed (attempt 2/2): '' @ e2])))"

text \<open>All tasks of the events of a state, where \<open>post i n\<close> is what attempt \<open>n\<close> of event \<open>i\<close> meets.\<close>

definition webhook_posts :: "string \<Rightarrow> json list \<Rightarrow> (nat \<Rightarrow> nat \<Rightarrow> post_result) \<Rightarrow> (string \<times> json) list list" where
  "webhook_posts url events post = map (\<lambda>(i, body). fst (fire_task url body (post i))) (enumerate 0 events)"

text \<open>
  Every event is posted to the configured address, at least once and at most twice; the second
  time exactly if the first attempt got no answer. Any answer counts as delivered: an event the
  receiver refuses with an error status is lost without a warning.
\<close>

theorem webhook_posts_once_or_twice:
  assumes "i < length events"
  shows "webhook_posts url events post ! i = replicate (if \<exists>status. post i 0 = Answer status then 1 else 2) (url, events ! i)"
  using assms by (auto simp: webhook_posts_def nth_enumerate_eq fire_task_def deliver_def numeral_2_eq_2 split: post_result.splits)

theorem webhook_posts_once_or_twice_witness:
  "webhook_posts ''http://h'' [JNull] (\<lambda>_ _. Answer 500) ! 0 = [(''http://h'', JNull)]"
  using webhook_posts_once_or_twice [of 0 "[JNull]" "''http://h''" "\<lambda>_ _. Answer 500"] by simp

end
