(* ===== verification/Unit_Tests.thy ===== *)
theory Unit_Tests
  imports Access Rate_Limiter Denylist Http Exposition Audit_Log Acme
begin

text \<open>
  The unit tests of the relay's sources, evaluated on the model: each test function is a
  definition of the assertions it makes, and a lemma that they all hold. Assertions on random
  names are stated for every outcome of the generator, those on the token comparison for every
  \<open>ct_eq\<close> with its law.
\<close>

definition is_ok :: "'e + 'a \<Rightarrow> bool" where
  "is_ok r = (case r of Inr _ \<Rightarrow> True | Inl _ \<Rightarrow> False)"

section \<open>\<open>tunnel.rs\<close>\<close>

definition policy_with :: "string list \<Rightarrow> AuthPolicy" where
  "policy_with toks = \<lparr>allowed = Some toks\<rparr>"

definition auth_open_always_passes :: "(string \<Rightarrow> string \<Rightarrow> u8) \<Rightarrow> bool" where
  "auth_open_always_passes ct_eq =
     (let p = AuthPolicy_open in is_ok (AuthPolicy_check ct_eq p None) \<and> is_ok (AuthPolicy_check ct_eq p (Some ''anything'')))"

definition auth_required_when_no_token_provided :: "(string \<Rightarrow> string \<Rightarrow> u8) \<Rightarrow> bool" where
  "auth_required_when_no_token_provided ct_eq = (AuthPolicy_check ct_eq (policy_with [''secret'']) None = Inl Required)"

definition auth_valid_token_accepted :: "(string \<Rightarrow> string \<Rightarrow> u8) \<Rightarrow> bool" where
  "auth_valid_token_accepted ct_eq = is_ok (AuthPolicy_check ct_eq (policy_with [''mysecret'']) (Some ''mysecret''))"

definition auth_wrong_token_rejected :: "(string \<Rightarrow> string \<Rightarrow> u8) \<Rightarrow> bool" where
  "auth_wrong_token_rejected ct_eq =
     (let p = policy_with [''mysecret'']
      in AuthPolicy_check ct_eq p (Some ''wrong'') = Inl Invalid \<and> AuthPolicy_check ct_eq p (Some ''mysecre'') = Inl Invalid
         \<and> AuthPolicy_check ct_eq p (Some ''mysecrett'') = Inl Invalid \<and> AuthPolicy_check ct_eq p (Some []) = Inl Invalid)"

definition auth_multi_token_any_accepted :: "(string \<Rightarrow> string \<Rightarrow> u8) \<Rightarrow> bool" where
  "auth_multi_token_any_accepted ct_eq =
     (let p = policy_with [''token-a'', ''token-b'', ''token-c'']
      in is_ok (AuthPolicy_check ct_eq p (Some ''token-a'')) \<and> is_ok (AuthPolicy_check ct_eq p (Some ''token-b''))
         \<and> is_ok (AuthPolicy_check ct_eq p (Some ''token-c'')) \<and> AuthPolicy_check ct_eq p (Some ''token-d'') = Inl Invalid)"

definition validate_subdomain_valid :: bool where
  "validate_subdomain_valid \<longleftrightarrow>
     is_ok (validate_subdomain ''abc'') \<and> is_ok (validate_subdomain ''abc-def'') \<and> is_ok (validate_subdomain ''abc123'')
     \<and> is_ok (validate_subdomain ''a'') \<and> is_ok (validate_subdomain (replicate 63 CHR ''a''))"

definition validate_subdomain_invalid :: bool where
  "validate_subdomain_invalid \<longleftrightarrow>
     list_all (\<lambda>s. \<not> is_ok (validate_subdomain s))
       [[], ''-abc'', ''abc-'', ''abc.def'', ''abc def'', ''abc_def'', replicate 64 CHR ''a'']"

text \<open>The tests of the rate limiter make their calls at some increasing times within the window.\<close>

definition secs60 :: nat where
  "secs60 = 60 * 1000000000"

definition rate_limiter_allows_within_limit :: bool where
  "rate_limiter_allows_within_limit \<longleftrightarrow>
     run_limiter [(1, ''1.2.3.4''), (2, ''1.2.3.4''), (3, ''1.2.3.4''), (4, ''1.2.3.4'')] (RateLimiter_new 3 secs60)
       = [True, True, True, False]"

definition rate_limiter_unlimited_when_zero :: bool where
  "rate_limiter_unlimited_when_zero \<longleftrightarrow>
     run_limiter (map (\<lambda>k. (k, ''1.2.3.4'')) [0..<100]) (RateLimiter_new 0 secs60) = replicate 100 True"

definition rate_limiter_separate_ips_independent :: bool where
  "rate_limiter_separate_ips_independent \<longleftrightarrow>
     run_limiter [(1, ''1.1.1.1''), (2, ''1.1.1.1''), (3, ''2.2.2.2'')] (RateLimiter_new 1 secs60) = [True, False, True]"

definition reserved_subdomains_blocks_known_names :: bool where
  "reserved_subdomains_blocks_known_names =
     (let rs = ReservedSubdomains_new [''admin'', ''www'', ''api'']
      in is_reserved rs ''admin'' \<and> is_reserved rs ''www'' \<and> is_reserved rs ''api'' \<and> is_reserved rs ''ADMIN''
         \<and> \<not> is_reserved rs ''myapp'' \<and> \<not> is_reserved rs ''app-api'')"

definition reserved_subdomains_empty_allows_all :: bool where
  "reserved_subdomains_empty_allows_all =
     (let rs = ReservedSubdomains_new []
      in \<not> is_reserved rs ''admin'' \<and> \<not> is_reserved rs ''www'' \<and> \<not> is_reserved rs ''anything'')"

definition subdomain_prefix_none_allows_any :: bool where
  "subdomain_prefix_none_allows_any =
     (let p = \<lparr>prefix = None\<rparr>
      in is_ok (SubdomainPrefix_check p ''anything'') \<and> is_ok (SubdomainPrefix_check p ''dev-foo'')
         \<and> is_ok (SubdomainPrefix_check p ''user-bar''))"

definition subdomain_prefix_enforced_correctly :: bool where
  "subdomain_prefix_enforced_correctly =
     (let p = \<lparr>prefix = Some ''dev-''\<rparr>
      in is_ok (SubdomainPrefix_check p ''dev-myapp'') \<and> is_ok (SubdomainPrefix_check p ''dev-'')
         \<and> is_ok (SubdomainPrefix_check p ''DEV-myapp'') \<and> \<not> is_ok (SubdomainPrefix_check p ''prod-myapp'')
         \<and> \<not> is_ok (SubdomainPrefix_check p ''myapp'') \<and> \<not> is_ok (SubdomainPrefix_check p ''devmyapp''))"

definition subdomain_prefix_required_returns_correct_prefix :: bool where
  "subdomain_prefix_required_returns_correct_prefix \<longleftrightarrow>
     prefix \<lparr>prefix = Some ''user-''\<rparr> = Some ''user-'' \<and> prefix \<lparr>prefix = None\<rparr> = None"

text \<open>\<open>random_subdomain\<close> is the name of eight characters.\<close>

definition random_subdomain :: "(nat \<Rightarrow> nat) \<Rightarrow> string" where
  "random_subdomain gen = random_subdomain_with_length gen 8"

definition random_subdomain_length_correct :: "(nat \<Rightarrow> nat) \<Rightarrow> bool" where
  "random_subdomain_length_correct gen = list_all (\<lambda>len. length (random_subdomain_with_length gen len) = len) [6, 8, 12, 16]"

definition random_subdomain_only_valid_chars :: "(nat \<Rightarrow> nat) \<Rightarrow> bool" where
  "random_subdomain_only_valid_chars gen = list_all is_ascii_alphanumeric (random_subdomain_with_length gen 8)"

definition random_subdomain_default_is_eight_chars :: "(nat \<Rightarrow> nat) \<Rightarrow> bool" where
  "random_subdomain_default_is_eight_chars gen \<longleftrightarrow> length (random_subdomain gen) = 8"

lemma tests_auth:
  assumes "ct_eq_law ct_eq"
  shows "auth_open_always_passes ct_eq" "auth_required_when_no_token_provided ct_eq" "auth_valid_token_accepted ct_eq"
    "auth_wrong_token_rejected ct_eq" "auth_multi_token_any_accepted ct_eq"
  unfolding auth_open_always_passes_def auth_required_when_no_token_provided_def auth_valid_token_accepted_def
    auth_wrong_token_rejected_def auth_multi_token_any_accepted_def Let_def
  using assms by (simp_all add: AuthPolicy_check_def AuthPolicy_open_def policy_with_def token_round_def is_ok_def ct_eq_law_def Let_def)

lemma tests_subdomain:
  "validate_subdomain_valid" "validate_subdomain_invalid" "reserved_subdomains_blocks_known_names"
  "reserved_subdomains_empty_allows_all" "subdomain_prefix_none_allows_any" "subdomain_prefix_enforced_correctly"
  "subdomain_prefix_required_returns_correct_prefix"
  by code_simp+

lemma tests_limiter:
  "rate_limiter_allows_within_limit" "rate_limiter_separate_ips_independent"
  by (simp_all add: rate_limiter_allows_within_limit_def rate_limiter_separate_ips_independent_def check_and_record_def
      RateLimiter_new_def secs60_def Let_def word_le_nat_alt)

lemma limiter_off: "rl_max rl = 0 \<Longrightarrow> run_limiter calls rl = replicate (length calls) True"
  by (induction calls) (auto simp: check_and_record_def)

lemma test_limiter_off: "rate_limiter_unlimited_when_zero"
  by (simp add: rate_limiter_unlimited_when_zero_def limiter_off RateLimiter_new_def del: upt_rec_numeral)

lemma tests_random:
  assumes "gen_range_law gen"
  shows "random_subdomain_length_correct gen" "random_subdomain_only_valid_chars gen" "random_subdomain_default_is_eight_chars gen"
proof -
  have "list_all is_ascii_alphanumeric CHARS" by code_simp
  then have "is_ascii_alphanumeric (CHARS ! gen k)" for k
    using assms by (simp add: list_all_length gen_range_law_def)
  then show "random_subdomain_only_valid_chars gen"
    by (simp add: random_subdomain_only_valid_chars_def random_subdomain_with_length_def list_all_iff)
qed (simp_all add: random_subdomain_length_correct_def random_subdomain_default_is_eight_chars_def random_subdomain_def
    random_subdomain_with_length_def)

section \<open>\<open>denylist.rs\<close>\<close>

definition v4 :: "nat \<Rightarrow> nat \<Rightarrow> nat \<Rightarrow> nat \<Rightarrow> ipaddr" where
  "v4 a b c d = V4 (of_octets a b c d)"

definition disabled_denies_nothing :: bool where
  "disabled_denies_nothing \<longleftrightarrow> \<not> is_denied disabled (v4 1 2 3 4) \<and> \<not> is_denied disabled (v4 10 0 0 1)"

definition single_cidr_match :: bool where
  "single_cidr_match =
     (case parse_cidr ''10.0.0.0/8'' of
        None \<Rightarrow> False
      | Some e \<Rightarrow> (let dl = \<lparr>entries = [e], dl_path = None\<rparr>
                   in is_denied dl (v4 10 0 0 1) \<and> is_denied dl (v4 10 255 255 255)
                      \<and> \<not> is_denied dl (v4 11 0 0 1) \<and> \<not> is_denied dl (v4 192 168 1 1)))"

definition host_cidr_slash32 :: bool where
  "host_cidr_slash32 =
     (case parse_cidr ''1.2.3.4/32'' of
        None \<Rightarrow> False
      | Some e \<Rightarrow> (let dl = \<lparr>entries = [e], dl_path = None\<rparr> in is_denied dl (v4 1 2 3 4) \<and> \<not> is_denied dl (v4 1 2 3 5)))"

definition parse_cidr_invalid :: bool where
  "parse_cidr_invalid \<longleftrightarrow> parse_cidr ''not-a-cidr'' = None \<and> parse_cidr ''256.0.0.0/8'' = None
     \<and> parse_cidr ''10.0.0.0/33'' = None \<and> parse_cidr ''10.0.0.0'' = None"

definition parse_cidr_slash0_matches_all :: bool where
  "parse_cidr_slash0_matches_all \<longleftrightarrow> parse_cidr ''0.0.0.0/0'' = Some (0, 0)"

lemmas number_defs = parse_uint_def digits_val_def digit_val_def is_digit_def chr_code_def Let_def

lemmas cidr_defs = parse_cidr_def split_once_def parse_prefix_len_def parse_u32_def parse_ipv4_def read_ipv4_def read_octet_def
  read_given_char_def of_octets_def prefix_mask_def number_defs word_le_nat_alt

lemma trims: "trim ''10.0.0.0'' = ''10.0.0.0''" "trim ''1.2.3.4'' = ''1.2.3.4''" "trim ''256.0.0.0'' = ''256.0.0.0''"
  "trim ''0.0.0.0'' = ''0.0.0.0''"
  by code_simp+

lemma test_cidrs: "parse_cidr ''10.0.0.0/8'' = Some (0x0A000000, 0xFF000000)" "parse_cidr ''1.2.3.4/32'' = Some (0x01020304, 0xFFFFFFFF)"
  by (simp_all add: cidr_defs trims mask_eq_exp_minus_1)

lemma tests_denylist: "disabled_denies_nothing" "single_cidr_match" "host_cidr_slash32"
  by (simp_all add: disabled_denies_nothing_def single_cidr_match_def host_cidr_slash32_def test_cidrs is_denied_def disabled_def
      v4_def of_octets_def)

lemma tests_cidr: "parse_cidr_invalid" "parse_cidr_slash0_matches_all"
  by (simp_all add: parse_cidr_invalid_def parse_cidr_slash0_matches_all_def cidr_defs trims)

section \<open>\<open>ingress.rs\<close>\<close>

abbreviation CRLF :: string where
  "CRLF \<equiv> [CR, LF]"

definition host_header_exact :: bool where
  "host_header_exact \<longleftrightarrow>
     parse_host_header (''GET / HTTP/1.1'' @ CRLF @ ''Host: example.com'' @ CRLF @ CRLF) = Some ''example.com''"

definition host_header_case_insensitive :: bool where
  "host_header_case_insensitive \<longleftrightarrow>
     list_all (\<lambda>h. parse_host_header (''GET / HTTP/1.1'' @ CRLF @ h @ '': a.b.c'' @ CRLF @ CRLF) = Some ''a.b.c'')
       [''HOST'', ''host'', ''HoSt'']"

definition host_header_missing :: bool where
  "host_header_missing \<longleftrightarrow> parse_host_header (''GET / HTTP/1.1'' @ CRLF @ ''Content-Type: text/plain'' @ CRLF @ CRLF) = None"

definition extract_subdomain_basic :: bool where
  "extract_subdomain_basic \<longleftrightarrow>
     extract_subdomain ''foo.example.com'' ''example.com'' = Some ''foo''
     \<and> extract_subdomain ''foo.example.com:8080'' ''example.com'' = Some ''foo''
     \<and> extract_subdomain ''notexample.com'' ''example.com'' = None \<and> extract_subdomain ''example.com'' ''example.com'' = None"

definition parse_upstream_addr_http :: bool where
  "parse_upstream_addr_http \<longleftrightarrow> parse_upstream_addr ''http://localhost:3000'' = Some ''localhost:3000''
     \<and> parse_upstream_addr ''http://localhost'' = Some ''localhost:80''"

definition parse_upstream_addr_https :: bool where
  "parse_upstream_addr_https \<longleftrightarrow> parse_upstream_addr ''https://api.example.com'' = Some ''api.example.com:443''
     \<and> parse_upstream_addr ''https://api.example.com:8443'' = Some ''api.example.com:8443''"

definition parse_upstream_addr_empty :: bool where
  "parse_upstream_addr_empty \<longleftrightarrow> parse_upstream_addr ''http://'' = None \<and> parse_upstream_addr [] = None"

definition inject_forwarding_headers_basic :: bool where
  "inject_forwarding_headers_basic =
     (let s = inject_forwarding_headers (''GET / HTTP/1.1'' @ CRLF @ ''Host: example.com'' @ CRLF @ CRLF) ''1.2.3.4'' False
      in starts_with s (''GET / HTTP/1.1'' @ CRLF) \<and> contains_str s (''X-Forwarded-For: 1.2.3.4'' @ CRLF)
         \<and> contains_str s (''X-Real-IP: 1.2.3.4'' @ CRLF) \<and> contains_str s (''X-Forwarded-Proto: http'' @ CRLF)
         \<and> ends_with s (''Host: example.com'' @ CRLF @ CRLF))"

definition inject_forwarding_headers_https :: bool where
  "inject_forwarding_headers_https \<longleftrightarrow>
     contains_str (inject_forwarding_headers (''GET / HTTP/1.1'' @ CRLF @ ''Host: secure.example.com'' @ CRLF @ CRLF) ''10.0.0.1'' True)
       (''X-Forwarded-Proto: https'' @ CRLF)"

definition error_response_http_no_hsts :: bool where
  "error_response_http_no_hsts =
     (let r = error_response ''502 Bad Gateway'' (''oops'' @ [LF]) False
      in \<not> contains_str r ''Strict-Transport-Security'' \<and> contains_str r ''Content-Length: 5'')"

definition error_response_https_has_hsts :: bool where
  "error_response_https_has_hsts =
     (let r = error_response ''503 Service Unavailable'' (''paused'' @ [LF]) True
      in contains_str r (''Strict-Transport-Security: max-age=63072000; includeSubDomains'' @ CRLF) \<and> contains_str r ''Content-Length: 7'')"

definition parse_content_length_present :: bool where
  "parse_content_length_present \<longleftrightarrow>
     parse_content_length (''POST /upload HTTP/1.1'' @ CRLF @ ''Host: example.com'' @ CRLF @ ''Content-Length: 12345'' @ CRLF @ CRLF) = Some 12345"

definition parse_content_length_case_insensitive :: bool where
  "parse_content_length_case_insensitive \<longleftrightarrow>
     parse_content_length (''POST / HTTP/1.1'' @ CRLF @ ''Host: x'' @ CRLF @ ''content-length: 99'' @ CRLF @ CRLF) = Some 99
     \<and> parse_content_length (''POST / HTTP/1.1'' @ CRLF @ ''Host: x'' @ CRLF @ ''CONTENT-LENGTH: 500'' @ CRLF @ CRLF) = Some 500"

definition parse_content_length_missing :: bool where
  "parse_content_length_missing \<longleftrightarrow>
     parse_content_length (''GET / HTTP/1.1'' @ CRLF @ ''Host: example.com'' @ CRLF @ CRLF) = None"

definition parse_content_length_invalid :: bool where
  "parse_content_length_invalid \<longleftrightarrow>
     parse_content_length (''POST / HTTP/1.1'' @ CRLF @ ''Host: x'' @ CRLF @ ''Content-Length: not-a-number'' @ CRLF @ CRLF) = None"

lemma tests_host: "host_header_exact" "host_header_case_insensitive" "host_header_missing"
  by code_simp+

lemma tests_names: "extract_subdomain_basic" "parse_upstream_addr_http" "parse_upstream_addr_https" "parse_upstream_addr_empty"
  by code_simp+

lemma tests_responses:
  "inject_forwarding_headers_basic" "inject_forwarding_headers_https" "error_response_http_no_hsts" "error_response_https_has_hsts"
  by code_simp+

lemma length_fields:
  "parse_content_length (''POST /upload HTTP/1.1'' @ CRLF @ ''Host: example.com'' @ CRLF @ ''Content-Length: 12345'' @ CRLF @ CRLF) = parse_u64 ''12345''"
  "parse_content_length (''POST / HTTP/1.1'' @ CRLF @ ''Host: x'' @ CRLF @ ''content-length: 99'' @ CRLF @ CRLF) = parse_u64 ''99''"
  "parse_content_length (''POST / HTTP/1.1'' @ CRLF @ ''Host: x'' @ CRLF @ ''CONTENT-LENGTH: 500'' @ CRLF @ CRLF) = parse_u64 ''500''"
  "parse_content_length (''POST / HTTP/1.1'' @ CRLF @ ''Host: x'' @ CRLF @ ''Content-Length: not-a-number'' @ CRLF @ CRLF) = parse_u64 ''not-a-number''"
proof -
  have f: "first_field (\<lambda>n. eq_ignore_ascii_case n ''content-length'') (split_crlf raw) = Some v \<Longrightarrow> utf8_valid raw \<Longrightarrow>
      parse_content_length raw = parse_u64 (trim v)" for raw v
    by (simp add: parse_content_length_def)
  have t: "trim '' 12345'' = ''12345''" "trim '' 99'' = ''99''" "trim '' 500'' = ''500''" "trim '' not-a-number'' = ''not-a-number''"
    by code_simp+
  show "parse_content_length (''POST /upload HTTP/1.1'' @ CRLF @ ''Host: example.com'' @ CRLF @ ''Content-Length: 12345'' @ CRLF @ CRLF) = parse_u64 ''12345''"
    by (rule f [of _ "'' 12345''", unfolded t]) code_simp+
  show "parse_content_length (''POST / HTTP/1.1'' @ CRLF @ ''Host: x'' @ CRLF @ ''content-length: 99'' @ CRLF @ CRLF) = parse_u64 ''99''"
    by (rule f [of _ "'' 99''", unfolded t]) code_simp+
  show "parse_content_length (''POST / HTTP/1.1'' @ CRLF @ ''Host: x'' @ CRLF @ ''CONTENT-LENGTH: 500'' @ CRLF @ CRLF) = parse_u64 ''500''"
    by (rule f [of _ "'' 500''", unfolded t]) code_simp+
  show "parse_content_length (''POST / HTTP/1.1'' @ CRLF @ ''Host: x'' @ CRLF @ ''Content-Length: not-a-number'' @ CRLF @ CRLF) = parse_u64 ''not-a-number''"
    by (rule f [of _ "'' not-a-number''", unfolded t]) code_simp+
qed

lemma tests_length: "parse_content_length_present" "parse_content_length_case_insensitive" "parse_content_length_invalid"
  unfolding parse_content_length_present_def parse_content_length_case_insensitive_def parse_content_length_invalid_def length_fields
  by (simp_all add: parse_u64_def number_defs)

lemma test_no_length: "parse_content_length_missing"
proof -
  have "first_field (\<lambda>n. eq_ignore_ascii_case n ''content-length'')
      (split_crlf (''GET / HTTP/1.1'' @ CRLF @ ''Host: example.com'' @ CRLF @ CRLF)) = None" by code_simp
  then show ?thesis by (simp add: parse_content_length_missing_def parse_content_length_def)
qed

section \<open>\<open>audit.rs\<close> and \<open>acme.rs\<close>\<close>

definition epoch_to_ymd_known_dates :: bool where
  "epoch_to_ymd_known_dates \<longleftrightarrow> epoch_to_ymd 1735689600 = (2025, 1, 1) \<and> epoch_to_ymd 951868800 = (2000, 3, 1)
     \<and> epoch_to_ymd 0 = (1970, 1, 1) \<and> epoch_to_ymd 1709164800 = (2024, 2, 29)"

definition disabled_emit_noop :: "bool \<Rightarrow> bool" where
  "disabled_emit_noop ring_free \<longleftrightarrow>
     \<not> AuditLog_is_enabled (emit ring_free (JObj [(''event'', JStr ''test'')]) AuditLog_disabled)"

definition test_event :: "string \<Rightarrow> int \<Rightarrow> json" where
  "test_event name t = JObj [(''event'', JStr name), (''ts'', JInt t)]"

definition audit_ring_query_all :: bool where
  "audit_ring_query_all =
     (let r = fold AuditRing_push [test_event ''a'' 100, test_event ''b'' 200, test_event ''c'' 300] AuditRing_new; all = AuditRing_query None 100 r
      in length all = 3 \<and> json_get (all ! 0) ''event'' = Some (JStr ''a'') \<and> json_get (all ! 2) ''event'' = Some (JStr ''c''))"

definition audit_ring_query_since :: bool where
  "audit_ring_query_since =
     (let r = fold AuditRing_push [test_event ''old'' 50, test_event ''new'' 200] AuditRing_new; recent = AuditRing_query (Some 100) 100 r
      in length recent = 1 \<and> json_get (recent ! 0) ''event'' = Some (JStr ''new''))"

definition audit_ring_respects_limit :: bool where
  "audit_ring_respects_limit \<longleftrightarrow>
     length (AuditRing_query None 3 (fold AuditRing_push (map (\<lambda>i. test_event ''x'' (int i)) [0..<10]) AuditRing_new)) = 3"

definition days_since_epoch_known_date :: bool where
  "days_since_epoch_known_date \<longleftrightarrow> days_since_epoch 1970 1 1 = Some 0 \<and> days_since_epoch 1970 1 2 = Some 1
     \<and> days_since_epoch 2000 1 1 = Some 10957"

definition days_until_expiry_empty_pem :: "(string \<Rightarrow> u8 list option) \<Rightarrow> nat option \<Rightarrow> bool" where
  "days_until_expiry_empty_pem base64_decode now \<longleftrightarrow> days_until_expiry base64_decode now ''not a cert'' = Inr None"

lemma test_days: "days_since_epoch_known_date"
  by code_simp

lemma test_dates: "epoch_to_ymd_known_dates"
proof -
  have d: "int (1735689600 div 86400) = 20089" "int (951868800 div 86400) = 11017" "int (0 div 86400) = 0"
    "int (1709164800 div 86400) = 19782"
    by simp_all
  show ?thesis unfolding epoch_to_ymd_known_dates_def epoch_to_ymd_def d by code_simp
qed

lemma tests_ring: "audit_ring_query_all" "audit_ring_query_since" "audit_ring_respects_limit"
  by (simp_all add: audit_ring_query_all_def audit_ring_query_since_def audit_ring_respects_limit_def AuditRing_push_def
      AuditRing_new_def AuditRing_query_def RING_CAPACITY_def event_ts_def test_event_def Let_def upt_rec)

lemma test_disabled: "disabled_emit_noop ring_free"
  by (simp add: disabled_emit_noop_def AuditLog_is_enabled_def emit_def AuditLog_disabled_def)

lemma test_no_pem: "days_until_expiry_empty_pem base64_decode now"
proof -
  have "pem_body ''not a cert'' = []" by code_simp
  then show ?thesis by (simp add: days_until_expiry_empty_pem_def days_until_expiry_def Let_def)
qed

lemma contains_append: "contains_str (a @ p @ b) p"
proof (induction a)
  case Nil
  have "starts_with (p @ b) p" by (simp add: starts_with_def)
  then show ?case by (cases "p @ b") (auto simp: starts_with_def)
qed simp

lemma contains_line: "l @ rest \<in> set ls \<Longrightarrow> contains_str (file_of_lines ls) l"
proof -
  assume "l @ rest \<in> set ls"
  then obtain xs ys where "ls = xs @ (l @ rest) # ys" by (meson split_list)
  then have "file_of_lines ls = file_of_lines xs @ l @ (rest @ [LF] @ file_of_lines ys)" by (simp add: file_of_lines_def)
  then show ?thesis by (simp add: contains_append)
qed

lemma contains_within: "contains_str s p \<Longrightarrow> contains_str (a @ s @ b) p"
proof -
  assume "contains_str s p"
  then have "\<exists>x y. s = x @ p @ y"
  proof (induction s)
    case (Cons c s)
    then show ?case
      by (metis append_Cons append_Nil append_take_drop_id contains_str.simps(2) starts_with_def append_assoc)
  qed simp
  then obtain x y where "s = x @ p @ y" by blast
  then show ?thesis using contains_append [of "a @ x" p "y @ b"] by simp
qed

text \<open>
  Two events, written by the background task on one day. Of the JSON writer the test needs that a
  text has no line break and holds the strings of the value that need no escape.
\<close>

definition json_text_law :: "(json \<Rightarrow> string option) \<Rightarrow> bool" where
  "json_text_law to_string \<longleftrightarrow>
     (\<forall>name n. list_all (\<lambda>c. is_ascii_alphanumeric c \<or> c = CHR ''.'') name \<longrightarrow>
        (\<exists>text. to_string (test_event name n) = Some text \<and> LF \<notin> set text \<and> CR \<notin> set text \<and> contains_str text name))"

definition write_events_to_file :: "(json \<Rightarrow> string option) \<Rightarrow> bool \<Rightarrow> nat \<Rightarrow> string \<Rightarrow> bool" where
  "write_events_to_file to_string ring_free now path =
     (let log = fold (emit ring_free) [test_event ''test.event'' 1, test_event ''test.event2'' 2] AuditLog_start;
          fs = snd (writer_task to_string (map (\<lambda>ev. (io_ok, now, ev)) (case tx log of Some q \<Rightarrow> q | None \<Rightarrow> []))
                 (WriterState_new path, Map.empty));
          content = (case fs path of Some text \<Rightarrow> text | None \<Rightarrow> [])
      in contains_str content ''test.event'' \<and> contains_str content ''test.event2'' \<and> length (str_lines content) = 2)"

lemma json_text_law_holds: "json_text_law (\<lambda>ev. case json_get ev ''event'' of Some (JStr name) \<Rightarrow> Some (name @ ''!'') | _ \<Rightarrow> None)"
proof -
  have "\<not> is_ascii_alphanumeric LF" "\<not> is_ascii_alphanumeric CR" by code_simp+
  then show ?thesis
    using contains_append [of "[]" _ "''!''"]
    by (auto simp: json_text_law_def test_event_def list_all_iff)
qed

lemma test_writes:
  assumes "json_text_law to_string"
  shows "write_events_to_file to_string ring_free now path"
proof -
  note law = assms [unfolded json_text_law_def, rule_format]
  have "list_all (\<lambda>c. is_ascii_alphanumeric c \<or> c = CHR ''.'') ''test.event''" by code_simp
  from law [OF this, of 1] obtain a where a: "to_string (test_event ''test.event'' 1) = Some a" "contains_str a ''test.event''"
      "LF \<notin> set a" "CR \<notin> set a" by blast
  have "list_all (\<lambda>c. is_ascii_alphanumeric c \<or> c = CHR ''.'') ''test.event2''" by code_simp
  from law [OF this, of 2] obtain b where b: "to_string (test_event ''test.event2'' 2) = Some b" "contains_str b ''test.event2''"
      "LF \<notin> set b" "CR \<notin> set b" by blast
  have n: "\<forall>l \<in> set [a, b]. LF \<notin> set l \<and> CR \<notin> set l" using a b by simp
  have q: "tx (fold (emit ring_free) [test_event ''test.event'' 1, test_event ''test.event2'' 2] AuditLog_start)
      = Some [test_event ''test.event'' 1, test_event ''test.event2'' 2]"
    by (simp add: emit_def AuditLog_start_def CHANNEL_CAPACITY_def)
  have w: "snd (writer_task to_string (map (\<lambda>ev. (io_ok, now, ev)) [test_event ''test.event'' 1, test_event ''test.event2'' 2])
      (WriterState_new path, Map.empty)) path = Some (file_of_lines [a, b])"
    by (simp add: write_event_def WriterState_new_def fs_append_def file_of_lines_def a(1) b(1) Let_def)
  have "contains_str (file_of_lines [a, b]) ''test.event''" "contains_str (file_of_lines [a, b]) ''test.event2''"
    using contains_within [OF a(2), of "[]"] contains_within [OF b(2), of "a @ [LF]"] by (simp_all add: file_of_lines_def)
  then show ?thesis
    using str_lines_file [OF n] unfolding write_events_to_file_def q w Let_def option.case by simp
qed

section \<open>\<open>metrics.rs\<close>\<close>

text \<open>The test values, as accurate as the tests need them.\<close>

lemma literal_bounds:
  assumes "0 < x"
  shows "999999 / 1000000 * x < f64_round x" and "f64_round x < 1000001 / 1000000 * x"
proof -
  have "x / 2 ^ 52 < x / 1000000" using assms by (simp add: field_simps)
  then have "\<bar>f64_round x - x\<bar> < x / 1000000" using f64_round_near [OF assms] by linarith
  then show "999999 / 1000000 * x < f64_round x" "f64_round x < 1000001 / 1000000 * x" unfolding abs_less_iff by linarith+
qed

text \<open>A literal of the source is the binary64 value nearest to it. Clones of a histogram share its counters.\<close>

definition histogram_counts_correctly :: bool where
  "histogram_counts_correctly =
     (let h = fold observe (map f64_round [3/1000, 1/100, 5/10, 5]) (Histogram_new LATENCY_BOUNDS)
      in h_count h = 4 \<and> h_buckets h ! 0 = 1 \<and> h_buckets h ! 1 = 2 \<and> h_buckets h ! 6 = 3 \<and> h_buckets h ! 8 = 3)"

definition histogram_sum_accumulates :: bool where
  "histogram_sum_accumulates =
     (let sum_us = h_sum_us (fold observe (map f64_round [1/10, 2/10]) (Histogram_new LATENCY_BOUNDS))
      in 290000 \<le> sum_us \<and> sum_us < 310000)"

definition histogram_render_contains_buckets :: bool where
  "histogram_render_contains_buckets =
     (let rendered = render_prometheus ''test_metric'' (observe (f64_round (5/100)) (Histogram_new LATENCY_BOUNDS))
      in contains_str rendered ''test_metric_bucket{le=\"0.005\"} 0'' \<and> contains_str rendered ''test_metric_bucket{le=\"0.05\"} 1''
         \<and> contains_str rendered ''test_metric_bucket{le=\"+Inf\"} 1'' \<and> contains_str rendered ''test_metric_count 1''
         \<and> contains_str rendered ''test_metric_sum '')"

definition histogram_shared_across_clones :: bool where
  "histogram_shared_across_clones \<longleftrightarrow> h_count (fold observe (map f64_round [1/10, 2/10]) (Histogram_new LATENCY_BOUNDS)) = 2"

lemma test_clones: "histogram_shared_across_clones"
  by (simp add: histogram_shared_across_clones_def observe_def Histogram_new_def)

lemma literal_le: "0 < x \<Longrightarrow> x \<le> y \<Longrightarrow> f64_round x \<le> f64_round y"
  by (rule f64_round_mono) simp_all

lemma literal_not_le: "0 < y \<Longrightarrow> 1000003 / 1000000 * y \<le> x \<Longrightarrow> \<not> f64_round x \<le> f64_round y"
  using literal_bounds [of x] literal_bounds [of y] by (simp add: field_simps)

lemma test_counts: "histogram_counts_correctly"
  unfolding histogram_counts_correctly_def
  by (simp add: observe_def Histogram_new_def LATENCY_BOUNDS_def Let_def literal_le literal_not_le)

lemma cast_near:
  assumes "0 < x" and "x < 2 ^ 63"
  shows "of_int (uint (f64_as_u64 x)) \<le> x" and "x < of_int (uint (f64_as_u64 x)) + 1"
proof -
  have "\<lfloor>x\<rfloor> < 2 ^ 64" using assms by (simp add: floor_less_iff)
  moreover have "0 \<le> \<lfloor>x\<rfloor>" using assms by simp
  ultimately have "uint (f64_as_u64 x) = \<lfloor>x\<rfloor>" using assms by (simp add: f64_as_u64_def word_uint_eqI unsigned_of_int take_bit_int_eq_self)
  then show "of_int (uint (f64_as_u64 x)) \<le> x" "x < of_int (uint (f64_as_u64 x)) + 1" by (simp, linarith)
qed

lemma micros_near:
  assumes "1 / 100 \<le> x" and "x \<le> 1"
  shows "999990 * x - 1 < of_int (uint (f64_as_u64 (f64_round (f64_round x * 1000000))))"
    and "of_int (uint (f64_as_u64 (f64_round (f64_round x * 1000000)))) < 1000010 * x"
proof -
  have x: "0 < x" using assms by simp
  note b = literal_bounds [OF x]
  have y: "0 < f64_round x * 1000000" using b x by linarith
  note c = literal_bounds [OF y]
  let ?z = "f64_round (f64_round x * 1000000)"
  have "0 < ?z" using c y by linarith
  moreover have "?z < 10000000" using b c assms by linarith
  then have "?z < 2 ^ 63" by simp
  ultimately have d: "of_int (uint (f64_as_u64 ?z)) \<le> ?z" "?z < of_int (uint (f64_as_u64 ?z)) + 1"
    by (rule cast_near)+
  show "999990 * x - 1 < of_int (uint (f64_as_u64 ?z))" using b c d x by linarith
  show "of_int (uint (f64_as_u64 ?z)) < 1000010 * x" using b c d x by linarith
qed

lemma test_sum: "histogram_sum_accumulates"
proof -
  let ?a = "f64_as_u64 (f64_round (f64_round (1/10) * 1000000))" and ?b = "f64_as_u64 (f64_round (f64_round (2/10) * 1000000))"
  have "rat_of_int 99990 < of_int (uint ?a)" "rat_of_int (uint ?a) < of_int 100010"
    "rat_of_int 199990 < of_int (uint ?b)" "rat_of_int (uint ?b) < of_int 200010"
    using micros_near [of "1/10"] micros_near [of "2/10"] by simp_all
  then have "99990 < uint ?a" "uint ?a < 100010" "199990 < uint ?b" "uint ?b < 200010"
    unfolding of_int_less_iff by simp_all
  moreover from this have "uint ?a + uint ?b < 2 ^ 64" by simp
  then have "uint (?a + ?b) = uint ?a + uint ?b" using uint_add_lem [of ?a ?b] by simp
  ultimately have "290000 \<le> ?a + ?b \<and> ?a + ?b < 310000" by (simp add: word_le_def word_less_def)
  then show ?thesis by (simp add: histogram_sum_accumulates_def observe_def Histogram_new_def)
qed

lemma decimals_from_step:
  "0 < n \<Longrightarrow> decimals_from n k x =
     (if f64_round (of_int (round_half_even (x * 10 ^ k)) / 10 ^ k) = x then k else decimals_from (n - 1) (k + 1) x)"
  by (cases n) simp_all

lemma round_half_even_near:
  assumes "of_int n - 1 / 2 < r" and "r < of_int n + 1 / 2"
  shows "round_half_even r = n"
proof -
  have "\<lfloor>r\<rfloor> = n \<and> r - of_int n < 1 / 2 \<or> \<lfloor>r\<rfloor> = n - 1 \<and> 1 / 2 < r - of_int (n - 1)"
    using assms by (cases "of_int n \<le> r") (auto simp: floor_eq_iff)
  then show ?thesis by (auto simp: round_half_even_def Let_def)
qed

text \<open>Bounds of the form 5 over a power of ten print as they are written.\<close>

lemma show_5_over:
  assumes "x = f64_round (5 / 10 ^ Suc k)"
  shows "round_half_even (x * 10 ^ Suc k) = 5"
    and "j \<le> k \<Longrightarrow> f64_round (of_int (round_half_even (x * 10 ^ j)) / 10 ^ j) \<noteq> x"
proof -
  define p :: rat where "p = 10 ^ k"
  have p: "1 \<le> p" by (simp add: p_def)
  have "0 < 5 / (10 * p)" using p by simp
  note b = literal_bounds [OF this]
  have x: "499 / 1000 < x * p" "x * p < 501 / 1000"
    using b p unfolding assms by (simp_all add: p_def field_simps)
  have "0 < x * p" "0 < p" using x p by linarith+
  then have x0: "0 < x" by (rule zero_less_mult_pos2)
  note x = x x0
  show "round_half_even (x * 10 ^ Suc k) = 5"
    by (rule round_half_even_near) (use x in \<open>simp_all add: p_def\<close>)
  have small: "round_half_even (x * 10 ^ j) = 0" if "j < k" for j
  proof -
    have "x * 10 ^ j * 10 \<le> x * p"
      using that x(3) power_increasing [of "Suc j" k "10 :: rat"] by (simp add: p_def)
    moreover have "0 < x * 10 ^ j" using x(3) by simp
    ultimately have "of_int 0 - 1 / 2 < x * 10 ^ j" "x * 10 ^ j < of_int 0 + 1 / 2" using x(2) unfolding of_int_0 by linarith+
    then show ?thesis by (rule round_half_even_near)
  qed
  have "round_half_even (x * p) = 0 \<or> round_half_even (x * p) = 1"
    using round_half_even_bounds [of "x * p"] x by (simp add: floor_unique [of 0]) linarith
  moreover have "x < f64_round (1 / p)"
  proof -
    have "999999 / 1000000 * (1 / p) < f64_round (1 / p)" using literal_bounds(1) [of "1 / p"] p by simp
    moreover have "x < 999999 / 1000000 * (1 / p)" using x p by (simp add: field_simps)
    ultimately show ?thesis by linarith
  qed
  ultimately have "f64_round (of_int (round_half_even (x * 10 ^ k)) / 10 ^ k) \<noteq> x" using x by (auto simp: p_def)
  then show "f64_round (of_int (round_half_even (x * 10 ^ j)) / 10 ^ j) \<noteq> x" if "j \<le> k"
    using that small [of j] x by (cases "j = k") auto
qed

lemma show_005: "show_f64 (f64_round (5 / 1000)) = ''0.005''"
proof -
  define x where "x = f64_round (5 / 10 ^ Suc 2)"
  note d = show_5_over [OF x_def]
  have "round_half_even (x * 1000) = 5" "f64_round (of_int (round_half_even x)) \<noteq> x"
      "f64_round (of_int (round_half_even (x * 10)) / 10) \<noteq> x" "f64_round (of_int (round_half_even (x * 100)) / 100) \<noteq> x"
    using d(1) d(2) [of 0] d(2) [of 1] d(2) [of 2] by simp_all
  moreover have "x = f64_round (5 / 1000)" by (simp add: x_def)
  moreover from calculation have "decimals_from 1074 0 x = 3" by (simp add: decimals_from_step)
  moreover have "show_nat 0 = ''0''" "show_nat 5 = ''5''" "replicate 2 CHR ''0'' = ''00''" by code_simp+
  ultimately show ?thesis by (simp add: show_f64_def show_fixed_def pad_left_def)
qed

lemma show_05: "show_f64 (f64_round (5 / 100)) = ''0.05''"
proof -
  define x where "x = f64_round (5 / 10 ^ Suc 1)"
  note d = show_5_over [OF x_def]
  have "round_half_even (x * 100) = 5" "f64_round (of_int (round_half_even x)) \<noteq> x"
      "f64_round (of_int (round_half_even (x * 10)) / 10) \<noteq> x"
    using d(1) d(2) [of 0] d(2) [of 1] by simp_all
  moreover have "x = f64_round (5 / 100)" by (simp add: x_def)
  moreover from calculation have "decimals_from 1074 0 x = 2" by (simp add: decimals_from_step)
  moreover have "show_nat 0 = ''0''" "show_nat 5 = ''5''" by code_simp+
  ultimately show ?thesis by (simp add: show_f64_def show_fixed_def pad_left_def)
qed

lemma bucket_lines:
  assumes "h_bounds h = LATENCY_BOUNDS" and "h_buckets h = [a, b, c, d, e, f, g, i, j]"
  shows "name @ ''_bucket{le=\"'' @ show_f64 (f64_round (5 / 1000)) @ ''\"} '' @ show_word a \<in> set (histogram_lines name h)"
    and "name @ ''_bucket{le=\"'' @ show_f64 (f64_round (5 / 100)) @ ''\"} '' @ show_word d \<in> set (histogram_lines name h)"
  using assms by (simp_all add: histogram_lines_def LATENCY_BOUNDS_def)

lemma total_lines:
  "name @ ''_bucket{le=\"+Inf\"} '' @ show_word (h_count h) \<in> set (histogram_lines name h)"
  "name @ ''_count '' @ show_word (h_count h) \<in> set (histogram_lines name h)"
  "name @ ''_sum '' @ show_fixed 6 (f64_round (u64_as_f64 (h_sum_us h) / 1000000)) \<in> set (histogram_lines name h)"
  by (simp_all add: histogram_lines_def Let_def)

lemma test_render: "histogram_render_contains_buckets"
proof -
  define h where "h = observe (f64_round (5/100)) (Histogram_new LATENCY_BOUNDS)"
  have b: "h_bounds h = LATENCY_BOUNDS" "h_buckets h = [0, 0, 0, 1, 1, 1, 1, 1, 1]" and c: "h_count h = 1"
    by (simp_all add: h_def observe_def Histogram_new_def LATENCY_BOUNDS_def literal_le literal_not_le)
  have w: "show_word (0 :: u64) = ''0''" "show_word (1 :: u64) = ''1''" by code_simp+
  note l = bucket_lines [OF b, of "''test_metric''", unfolded show_005 show_05 w] total_lines [of "''test_metric''" h, unfolded c w]
  show ?thesis
    using contains_line [of _ "[]", simplified, OF l(1)] contains_line [of _ "[]", simplified, OF l(2)]
      contains_line [of _ "[]", simplified, OF l(3)] contains_line [of _ "[]", simplified, OF l(4)]
      contains_line [of "''test_metric_sum ''", simplified] l(5)
    unfolding histogram_render_contains_buckets_def h_def [symmetric] Let_def render_prometheus_def
    by simp
qed

end
