(* ===== verification/Spec2Isabelle.thy ===== *)
theory Spec2Isabelle
  imports Relay_Main Listeners Client_Main Webhook Unit_Tests
begin

text \<open>
  Verification of Seamless, a reverse tunnel: clients behind a firewall register with a relay, the
  relay gives each a public name, and requests for that name are copied over the client's own
  connection to a local service. The sources are Rust, in three crates under \<open>src/crates\<close>:
  \<open>seamless-common\<close> (the frames of the control protocol), \<open>seamless-relay\<close> and \<open>seamless-client\<close>.

  \<^bold>\<open>The program and its model.\<close> Functions are translated one by one, state is passed explicitly,
  errors are values of a sum type, every panic of the source that a caller can reach is a value
  too, machine integers keep their width. What is not in the repository (the seam transport and
  its cryptography, \<open>bincode\<close>, \<open>serde_json\<close>, \<open>toml\<close>, \<open>hex\<close>, \<open>base64\<close>, the MaxMind reader, the ACME and
  HTTP client libraries, the constant-time comparison, random numbers, clocks, sockets, files) is a
  parameter; where a theorem relies on it, the law it needs is a named hypothesis (\<open>bincode_law\<close>,
  \<open>serde_law\<close>, \<open>toml_law\<close>, \<open>key_law\<close>, \<open>ct_eq_law\<close>, \<open>gen_range_law\<close>, \<open>os_bind_law\<close>, and for the HTTP server of
  the admin port \<open>router_law\<close>, \<open>method_law\<close>, \<open>cors_law\<close>, \<open>path_law\<close>, \<open>tls_law\<close>), and a witness shows that it can
  hold. The asynchronous tasks are cut at the points where they wait, and run as step relations
  (\<open>relay_step\<close>, \<open>ingress_step\<close>, \<open>pt_step\<close>, \<open>system_step\<close>, and \<open>run_step\<close> for the whole process), so that
  theorems about reachable states cover every interleaving.

  \<^bold>\<open>Theories.\<close> In the order they build on each other:
  \<^item> \<open>Prelude\<close>, \<open>Rust_Std\<close>, \<open>Net_Addr\<close>, \<open>Float64\<close>, \<open>Json\<close>: the parts of the language and its standard
    library the sources use (integer types, strings and their methods, number parsing, socket
    addresses and their text, binary64 rounding, JSON values), and the locales \<open>invariant\<close>, which every
    step relation is an instance of, and \<open>simulation\<close>, for step relations that refine another one.
  \<^item> \<open>Codec\<close> (\<open>seamless-common/lib.rs\<close>): \<open>write_frame\<close> and \<open>read_frame\<close>; round trip and size limits;
    the locale \<open>byte_code\<close> for fixed-width encodings.
  \<^item> \<open>Denylist\<close>, \<open>Geoip\<close>, \<open>Rate_Limiter\<close>, \<open>Ddos\<close>, \<open>Access\<close> (\<open>denylist.rs\<close>, \<open>geoip.rs\<close>, \<open>tunnel.rs\<close>,
    parts of \<open>admin.rs\<close> and \<open>main.rs\<close>): the rules that decide who gets in, each with what it decides
    exactly; the rate limiter refines a sliding window over the whole history; the token policy,
    block list and deny list are instances of the locale \<open>reloadable\<close>.
  \<^item> \<open>Ring_Buffers\<close>, \<open>Metrics\<close>, \<open>Calendar\<close>, \<open>Audit_Log\<close> (\<open>logs.rs\<close>, \<open>metrics.rs\<close>, \<open>audit.rs\<close>): bounded
    histories as instances of the locale \<open>ring_buffer\<close>, counters, the calendar computations of two
    files and that they invert each other, and the audit writer with its rotation.
  \<^item> \<open>Backends\<close> (\<open>tunnel.rs\<close>, \<open>admin.rs\<close>): weighted round robin and its fairness, health checks.
  \<^item> \<open>Tunnel\<close>, \<open>Tunnel_Props\<close> (\<open>tunnel.rs\<close>, background tasks of \<open>main.rs\<close>): \<open>handle_client\<close> with every
    check in its order, \<open>serve_http\<close>, \<open>serve_tcp\<close>, the session loop, closing, expiry, shutdown; what a
    registration guarantees, what a refusal leaves alone, and how far concurrent registrations
    overshoot the limits.
  \<^item> \<open>Store\<close>, \<open>Http\<close>, \<open>App_State\<close>, \<open>Ingress\<close> (\<open>store.rs\<close>, \<open>ingress.rs\<close>, \<open>AppState\<close> of \<open>main.rs\<close>): the
    persistent store as the sequence of file system states a save goes through, the HTTP text
    functions, and \<open>route_http\<close> from the first byte to the copy, with the ends of copies.
  \<^item> \<open>Tcp_Tunnel\<close> (\<open>tunnel.rs\<close>, \<open>ingress.rs\<close>): the accept loops of TCP tunnels and of the public
    ingress, TLS connections, and the forwarding of a TCP connection with its byte counts.
  \<^item> \<open>Tls\<close> (\<open>tls.rs\<close>, \<open>main.rs\<close>): the server configurations built from certificate, key and client CA
    files, with every error; the acceptor that SIGUSR1 replaces.
  \<^item> \<open>Admin_Api\<close>, \<open>Admin_Props\<close> (\<open>admin.rs\<close>): every JSON handler, the route table and the address
    filter in front of it; what the admin token protects, and the effects of the handlers.
  \<^item> \<open>Exposition\<close> (\<open>metrics.rs\<close>, \<open>admin.rs\<close>): the text of the metrics page, and what a scraper reads.
  \<^item> \<open>Cloudflare\<close> (\<open>cloudflare.rs\<close>, \<open>admin.rs\<close>): the requests and wire types of the Cloudflare account.
  \<^item> \<open>Acme\<close>, \<open>Acme_Order\<close> (\<open>acme.rs\<close>): the expiry check on the DER bytes, the renewal decision, the
    HTTP-01 responder, and the certificate order with its clean-up, its files and its renewal task.
  \<^item> \<open>Passthrough\<close> (\<open>tcp_passthrough.rs\<close>): option syntax, gates, the forwarding tasks and their gauge.
  \<^item> \<open>Admin_Router\<close> (\<open>start_admin\<close> of \<open>admin.rs\<close>): the route table, the layers in front of it and the
    extraction of arguments, from an HTTP request to a handler; that the table is unambiguous but
    for two paths, and what the port guarantees for every request.
  \<^item> \<open>Webhook\<close> (\<open>tunnel.rs\<close>): the delivery of events and its one retry.
  \<^item> \<open>Relay_System\<close>, \<open>Relay_Run\<close>: all steps of the relay over one state; the whole process with its
    sessions, copies and passthrough tasks and with arbitrary HTTP requests to its admin port, its
    invariant, and that it refines the registry of names (\<open>registry_step\<close>).
  \<^item> \<open>Config\<close> (\<open>main.rs\<close>): configuration file, merge with the command line, identity, and the state a
    started relay begins with.
  \<^item> \<open>Started\<close>: what holds of every state a started relay reaches: the books, the agreement of tasks
    and tunnel map, the registry, the isolation of clients, and that an admin gets a name back by
    disconnecting its client.
  \<^item> \<open>Listeners\<close> (\<open>start_admin\<close> and \<open>serve_tls\<close> of \<open>admin.rs\<close>, \<open>run_tcp_passthrough\<close>,
    \<open>run_acme_http_server\<close>, \<open>spawn_renewal_task\<close>): the servers beside the ingress from their \<open>bind\<close> to
    the tasks they spawn, as instances of the locale \<open>resilient\<close>; whom the admin port serves when client
    certificates are demanded; what ends the renewal task.
  \<^item> \<open>Relay_Main\<close> (\<open>main.rs\<close>): the tasks \<open>main\<close> starts, in their order, and when the relay accepts clients.
  \<^item> \<open>Client\<close> (\<open>seamless-client\<close>): configuration, session and reconnect loop, and the handshake of
    the client's session with the relay's \<open>handle_client\<close>.
  \<^item> \<open>Client_Main\<close>: the client program as a whole, from its arguments to its exit.
  \<^item> \<open>Unit_Tests\<close>: the unit tests of the relay's sources, evaluated on the model.
  \<^item> this theory: from a registration to the traffic of its public name, and from a public request to
    the client's local service.

  \<^bold>\<open>What is shown.\<close> The properties carry a claim number. The central ones: a client is registered
  only after every check has passed, and gets exactly the traffic of its name; the relay's tunnel
  map, sessions and gauges stay right from start-up on under every interleaving, which makes the relay a
  refinement of a registry in which names are never taken over; without the admin token no
  protected request changes anything, for every HTTP request to the admin port, and with a client CA
  configured nobody without its certificate is served there; the limits hold, with the exact
  overshoot where the source checks and inserts under separate locks; the wire format, the calendar, the stored settings, the
  identity and the client's configuration survive their round trips; the audit log loses no event
  and files it under its date. Where the source does something other than its comments say, a
  theorem states what it does (for example \<open>reload_error_denies_nobody\<close>, \<open>tunnel_named_disconnect\<close>, \<open>torn_pair_persists\<close>,
  \<open>serial_byte_forces_renewal\<close>, \<open>explicit_default_overridden\<close>, \<open>half_open_waits\<close>).

  \<^bold>\<open>Loops, fuel and bounds.\<close> Loops over data are structural recursion; \<open>scan_times\<close> has a measure.
  Two loops of the source have no bound and are partial functions in the option monad, where \<open>None\<close>
  is a call that never returns: the wait for a certificate (\<open>fetch_certificate\<close>) and the client's
  reconnect loop (\<open>reconnect\<close>). For both the exact condition of returning is proved
  (\<open>obtain_certificate_hangs_iff\<close>, \<open>client_stops_iff\<close>). \<open>trim_start_matches\<close> has fuel equal to the length
  of its string, which every round shortens; \<open>decimals_from\<close> has 1074 rounds, the most decimals a
  binary64 value has. \<open>bind_random_port\<close> and \<open>poll_order\<close> count down from the
  50 and 24 rounds of the source.

  \<^bold>\<open>Not modelled.\<close> The seam transport and its handshake, the TLS protocol itself (the configuration
  of its servers is), the contents of the copies (their lengths are inputs), the inside of the HTTP
  server library (its router, extractors and CORS layer are parameters with laws), the HTML page, log
  output, and the parsing of the command line (\<open>clap\<close>). Case mapping and white space are those of the ASCII range.
\<close>

section \<open>From registration to traffic\<close>

text \<open>
  Claim C2. A registered tunnel gets the traffic of its public URL: once a client has its \<open>Registered\<close>
  reply, a complete request to the host of that URL, with or without a port, is copied to exactly
  that client's connection, with the forwarding headers of the real peer put in, provided no
  static route and no custom domain claims the host, the peer's country is not blocked, the
  request is no health check and not over the body limit, and the stream to the client works.
\<close>

theorem registered_tunnel_gets_traffic:
  assumes "open_http ctx ci subdomain st = (Inr s, out, st')" and "gen_range_law (ci_gen ci)"
    and "app_ctx app = ctx" and "app_relay app = st'" and "CHR '':'' \<notin> set (base_domain ctx)"
    and "fst (geoip_is_blocked (geoip app) (sa_ip (hi_peer hi)) (geoip_blocked app)) = False"
    and "read_head [] (hi_reads hi) = (HeadOk True, head)" and "ordinary head app"
    and "parse_host_header head = Some host"
    and "host = s_key s @ ''.'' @ base_domain ctx \<or> host = s_key s @ ''.'' @ base_domain ctx @ '':'' @ port"
    and "find_route host (ss_store (app_store app)) = None"
    and "map_of (custom_domains st') (to_lowercase (s_key s @ ''.'' @ base_domain ctx)) = None"
    and "hi_newconn_write hi" and "hi_head_write hi"
  shows "\<exists>tc app'. route_http hi app = (Tunnelling tc, app') \<and> tc_conn tc = ci_conn ci \<and> tc_sub tc = s_key s
    \<and> tc_sent tc = inject_forwarding_headers head (show_ip (sa_ip (hi_peer hi))) (hi_https hi)"
proof -
  note ok = open_http_ok [OF assms(1)]
  have colon: "CHR '':'' \<notin> set (s_key s)"
    using ok label_no_colon random_no_colon [OF assms(2)]
    by (cases subdomain) (auto simp: chosen_name_def name_allowed_def)
  have tn: "tunnel_name host app = Some (s_key s)"
    by (rule tunnel_name_public [OF colon assms(5) _ assms(10)]) (use assms(3,4,12) in simp_all)
  have "tunnels st' = AList.update (s_key s) (new_entry ci (s_key s)) (tunnels st)"
    using ok by (simp add: core_def tunnels_insert_def)
  then have l: "lookup_tunnel (s_key s) app = Some (new_entry ci (s_key s))"
    by (simp add: lookup_tunnel_def assms(4))
  have "parse_host_header [] = None" by code_simp
  then have ne: "head \<noteq> []" using assms(9) by auto
  show ?thesis
    unfolding route_http_request [OF assms(6,7)] route_request_host [OF assms(8,9)] route_host_tunnel [OF assms(11) tn l]
    using route_tunnel_open [OF fresh_entry_open assms(13,14) ne] by (fastforce simp: new_entry_def)
qed

theorem registered_tunnel_gets_traffic_witness:
  "\<exists>s out st' tc app'. open_http demo_ctx (demo_input 1 ''web'') (Some ''web'') demo_state = (Inr s, out, st')
     \<and> route_http demo_http (demo_app st') = (Tunnelling tc, app') \<and> tc_conn tc = 1"
proof -
  obtain s out st' where o: "open_http demo_ctx (demo_input 1 ''web'') (Some ''web'') demo_state = (Inr s, out, st')"
    using open_http_free [OF demo_name_allowed(1), of demo_state "demo_input 1 ''web''"]
    by (auto simp: demo_state_def demo_input_def)
  have k: "s_key s = ''web''" using open_http_ok [OF o] by (simp add: chosen_name_def)
  have c: "custom_domains st' = []" using open_http_ok [OF o] by (simp add: core_def tunnels_insert_def demo_state_def)
  have app: "app_ctx (demo_app st') = demo_ctx" "app_relay (demo_app st') = st'" by (simp_all add: demo_app_def)
  have b: "CHR '':'' \<notin> set (base_domain demo_ctx)" by (simp add: demo_ctx_def)
  have h: "''web.relay.test:80'' = s_key s @ ''.'' @ base_domain demo_ctx
      \<or> ''web.relay.test:80'' = s_key s @ ''.'' @ base_domain demo_ctx @ '':'' @ ''80''"
    by (simp add: k demo_ctx_def)
  have m: "map_of (custom_domains st') (to_lowercase (s_key s @ ''.'' @ base_domain demo_ctx)) = None" by (simp add: c)
  have w: "hi_newconn_write demo_http" "hi_head_write demo_http" by (simp_all add: demo_http_def)
  show ?thesis
    using registered_tunnel_gets_traffic [OF o demo_gen app b demo_geo demo_reads demo_ordinary demo_head_facts(1) h demo_no_route m w] o
    by (auto simp: demo_input_def)
qed

section \<open>From the request to the local service\<close>

text \<open>The bytes on a tunnel stream once the relay has written its announcement and the head.\<close>

definition wire :: "string \<Rightarrow> u8 list" where
  "wire s = map of_char s"

text \<open>
  Claim C3. A request crosses the tunnel unharmed: whatever request the relay hands to a tunnel, the client
  reads from the stream the address of the real peer, and the bytes it copies to its local service
  are the client's request with the forwarding headers put in, followed by everything that comes
  later on the stream, with no byte of the announcement among them.
\<close>

theorem request_reaches_local_service:
  assumes "route_http hi app = (Tunnelling tc, app')" and "bincode_law serialize deserialize"
    and "write_frame serialize (tc_frame tc) w = (Inr (), w')" and "wr_out w = []"
  shows "\<exists>head. read_head [] (hi_reads hi) = (HeadOk True, head)
    \<and> handle_incoming deserialize debug_frame target
        (\<lparr>rd_bytes = wr_out w' @ wire (tc_sent tc) @ later, rd_end = e\<rparr>, True) =
      Inr (show_sockaddr (hi_peer hi),
        wire (inject_forwarding_headers head (show_ip (sa_ip (hi_peer hi))) (hi_https hi)) @ later)"
  using route_http_sends [OF assms(1)] frame_read_back [OF assms(2-4)] by (auto simp: handle_incoming_def)

theorem request_reaches_local_service_witness:
  "\<exists>tc app'. route_http demo_http (demo_app demo_tunnel_state) = (Tunnelling tc, app')
     \<and> handle_incoming (two_des (tc_frame tc) Ping) (\<lambda>_. []) ''127.0.0.1:3000''
         (\<lparr>rd_bytes = [0, 0, 0, 1, 0] @ wire (tc_sent tc) @ [7], rd_end = None\<rparr>, True) =
       Inr (show_sockaddr (hi_peer demo_http),
         wire (inject_forwarding_headers demo_ws_head (show_ip (sa_ip (hi_peer demo_http))) (hi_https demo_http)) @ [7])"
proof -
  obtain tc app' where r: "route_http demo_http (demo_app demo_tunnel_state) = (Tunnelling tc, app')"
    using demo_tunnelled by blast
  have w: "write_frame (two_ser (tc_frame tc) Ping) (tc_frame tc) fresh_writer = (Inr (), fresh_writer\<lparr>wr_out := [0, 0, 0, 1, 0]\<rparr>)"
    by (rule two_writes) (simp add: two_ser_def)
  have z: "wr_out fresh_writer = []" by (simp add: fresh_writer_def)
  show ?thesis
    using request_reaches_local_service [OF r two_law w z, of "\<lambda>_. []" "''127.0.0.1:3000''" "[7]" None] demo_reads r by auto
qed

end
